(* ===== verification/Prelude.thy ===== *)
theory Prelude
  imports Main "HOL-Library.Word" "HOL-Library.Char_ord" "HOL-Library.List_Lexorder"
begin

text \<open>
  What every component of the development shares: the outcome of a Rust computation
  (a value, an error returned through \<^verbatim>\<open>Result\<close>, or a panic), the machine words the sources
  use with their little-endian byte forms, and the UTF-8 view of \<^verbatim>\<open>String\<close> and \<^verbatim>\<open>char\<close>.

  A Rust \<^verbatim>\<open>String\<close> or \<^verbatim>\<open>&str\<close> is modelled by its UTF-8 bytes, an Isabelle \<^typ>\<open>string\<close> (whose
  characters are bytes), so \<^verbatim>\<open>len()\<close> is \<^const>\<open>length\<close>, \<^verbatim>\<open>cmp\<close> is the lexicographic order and
  literals read as in the source. A Rust \<^verbatim>\<open>char\<close> is its scalar value, a \<^typ>\<open>nat\<close>.
  A \<^verbatim>\<open>usize\<close> is a \<^typ>\<open>nat\<close>; where the source checks an addition or a conversion the 64-bit
  bound is written out.
\<close>

section \<open>Outcomes\<close>

datatype (dead 'e, 'a) outcome = Ok 'a | Err 'e | Panic

text \<open>The \<^verbatim>\<open>?\<close> operator: an error or a panic ends the computation.\<close>

fun bindO :: "('e, 'a) outcome \<Rightarrow> ('a \<Rightarrow> ('e, 'b) outcome) \<Rightarrow> ('e, 'b) outcome" where
  "bindO (Ok x) f = f x"
| "bindO (Err e) f = Err e"
| "bindO Panic f = Panic"

text \<open>\<^verbatim>\<open>.map_err\<close> and \<^verbatim>\<open>.ok_or_else\<close>.\<close>

fun map_errO :: "('e \<Rightarrow> 'g) \<Rightarrow> ('e, 'a) outcome \<Rightarrow> ('g, 'a) outcome" where
  "map_errO f (Ok x) = Ok x"
| "map_errO f (Err e) = Err (f e)"
| "map_errO f Panic = Panic"

definition ok_or :: "'a option \<Rightarrow> 'e \<Rightarrow> ('e, 'a) outcome" where
  "ok_or x e = (case x of Some v \<Rightarrow> Ok v | None \<Rightarrow> Err e)"

text \<open>\<^verbatim>\<open>.expect(..)\<close> and \<^verbatim>\<open>.unwrap()\<close> on an \<^verbatim>\<open>Option\<close>.\<close>

definition expectO :: "'a option \<Rightarrow> ('e, 'a) outcome" where
  "expectO x = (case x of Some v \<Rightarrow> Ok v | None \<Rightarrow> Panic)"

text \<open>An early \<^verbatim>\<open>return Err(e)\<close> when a condition holds.\<close>

definition guardO :: "bool \<Rightarrow> 'e \<Rightarrow> ('e, unit) outcome" where
  "guardO b e = (if b then Err e else Ok ())"

text \<open>A \<^verbatim>\<open>for\<close> loop whose body may end early with \<^verbatim>\<open>?\<close>, and \<^verbatim>\<open>collect::<Result<Vec<_>, _>>\<close>.\<close>

fun foldO :: "('x \<Rightarrow> 's \<Rightarrow> ('e, 's) outcome) \<Rightarrow> 'x list \<Rightarrow> 's \<Rightarrow> ('e, 's) outcome" where
  "foldO f [] s = Ok s"
| "foldO f (x # xs) s = bindO (f x s) (foldO f xs)"

fun mapO :: "('x \<Rightarrow> ('e, 'y) outcome) \<Rightarrow> 'x list \<Rightarrow> ('e, 'y list) outcome" where
  "mapO f [] = Ok []"
| "mapO f (x # xs) = bindO (f x) (\<lambda>y. bindO (mapO f xs) (\<lambda>ys. Ok (y # ys)))"

text \<open>A counted loop \<^verbatim>\<open>for _ in 0..n\<close>.\<close>

fun repeatO :: "nat \<Rightarrow> ('s \<Rightarrow> ('e, 's) outcome) \<Rightarrow> 's \<Rightarrow> ('e, 's) outcome" where
  "repeatO 0 f s = Ok s"
| "repeatO (Suc n) f s = bindO (f s) (repeatO n f)"

definition no_panic :: "('e, 'a) outcome \<Rightarrow> bool" where
  "no_panic m \<longleftrightarrow> m \<noteq> Panic"

named_theorems outcome_simps \<open>inversion of the outcome combinators\<close>

lemma bindO_cong [fundef_cong]:
  assumes "m = m'" and "\<And>x. m' = Ok x \<Longrightarrow> f x = f' x"
  shows "bindO m f = bindO m' f'"
  using assms by (cases m') auto

lemma foldO_cong [fundef_cong]:
  assumes "xs = ys" and "s = t" and "\<And>x s. x \<in> set ys \<Longrightarrow> f x s = g x s"
  shows "foldO f xs s = foldO g ys t"
  using assms(3) unfolding assms(1,2)
proof (induction ys arbitrary: t)
  case (Cons y ys)
  have "f y t = g y t" using Cons.prems by simp
  moreover have "\<And>u. foldO f ys u = foldO g ys u" using Cons.IH Cons.prems by simp
  ultimately show ?case by (cases "g y t") auto
qed simp

lemma mapO_cong [fundef_cong]:
  assumes "xs = ys" and "\<And>x. x \<in> set ys \<Longrightarrow> f x = g x"
  shows "mapO f xs = mapO g ys"
  using assms(2) unfolding assms(1) by (induction ys) auto

text \<open>With this congruence \<open>simp\<close> runs a chain of fallible calls from the left, as Rust does.\<close>

lemma bindO_weak_cong: "m = m' \<Longrightarrow> bindO m f = bindO m' f"
  by simp

lemma bindO_Ok_iff [outcome_simps]: "bindO m f = Ok y \<longleftrightarrow> (\<exists>x. m = Ok x \<and> f x = Ok y)"
  by (cases m) auto

lemma bindO_pairE:
  assumes "bindO m (\<lambda>(a, b). f a b) = Ok y"
  obtains a b where "m = Ok (a, b)" and "f a b = Ok y"
  using assms by (auto simp: bindO_Ok_iff)

lemma bindO_OkE:
  assumes "bindO m f = Ok y"
  obtains x where "m = Ok x" and "f x = Ok y"
  using assms by (auto simp: bindO_Ok_iff)

lemma bindO_tripleE:
  assumes "bindO m (\<lambda>(a, b, c). f a b c) = Ok y"
  obtains a b c where "m = Ok (a, b, c)" and "f a b c = Ok y"
  using assms by (auto simp: bindO_Ok_iff)

lemma bindO_nestedE:
  assumes "bindO m (\<lambda>(a, (b, c), d). f a b c d) = Ok y"
  obtains a b c d where "m = Ok (a, (b, c), d)" and "f a b c d = Ok y"
  using assms by (auto simp: bindO_Ok_iff)

lemma if_ErrE:
  assumes "(if b then Err e else m) = Ok y"
  obtains "\<not> b" and "m = Ok y"
  using assms by (cases b) auto

lemma if_PanicE:
  assumes "(if b then Panic else m) = Ok y"
  obtains "\<not> b" and "m = Ok y"
  using assms by (cases b) auto

lemma bindO_nested2E:
  assumes "bindO m (\<lambda>((a, b), c). f a b c) = Ok y"
  obtains a b c where "m = Ok ((a, b), c)" and "f a b c = Ok y"
  using assms by (auto simp: bindO_Ok_iff)

lemmas outcome_elims = bindO_nested2E bindO_nestedE bindO_tripleE bindO_pairE bindO_OkE if_ErrE if_PanicE

lemma bindO_Err_iff: "bindO m f = Err e \<longleftrightarrow> m = Err e \<or> (\<exists>x. m = Ok x \<and> f x = Err e)"
  by (cases m) auto

lemma bindO_Panic_iff: "bindO m f = Panic \<longleftrightarrow> m = Panic \<or> (\<exists>x. m = Ok x \<and> f x = Panic)"
  by (cases m) auto

lemma bindO_assoc: "bindO (bindO m f) g = bindO m (\<lambda>x. bindO (f x) g)"
  by (cases m) auto

lemma bindO_Ok_right [simp]: "bindO m Ok = m"
  by (cases m) auto

lemma guardO_Ok_iff [outcome_simps]: "guardO b e = Ok u \<longleftrightarrow> \<not> b"
  by (auto simp: guardO_def)

lemma guardO_simps [simp]: "guardO False e = Ok ()" "guardO True e = Err e"
  by (auto simp: guardO_def)

lemma guardO_not_Panic [simp]: "guardO b e \<noteq> Panic"
  by (auto simp: guardO_def)

lemma ok_or_Ok_iff [outcome_simps]: "ok_or x e = Ok v \<longleftrightarrow> x = Some v"
  by (auto simp: ok_or_def split: option.splits)

lemma ok_or_simps [simp]: "ok_or (Some v) e = Ok v" "ok_or None e = Err e"
  by (auto simp: ok_or_def)

lemma ok_or_not_Panic [simp]: "ok_or x e \<noteq> Panic"
  by (auto simp: ok_or_def split: option.splits)

lemma expectO_Ok_iff [outcome_simps]: "expectO x = Ok v \<longleftrightarrow> x = Some v"
  by (auto simp: expectO_def split: option.splits)

lemma expectO_simps [simp]: "expectO (Some v) = Ok v" "expectO None = Panic"
  by (auto simp: expectO_def)

lemma map_errO_Ok_iff [outcome_simps]: "map_errO f m = Ok x \<longleftrightarrow> m = Ok x"
  by (cases m) auto

lemma map_errO_Panic_iff [simp]: "map_errO f m = Panic \<longleftrightarrow> m = Panic"
  by (cases m) auto

text \<open>Absence of panics composes along the combinators.\<close>

named_theorems no_panic_intros \<open>rules for absence of panics\<close>

lemma no_panic_simps [simp]: "no_panic (Ok x)" "no_panic (Err e)" "\<not> no_panic Panic"
  by (auto simp: no_panic_def)

lemma no_panic_bindO [no_panic_intros]:
  "no_panic m \<Longrightarrow> (\<And>x. m = Ok x \<Longrightarrow> no_panic (f x)) \<Longrightarrow> no_panic (bindO m f)"
  by (cases m) auto

lemma no_panic_guardO [no_panic_intros, simp]: "no_panic (guardO b e)"
  by (simp add: no_panic_def)

lemma no_panic_ok_or [no_panic_intros, simp]: "no_panic (ok_or x e)"
  by (simp add: no_panic_def)

lemma no_panic_map_errO [no_panic_intros, simp]: "no_panic (map_errO f m) \<longleftrightarrow> no_panic m"
  by (simp add: no_panic_def)

lemma no_panic_if [no_panic_intros]:
  "(b \<Longrightarrow> no_panic m) \<Longrightarrow> (\<not> b \<Longrightarrow> no_panic n) \<Longrightarrow> no_panic (if b then m else n)"
  by simp

lemma no_panic_foldO [no_panic_intros]:
  assumes "\<And>x s. x \<in> set xs \<Longrightarrow> no_panic (f x s)"
  shows "no_panic (foldO f xs s)"
  using assms by (induction xs arbitrary: s) (auto intro!: no_panic_bindO)

lemma no_panic_foldO_invariant:
  assumes "I s" and "\<And>x s. x \<in> set xs \<Longrightarrow> I s \<Longrightarrow> no_panic (f x s)"
    and "\<And>x s t. x \<in> set xs \<Longrightarrow> I s \<Longrightarrow> f x s = Ok t \<Longrightarrow> I t"
  shows "no_panic (foldO f xs s)"
  using assms
proof (induction xs arbitrary: s)
  case (Cons x xs)
  show ?case
    using Cons.prems by (auto intro!: no_panic_bindO Cons.IH; blast)
qed simp

lemma no_panic_mapO [no_panic_intros]:
  assumes "\<And>x. x \<in> set xs \<Longrightarrow> no_panic (f x)"
  shows "no_panic (mapO f xs)"
  using assms by (induction xs) (auto intro!: no_panic_bindO)

lemma no_panic_repeatO [no_panic_intros]:
  assumes "\<And>s. no_panic (f s)"
  shows "no_panic (repeatO n f s)"
  using assms by (induction n arbitrary: s) (auto intro!: no_panic_bindO)

lemma foldO_append: "foldO f (xs @ ys) s = bindO (foldO f xs s) (foldO f ys)"
proof (induction xs arbitrary: s)
  case (Cons x xs)
  then show ?case by (cases "f x s") auto
qed simp

lemma foldO_snoc: "foldO f (xs @ [x]) s = bindO (foldO f xs s) (f x)"
proof -
  have "foldO f [x] = f x" by (rule ext) (simp add: fun_eq_iff, metis bindO_Ok_right foldO.simps(1) ext)
  then show ?thesis by (simp add: foldO_append)
qed

lemma foldO_invariant:
  assumes "foldO f xs s = Ok t" and "P s"
    and "\<And>x s t. x \<in> set xs \<Longrightarrow> P s \<Longrightarrow> f x s = Ok t \<Longrightarrow> P t"
  shows "P t"
  using assms
proof (induction xs arbitrary: s)
  case (Cons x xs)
  then obtain u where u: "f x s = Ok u" "foldO f xs u = Ok t"
    by (auto simp: outcome_simps)
  moreover from u have "P u" using Cons.prems(2,3) by auto
  ultimately show ?case using Cons.IH Cons.prems(3) by auto
qed simp

lemma mapO_Ok_length: "mapO f xs = Ok ys \<Longrightarrow> length ys = length xs"
  by (induction xs arbitrary: ys) (auto simp: outcome_simps)

lemma mapO_Ok_nth: "mapO f xs = Ok ys \<Longrightarrow> i < length xs \<Longrightarrow> f (xs ! i) = Ok (ys ! i)"
  by (induction xs arbitrary: ys i) (auto simp: outcome_simps nth_Cons split: nat.splits)

section \<open>Machine integers\<close>

type_synonym byte = "8 word"
type_synonym u32 = "32 word"
type_synonym u64 = "64 word"
type_synonym f64 = u64

definition USIZE_MAX :: nat where
  "USIZE_MAX = 2 ^ 64 - 1"

definition usize_checked_add :: "nat \<Rightarrow> nat \<Rightarrow> nat option" where
  "usize_checked_add a b = (if a + b \<le> USIZE_MAX then Some (a + b) else None)"

definition usize_saturating_add :: "nat \<Rightarrow> nat \<Rightarrow> nat" where
  "usize_saturating_add a b = min (a + b) USIZE_MAX"

definition usize_saturating_mul :: "nat \<Rightarrow> nat \<Rightarrow> nat" where
  "usize_saturating_mul a b = min (a * b) USIZE_MAX"

definition U128_MAX :: nat where
  "U128_MAX = 2 ^ 128 - 1"

definition u128_checked_add :: "nat \<Rightarrow> nat \<Rightarrow> nat option" where
  "u128_checked_add a b = (if a + b \<le> U128_MAX then Some (a + b) else None)"

definition u128_checked_sub :: "nat \<Rightarrow> nat \<Rightarrow> nat option" where
  "u128_checked_sub a b = (if b \<le> a then Some (a - b) else None)"

definition u128_checked_mul :: "nat \<Rightarrow> nat \<Rightarrow> nat option" where
  "u128_checked_mul a b = (if a * b \<le> U128_MAX then Some (a * b) else None)"

text \<open>\<^verbatim>\<open>to_le_bytes\<close> of a \<open>8 * k\<close>-bit integer and \<^verbatim>\<open>from_le_bytes\<close>.\<close>

primrec le_bytes :: "nat \<Rightarrow> nat \<Rightarrow> byte list" where
  "le_bytes 0 n = []"
| "le_bytes (Suc k) n = word_of_nat n # le_bytes k (n div 256)"

primrec from_le_bytes :: "byte list \<Rightarrow> nat" where
  "from_le_bytes [] = 0"
| "from_le_bytes (b # bs) = unat b + 256 * from_le_bytes bs"

lemma length_le_bytes [simp]: "length (le_bytes k n) = k"
  by (induction k arbitrary: n) auto

lemma le_bytes_zero: "le_bytes k 0 = replicate k 0"
  by (induction k) auto

lemma unat_byte_of_nat: "unat (word_of_nat n :: byte) = n mod 256"
  by (simp add: unat_of_nat)

lemma unat_byte_less [simp]: "unat (b :: byte) < 256"
  using unsigned_less [of b] by simp

lemma from_le_bytes_less: "from_le_bytes bs < 256 ^ length bs"
proof (induction bs)
  case (Cons b bs)
  have "from_le_bytes bs + 1 \<le> 256 ^ length bs" using Cons.IH by simp
  then have "256 * (from_le_bytes bs + 1) \<le> 256 * 256 ^ length bs" by (rule mult_le_mono2)
  moreover have "unat b < 256" by simp
  ultimately show ?case by (simp del: unat_byte_less)
qed simp

lemma from_le_bytes_le_bytes [simp]:
  "n < 256 ^ k \<Longrightarrow> from_le_bytes (le_bytes k n) = n"
proof (induction k arbitrary: n)
  case (Suc k)
  then have "n div 256 < 256 ^ k" by (simp add: less_mult_imp_div_less mult.commute)
  then show ?case using Suc.IH by (simp add: unat_byte_of_nat)
qed simp

lemma le_bytes_from_le_bytes [simp]: "le_bytes (length bs) (from_le_bytes bs) = bs"
proof (induction bs)
  case (Cons b bs)
  have "word_of_nat (unat b + 256 * from_le_bytes bs) = b"
    by (rule word_unat_eq_iff [THEN iffD2]) (simp add: unat_byte_of_nat del: of_nat_add)
  moreover have "(unat b + 256 * from_le_bytes bs) div 256 = from_le_bytes bs" by simp
  ultimately show ?case using Cons.IH by simp
qed simp

text \<open>Slicing \<^verbatim>\<open>&xs[a..b]\<close> panics outside the bounds; \<^verbatim>\<open>xs.get(a..b)\<close> gives \<^verbatim>\<open>None\<close>.\<close>

definition slice :: "'a list \<Rightarrow> nat \<Rightarrow> nat \<Rightarrow> 'a list" where
  "slice xs a b = take (b - a) (drop a xs)"

definition get_range :: "'a list \<Rightarrow> nat \<Rightarrow> nat \<Rightarrow> 'a list option" where
  "get_range xs a b = (if a \<le> b \<and> b \<le> length xs then Some (slice xs a b) else None)"

definition index_range :: "'a list \<Rightarrow> nat \<Rightarrow> nat \<Rightarrow> ('e, 'a list) outcome" where
  "index_range xs a b = expectO (get_range xs a b)"

definition index_at :: "'a list \<Rightarrow> nat \<Rightarrow> ('e, 'a) outcome" where
  "index_at xs i = (if i < length xs then Ok (xs ! i) else Panic)"

text \<open>\<^verbatim>\<open>xs[a..a + ys.len()].copy_from_slice(ys)\<close>, for a range inside \<open>xs\<close>.\<close>

definition overwrite :: "'a list \<Rightarrow> nat \<Rightarrow> 'a list \<Rightarrow> 'a list" where
  "overwrite xs a ys = take a xs @ ys @ drop (a + length ys) xs"

lemma length_slice [simp]: "a \<le> b \<Longrightarrow> b \<le> length xs \<Longrightarrow> length (slice xs a b) = b - a"
  by (simp add: slice_def)

lemma slice_Suc_take: "i < length xs \<Longrightarrow> slice xs i (Suc i) = [xs ! i]"
  by (simp add: slice_def take_Suc hd_drop_conv_nth)

lemma slice_append:
  assumes "a \<le> b" and "b \<le> c"
  shows "slice xs a b @ slice xs b c = slice xs a c"
proof -
  have "c - a = (b - a) + (c - b)" and "drop b xs = drop (b - a) (drop a xs)"
    using assms by simp_all
  then show ?thesis by (simp add: slice_def take_add del: drop_drop)
qed

lemma slice_self [simp]: "slice xs a a = []"
  by (simp add: slice_def)

lemma index_range_Ok [simp]: "a \<le> b \<Longrightarrow> b \<le> length xs \<Longrightarrow> index_range xs a b = Ok (slice xs a b)"
  by (simp add: index_range_def get_range_def)

lemma index_range_Ok_iff [outcome_simps]:
  "index_range xs a b = Ok ys \<longleftrightarrow> a \<le> b \<and> b \<le> length xs \<and> ys = slice xs a b"
  by (auto simp: index_range_def get_range_def)

lemma index_at_Ok_iff [outcome_simps]: "index_at xs i = Ok x \<longleftrightarrow> i < length xs \<and> x = xs ! i"
  by (auto simp: index_at_def)

lemma length_overwrite [simp]:
  "a + length ys \<le> length xs \<Longrightarrow> length (overwrite xs a ys) = length xs"
  by (simp add: overwrite_def)

section \<open>Text\<close>

type_synonym uchar = nat

definition is_scalar :: "uchar \<Rightarrow> bool" where
  "is_scalar c \<longleftrightarrow> c < 0xD800 \<or> (0xE000 \<le> c \<and> c < 0x110000)"

abbreviation asc :: "char \<Rightarrow> uchar" where
  "asc c \<equiv> of_char c"

definition as_bytes :: "string \<Rightarrow> byte list" where
  "as_bytes s = map (\<lambda>c. word_of_nat (of_char c)) s"

definition bytes_string :: "byte list \<Rightarrow> string" where
  "bytes_string bs = map (\<lambda>b. char_of (unat b)) bs"

lemma length_as_bytes [simp]: "length (as_bytes s) = length s"
  by (simp add: as_bytes_def)

lemma bytes_string_as_bytes [simp]: "bytes_string (as_bytes s) = s"
  by (simp add: bytes_string_def as_bytes_def comp_def unat_byte_of_nat)

lemma as_bytes_bytes_string [simp]: "as_bytes (bytes_string bs) = bs"
proof -
  have "word_of_nat (of_char (char_of (unat b) :: char)) = b" for b :: byte
    by (simp add: of_char_mod_256)
  then show ?thesis by (simp add: bytes_string_def as_bytes_def comp_def)
qed

lemma as_bytes_inject [simp]: "as_bytes s = as_bytes t \<longleftrightarrow> s = t"
  by (metis bytes_string_as_bytes)

text \<open>
  The scalar values of a UTF-8 byte sequence, \<^verbatim>\<open>None\<close> where \<^verbatim>\<open>String::from_utf8\<close> rejects it
  (an overlong form, a surrogate, a value above U+10FFFF or a truncated sequence).
\<close>

definition utf8_cont :: "nat \<Rightarrow> bool" where
  "utf8_cont b \<longleftrightarrow> 0x80 \<le> b \<and> b < 0xC0"

fun utf8_chars :: "nat list \<Rightarrow> uchar list option" where
  "utf8_chars [] = Some []"
| "utf8_chars (b0 # r0) =
     (if b0 < 0x80 then map_option (\<lambda>cs. b0 # cs) (utf8_chars r0)
      else (case r0 of [] \<Rightarrow> None
      | b1 # r1 \<Rightarrow>
        (if 0xC2 \<le> b0 \<and> b0 < 0xE0 then
          (if utf8_cont b1
           then map_option (\<lambda>cs. ((b0 - 0xC0) * 64 + (b1 - 0x80)) # cs) (utf8_chars r1) else None)
        else (case r1 of [] \<Rightarrow> None
        | b2 # r2 \<Rightarrow>
          (if 0xE0 \<le> b0 \<and> b0 < 0xF0 then
            (let c = (b0 - 0xE0) * 4096 + (b1 - 0x80) * 64 + (b2 - 0x80) in
             if utf8_cont b1 \<and> utf8_cont b2 \<and> 0x800 \<le> c \<and> is_scalar c
             then map_option (\<lambda>cs. c # cs) (utf8_chars r2) else None)
          else (case r2 of [] \<Rightarrow> None
          | b3 # r3 \<Rightarrow>
            (let c = (b0 - 0xF0) * 262144 + (b1 - 0x80) * 4096 + (b2 - 0x80) * 64 + (b3 - 0x80) in
             if 0xF0 \<le> b0 \<and> b0 < 0xF5 \<and> utf8_cont b1 \<and> utf8_cont b2 \<and> utf8_cont b3
               \<and> 0x10000 \<le> c \<and> is_scalar c
             then map_option (\<lambda>cs. c # cs) (utf8_chars r3) else None)))))))"

definition utf8_valid :: "string \<Rightarrow> bool" where
  "utf8_valid s \<longleftrightarrow> utf8_chars (map of_char s) \<noteq> None"

definition from_utf8 :: "byte list \<Rightarrow> string option" where
  "from_utf8 bs = (if utf8_valid (bytes_string bs) then Some (bytes_string bs) else None)"

lemma from_utf8_as_bytes [simp]: "utf8_valid s \<Longrightarrow> from_utf8 (as_bytes s) = Some s"
  by (simp add: from_utf8_def)

lemma from_utf8_Some_iff: "from_utf8 bs = Some s \<longleftrightarrow> bs = as_bytes s \<and> utf8_valid s"
  by (auto simp: from_utf8_def)

text \<open>\<^verbatim>\<open>String::push\<close> of one scalar value.\<close>

definition utf8_encode :: "uchar \<Rightarrow> string" where
  "utf8_encode c =
     map char_of
      (if c < 0x80 then [c]
       else if c < 0x800 then [0xC0 + c div 64, 0x80 + c mod 64]
       else if c < 0x10000 then [0xE0 + c div 4096, 0x80 + c div 64 mod 64, 0x80 + c mod 64]
       else [0xF0 + c div 262144, 0x80 + c div 4096 mod 64, 0x80 + c div 64 mod 64, 0x80 + c mod 64])"

definition utf8_string :: "uchar list \<Rightarrow> string" where
  "utf8_string cs = concat (map utf8_encode cs)"

lemma utf8_string_simps [simp]:
  "utf8_string [] = []" "utf8_string (c # cs) = utf8_encode c @ utf8_string cs"
  "utf8_string (cs @ ds) = utf8_string cs @ utf8_string ds"
  by (auto simp: utf8_string_def)

text \<open>Decimal rendering of an unsigned integer, as \<^verbatim>\<open>{}\<close> formats it.\<close>

fun show_nat :: "nat \<Rightarrow> string" where
  "show_nat n = (if n < 10 then [char_of (48 + n)] else show_nat (n div 10) @ [char_of (48 + n mod 10)])"

declare show_nat.simps [simp del]

end
