(* ===== verification/Diagnostics.thy ===== *)
theory Diagnostics
  imports Prelude
begin

text \<open>
  \<^verbatim>\<open>compiler/src/diagnostics.rs\<close>: source positions and spans, the diagnostic record every stage
  of the compiler returns, the source map that relocates a diagnostic of a multi-file project to
  the file it came from, and the text and JSON renderings. The theorems say that relocation stays
  inside the file it chose and that a JSON rendering of any message is read back unchanged.
\<close>

section \<open>Positions and spans\<close>

record position =
  line :: nat
  column :: nat

record span =
  span_start :: position
  span_end :: position

definition Position :: "nat \<Rightarrow> nat \<Rightarrow> position" where
  "Position l c = \<lparr>line = l, column = c\<rparr>"

definition Span_new :: "position \<Rightarrow> position \<Rightarrow> span" where
  "Span_new s e = \<lparr>span_start = s, span_end = e\<rparr>"

definition Span_point :: "nat \<Rightarrow> nat \<Rightarrow> span" where
  "Span_point l c = (let p = Position l c in Span_new p p)"

definition Span_through :: "span \<Rightarrow> span \<Rightarrow> span" where
  "Span_through s t = Span_new (span_start s) (span_end t)"

text \<open>The derived \<^verbatim>\<open>Ord\<close> of a position: line first, then column.\<close>

definition pos_le :: "position \<Rightarrow> position \<Rightarrow> bool" where
  "pos_le p q \<longleftrightarrow> line p < line q \<or> line p = line q \<and> column p \<le> column q"

definition pos_less :: "position \<Rightarrow> position \<Rightarrow> bool" where
  "pos_less p q \<longleftrightarrow> line p < line q \<or> line p = line q \<and> column p < column q"

lemma pos_le_refl [simp]: "pos_le p p"
  by (simp add: pos_le_def)

lemma pos_le_trans [trans]: "pos_le p q \<Longrightarrow> pos_le q r \<Longrightarrow> pos_le p r"
  by (auto simp: pos_le_def)

lemma pos_less_le_trans [trans]: "pos_less p q \<Longrightarrow> pos_le q r \<Longrightarrow> pos_less p r"
  by (auto simp: pos_le_def pos_less_def)

lemma pos_le_less_trans [trans]: "pos_le p q \<Longrightarrow> pos_less q r \<Longrightarrow> pos_less p r"
  by (auto simp: pos_le_def pos_less_def)

lemma pos_less_imp_le: "pos_less p q \<Longrightarrow> pos_le p q"
  by (auto simp: pos_le_def pos_less_def)

lemma Span_sels [simp]:
  "span_start (Span_new s e) = s" "span_end (Span_new s e) = e"
  "line (Position l c) = l" "column (Position l c) = c"
  by (auto simp: Span_new_def Position_def)

section \<open>Diagnostics\<close>

datatype diagnostic_kind = Lex | Parse | Resolve | Type | Runtime | Internal | Backend

fun code :: "diagnostic_kind \<Rightarrow> string" where
  "code Lex = ''DISP-LEX-0001''"
| "code Parse = ''DISP-PARSE-0001''"
| "code Resolve = ''DISP-RESOLVE-0001''"
| "code Type = ''DISP-TYPE-0001''"
| "code Runtime = ''DISP-RUNTIME-0001''"
| "code Internal = ''DISP-INTERNAL-0001''"
| "code Backend = ''DISP-BACKEND-0001''"

fun label :: "diagnostic_kind \<Rightarrow> string" where
  "label Lex = ''lexer''"
| "label Parse = ''parser''"
| "label Resolve = ''resolver''"
| "label Type = ''type''"
| "label Runtime = ''runtime''"
| "label Internal = ''internal compiler''"
| "label Backend = ''native backend''"

record diagnostic =
  diag_kind :: diagnostic_kind
  diag_message :: string
  diag_span :: span
  diag_help :: "string option"
  diag_file :: "string option"

definition Diagnostic_new :: "diagnostic_kind \<Rightarrow> string \<Rightarrow> span \<Rightarrow> diagnostic" where
  "Diagnostic_new k m s =
     \<lparr>diag_kind = k, diag_message = m, diag_span = s, diag_help = None, diag_file = None\<rparr>"

definition with_help :: "diagnostic \<Rightarrow> string \<Rightarrow> diagnostic" where
  "with_help d h = d\<lparr>diag_help := Some h\<rparr>"

definition with_file :: "diagnostic \<Rightarrow> string \<Rightarrow> diagnostic" where
  "with_file d f = d\<lparr>diag_file := Some f\<rparr>"

section \<open>The source map\<close>

text \<open>
  The modules of a project are lexed with disjoint line ranges; \<^verbatim>\<open>remap\<close> finds the file whose
  range holds the start line and shifts both lines back. Its \<^verbatim>\<open>start_line - 1\<close> panics at 0.
\<close>

record source_file =
  path :: string
  identity_path :: string
  start_line :: nat
  end_line :: nat

record source_map =
  files :: "source_file list"

definition remap :: "source_map \<Rightarrow> diagnostic \<Rightarrow> ('e, diagnostic) outcome" where
  "remap m d =
     (if diag_file d \<noteq> None then Ok d
      else case find (\<lambda>f. start_line f \<le> line (span_start (diag_span d))
                        \<and> line (span_start (diag_span d)) \<le> end_line f) (files m) of
        None \<Rightarrow> Ok d
      | Some f \<Rightarrow>
          if start_line f = 0 then Panic
          else let offset = start_line f - 1; s = diag_span d in
            Ok (d\<lparr>diag_span := Span_new
                    (Position (line (span_start s) - offset) (column (span_start s)))
                    (Position (line (span_end s) - offset) (column (span_end s))),
                  diag_file := Some (path f)\<rparr>))"

section \<open>Renderings\<close>

definition render :: "diagnostic \<Rightarrow> string \<Rightarrow> string" where
  "render d f =
     (case diag_file d of Some g \<Rightarrow> g | None \<Rightarrow> f) @ '':'' @
     show_nat (line (span_start (diag_span d))) @ '':'' @
     show_nat (column (span_start (diag_span d))) @ '': '' @ label (diag_kind d) @
     '' error: '' @ diag_message d @
     (case diag_help d of None \<Rightarrow> [] | Some h \<Rightarrow> CHR 0x0A # ''help: '' @ h)"

definition hex_digit :: "nat \<Rightarrow> char" where
  "hex_digit n = (if n < 10 then char_of (48 + n) else char_of (87 + n))"

text \<open>
  \<^verbatim>\<open>escape_json\<close> walks the scalar values; only ASCII ones are rewritten, so copying the others
  is copying their UTF-8 bytes.
\<close>

definition escape_json_char :: "char \<Rightarrow> string" where
  "escape_json_char c =
     (if c = CHR 0x22 then [CHR 0x5C, CHR 0x22]
      else if c = CHR 0x5C then [CHR 0x5C, CHR 0x5C]
      else if c = CHR 0x08 then [CHR 0x5C, CHR ''b'']
      else if c = CHR 0x0C then [CHR 0x5C, CHR ''f'']
      else if c = CHR 0x0A then [CHR 0x5C, CHR ''n'']
      else if c = CHR 0x0D then [CHR 0x5C, CHR ''r'']
      else if c = CHR 0x09 then [CHR 0x5C, CHR ''t'']
      else if (of_char c :: nat) \<le> 0x1F then
        CHR 0x5C # ''u'' @ map hex_digit [0, 0, of_char c div 16, of_char c mod 16]
      else [c])"

definition escape_json :: "string \<Rightarrow> string" where
  "escape_json s = concat (map escape_json_char s)"

definition quoted :: "string \<Rightarrow> string" where
  "quoted s = CHR 0x22 # s @ [CHR 0x22]"

definition render_json :: "diagnostic \<Rightarrow> string \<Rightarrow> string" where
  "render_json d f =
     (let f = (case diag_file d of Some g \<Rightarrow> g | None \<Rightarrow> f);
          h = (case diag_help d of None \<Rightarrow> ''null'' | Some h \<Rightarrow> quoted (escape_json h));
          at = (\<lambda>p. ''{'' @ quoted ''line'' @ '':'' @ show_nat (line p) @ '','' @
                     quoted ''column'' @ '':'' @ show_nat (column p) @ ''}'')
      in ''{'' @ quoted ''schema'' @ '':'' @ quoted ''disp.diagnostic.v1'' @ '','' @
         quoted ''code'' @ '':'' @ quoted (code (diag_kind d)) @ '','' @
         quoted ''severity'' @ '':'' @ quoted ''error'' @ '','' @
         quoted ''stage'' @ '':'' @ quoted (label (diag_kind d)) @ '','' @
         quoted ''message'' @ '':'' @ quoted (escape_json (diag_message d)) @ '','' @
         quoted ''file'' @ '':'' @ quoted (escape_json f) @ '','' @
         quoted ''span'' @ '':{'' @ quoted ''start'' @ '':'' @ at (span_start (diag_span d)) @ '','' @
         quoted ''end'' @ '':'' @ at (span_end (diag_span d)) @ ''},'' @
         quoted ''help'' @ '':'' @ h @ ''}'')"

definition render_driver_json :: "string \<Rightarrow> string \<Rightarrow> string" where
  "render_driver_json c m =
     ''{'' @ quoted ''schema'' @ '':'' @ quoted ''disp.diagnostic.v1'' @ '','' @
     quoted ''code'' @ '':'' @ quoted (escape_json c) @ '','' @
     quoted ''severity'' @ '':'' @ quoted ''error'' @ '','' @
     quoted ''stage'' @ '':'' @ quoted ''driver'' @ '','' @
     quoted ''message'' @ '':'' @ quoted (escape_json m) @ '','' @
     quoted ''file'' @ '':null,'' @ quoted ''span'' @ '':null,'' @ quoted ''help'' @ '':null}''"

section \<open>Relocation\<close>

definition source_map_wf :: "source_map \<Rightarrow> bool" where
  "source_map_wf m \<longleftrightarrow> (\<forall>f \<in> set (files m). 1 \<le> start_line f)"

lemma remap_no_panic: "source_map_wf m \<Longrightarrow> no_panic (remap m d)"
  by (auto simp: remap_def source_map_wf_def Let_def find_Some_iff split: option.splits
      dest!: nth_mem)

lemma remap_inside:
  assumes "remap m d = Ok d'" and "diag_file d = None" and "diag_file d' = Some p"
  obtains f where "f \<in> set (files m)" and "p = path f"
    and "line (span_start (diag_span d')) = line (span_start (diag_span d)) + 1 - start_line f"
    and "1 \<le> line (span_start (diag_span d'))"
    and "line (span_start (diag_span d')) \<le> end_line f - start_line f + 1"
  using assms
  by (fastforce simp: remap_def Let_def find_Some_iff split: option.splits if_splits
      dest!: nth_mem)

section \<open>Reading a rendered string back\<close>

text \<open>A reader of JSON string bodies: up to the closing quote, with the RFC 8259 escapes.\<close>

definition hex_value :: "char \<Rightarrow> nat option" where
  "hex_value c =
     (let n = of_char c in
      if 48 \<le> n \<and> n < 58 then Some (n - 48)
      else if 97 \<le> n \<and> n < 103 then Some (n - 87)
      else if 65 \<le> n \<and> n < 71 then Some (n - 55) else None)"

definition simple_escape :: "char \<Rightarrow> char option" where
  "simple_escape c =
     (if c = CHR 0x22 then Some (CHR 0x22) else if c = CHR 0x5C then Some (CHR 0x5C)
      else if c = CHR ''/'' then Some (CHR ''/'') else if c = CHR ''b'' then Some (CHR 0x08)
      else if c = CHR ''f'' then Some (CHR 0x0C) else if c = CHR ''n'' then Some (CHR 0x0A)
      else if c = CHR ''r'' then Some (CHR 0x0D) else if c = CHR ''t'' then Some (CHR 0x09)
      else None)"

fun json_string_body :: "string \<Rightarrow> (string \<times> string) option" where
  "json_string_body [] = None"
| "json_string_body (c # r) =
     (if c = CHR 0x22 then Some ([], r)
      else if c = CHR 0x5C then
        (case r of
          [] \<Rightarrow> None
        | e # r1 \<Rightarrow>
           (if e = CHR ''u'' then
              (case r1 of
                h1 # h2 # h3 # h4 # r2 \<Rightarrow>
                  (case (hex_value h1, hex_value h2, hex_value h3, hex_value h4) of
                    (Some a, Some b, Some d, Some e) \<Rightarrow>
                      map_option (\<lambda>(s, t). (utf8_encode (4096 * a + 256 * b + 16 * d + e) @ s, t))
                        (json_string_body r2)
                  | _ \<Rightarrow> None)
              | _ \<Rightarrow> None)
            else (case simple_escape e of
                None \<Rightarrow> None
              | Some x \<Rightarrow> map_option (\<lambda>(s, t). (x # s, t)) (json_string_body r1))))
      else if (of_char c :: nat) < 0x20 then None
      else map_option (\<lambda>(s, t). (c # s, t)) (json_string_body r))"

lemma hex_value_hex_digit: "n < 16 \<Longrightarrow> hex_value (hex_digit n) = Some n"
  by (auto simp: hex_value_def hex_digit_def Let_def)

lemma escape_json_char_read:
  "json_string_body (escape_json_char c @ r) =
     map_option (\<lambda>(s, t). (c # s, t)) (json_string_body r)"
proof -
  have enc: "utf8_encode (of_char c) = [c]" if "(of_char c :: nat) < 32"
    using that by (simp add: utf8_encode_def)
  have hex: "16 * ((of_char c :: nat) div 16) + of_char c mod 16 = of_char c" by simp
  show ?thesis
    using enc hex
    by (auto simp: escape_json_char_def simple_escape_def hex_value_hex_digit)
qed

lemma escape_json_read:
  "json_string_body (escape_json s @ CHR 0x22 # r) = Some (s, r)"
  by (induction s) (simp_all add: escape_json_def escape_json_char_read)

lemma escape_json_char_no_control: "\<forall>x \<in> set (escape_json_char c). 0x20 \<le> (of_char x :: nat)"
  by (auto simp: escape_json_char_def hex_digit_def)

end
