(* ===== verification/Lexer.thy ===== *)
theory Lexer
  imports Diagnostics
begin

text \<open>
  \<^verbatim>\<open>compiler/src/lexer.rs\<close>: the tokens, the lexer state (the characters of the source, the index
  of the next one and its position) and every method of \<^verbatim>\<open>Lexer\<close>, composed as in the source.
  Indexing past the end is a panic of the model, as in Rust. What the lexer takes from the crates
  \<^verbatim>\<open>unicode_ident\<close> and \<^verbatim>\<open>unicode_normalization\<close>, and the value \<^verbatim>\<open>str::parse::<f64>\<close> gives a decimal
  text, are the parameters collected in \<open>lex_env\<close>.
\<close>

section \<open>Tokens\<close>

text \<open>
  \<^verbatim>\<open>TokenKind\<close>, with its constructors grouped into the keywords, the operators and punctuation,
  and the kinds that carry text or a value.
\<close>

datatype (plugins only: code size) keyword =
    TkLet | TkVar | TkConst | TkFn | TkReturn | TkIf | TkElse | TkMatch | TkFor | TkIn | TkWhile
  | TkLoop | TkBreak | TkContinue | TkStruct | TkEnum | TkTrait | TkImpl | TkType | TkModule
  | TkUse | TkAs | TkPub | TkAsync | TkAwait | TkSpawn | TkParallel | TkMove | TkMut | TkUnsafe
  | TkExtern | TkExport | TkData | TkTransaction | TkPage | TkComponent | TkStyle | TkState
  | TkRoute | TkComptime | TkTrue | TkFalse

datatype (plugins only: code size) symbol =
    TkPlus | TkMinus | TkStar | TkSlash | TkPercent | TkEqual | TkEqualEqual | TkBang
  | TkBangEqual | TkLess | TkLessEqual | TkGreater | TkGreaterEqual | TkAnd | TkAndAnd | TkOr
  | TkOrOr | TkCaret | TkTilde | TkPlusEqual | TkMinusEqual | TkStarEqual | TkSlashEqual
  | TkShiftLeft | TkShiftRight | TkArrow | TkFatArrow | TkQuestion | TkLeftParen | TkRightParen
  | TkLeftBrace | TkRightBrace | TkLeftBracket | TkRightBracket | TkComma | TkDot | TkColon
  | TkSemicolon | TkRange | TkRangeInclusive

datatype token_kind =
    TkKeyword keyword | TkSymbol symbol | TkIdentifier string | TkInteger nat | TkFloat f64
  | TkString string | TkCharacter uchar | TkEof

record token =
  token_kind :: token_kind
  token_span :: span

record lex_env =
  is_xid_start :: "uchar \<Rightarrow> bool"
  is_xid_continue :: "uchar \<Rightarrow> bool"
  nfc :: "uchar list \<Rightarrow> uchar list"
  parse_f64 :: "string \<Rightarrow> f64 option"

section \<open>The lexer state\<close>

record lexer =
  source :: "uchar list"
  current :: nat
  position :: position

definition with_start_line :: "uchar list \<Rightarrow> nat \<Rightarrow> lexer" where
  "with_start_line src l = \<lparr>source = src, current = 0, position = Position l 1\<rparr>"

definition Lexer_new :: "uchar list \<Rightarrow> lexer" where
  "Lexer_new src = with_start_line src 1"

definition peek :: "lexer \<Rightarrow> uchar option" where
  "peek lx = (if current lx < length (source lx) then Some (source lx ! current lx) else None)"

definition peek_next :: "lexer \<Rightarrow> uchar option" where
  "peek_next lx =
     (if current lx + 1 < length (source lx) then Some (source lx ! (current lx + 1)) else None)"

definition is_at_end :: "lexer \<Rightarrow> bool" where
  "is_at_end lx \<longleftrightarrow> length (source lx) \<le> current lx"

definition next_position :: "uchar \<Rightarrow> position \<Rightarrow> position" where
  "next_position c p =
     (if c = 10 then Position (line p + 1) 1 else Position (line p) (column p + 1))"

definition advance :: "lexer \<Rightarrow> (diagnostic, uchar \<times> lexer) outcome" where
  "advance lx = bindO (index_at (source lx) (current lx)) (\<lambda>c.
     Ok (c, lx\<lparr>current := current lx + 1, position := next_position c (position lx)\<rparr>))"

definition match_char :: "lexer \<Rightarrow> uchar \<Rightarrow> (diagnostic, bool \<times> lexer) outcome" where
  "match_char lx e =
     (if peek lx \<noteq> Some e then Ok (False, lx)
      else bindO (advance lx) (\<lambda>(_, lx'). Ok (True, lx')))"

text \<open>
  What is left to read is the measure of every loop. Every method only moves forward: it keeps
  the source, and the position after it is the position before it carried over the characters
  it consumed.
\<close>

definition remaining :: "lexer \<Rightarrow> nat" where
  "remaining lx = length (source lx) - current lx"

definition pos_after :: "position \<Rightarrow> uchar list \<Rightarrow> position" where
  "pos_after p cs = fold next_position cs p"

definition reach :: "lexer \<Rightarrow> lexer \<Rightarrow> bool" where
  "reach lx lx' \<longleftrightarrow> source lx' = source lx \<and> current lx \<le> current lx'
     \<and> (current lx \<le> length (source lx) \<longrightarrow> current lx' \<le> length (source lx))
     \<and> position lx' = pos_after (position lx) (slice (source lx) (current lx) (current lx'))"

lemma advance_Ok_iff:
  "advance lx = Ok (c, lx') \<longleftrightarrow> current lx < length (source lx) \<and> c = source lx ! current lx
     \<and> lx' = lx\<lparr>current := current lx + 1, position := next_position c (position lx)\<rparr>"
  by (auto simp: advance_def outcome_simps)

lemma advance_remaining:
  "advance lx = Ok (c, lx') \<Longrightarrow> remaining lx' < remaining lx"
  by (auto simp: advance_Ok_iff remaining_def)

lemma pos_after_simps [simp]:
  "pos_after p [] = p" "pos_after p (c # cs) = pos_after (next_position c p) cs"
  by (auto simp: pos_after_def)

lemma pos_after_append: "pos_after p (cs @ ds) = pos_after (pos_after p cs) ds"
  by (auto simp: pos_after_def)

lemma reach_refl [simp, intro]: "reach lx lx"
  by (simp add: reach_def)

lemma reach_trans [trans]: "reach a b \<Longrightarrow> reach b c \<Longrightarrow> reach a c"
  by (auto simp: reach_def slice_append pos_after_append [symmetric])

lemma reach_remaining: "reach lx lx' \<Longrightarrow> remaining lx' \<le> remaining lx"
  by (auto simp: reach_def remaining_def)

lemma advance_reach: "advance lx = Ok (c, lx') \<Longrightarrow> reach lx lx'"
  by (auto simp: advance_Ok_iff reach_def slice_Suc_take)

lemma match_char_reach: "match_char lx e = Ok (b, lx') \<Longrightarrow> reach lx lx'"
  by (auto simp: match_char_def outcome_simps split: if_splits dest: advance_reach)

section \<open>Character classes of the standard library\<close>

definition is_ascii_digit :: "uchar \<Rightarrow> bool" where
  "is_ascii_digit c \<longleftrightarrow> 48 \<le> c \<and> c \<le> 57"

definition is_whitespace :: "uchar \<Rightarrow> bool" where
  "is_whitespace c \<longleftrightarrow> (9 \<le> c \<and> c \<le> 13) \<or> c = 0x20 \<or> c = 0x85 \<or> c = 0xA0 \<or> c = 0x1680
     \<or> (0x2000 \<le> c \<and> c \<le> 0x200A) \<or> c = 0x2028 \<or> c = 0x2029 \<or> c = 0x202F \<or> c = 0x205F
     \<or> c = 0x3000"

definition is_identifier_start :: "lex_env \<Rightarrow> uchar \<Rightarrow> bool" where
  "is_identifier_start env c \<longleftrightarrow> c = asc CHR ''_'' \<or> is_xid_start env c"

definition is_identifier_continue :: "lex_env \<Rightarrow> uchar \<Rightarrow> bool" where
  "is_identifier_continue env c \<longleftrightarrow> c = asc CHR ''_'' \<or> is_xid_continue env c"

text \<open>\<^verbatim>\<open>str::parse::<u128>\<close> on a text of decimal digits.\<close>

definition dec_value :: "string \<Rightarrow> nat" where
  "dec_value s = foldl (\<lambda>n c. 10 * n + (of_char c - 48)) 0 s"

definition parse_u128 :: "string \<Rightarrow> nat option" where
  "parse_u128 s =
     (if s \<noteq> [] \<and> list_all (\<lambda>c. is_ascii_digit (of_char c)) s \<and> dec_value s \<le> U128_MAX
      then Some (dec_value s) else None)"

section \<open>Literals and identifiers\<close>

definition lex_error :: "string \<Rightarrow> position \<Rightarrow> lexer \<Rightarrow> diagnostic" where
  "lex_error m st lx = Diagnostic_new Lex m (Span_new st (position lx))"

definition invalid_number :: "lexer \<Rightarrow> string \<Rightarrow> position \<Rightarrow> string \<Rightarrow> diagnostic" where
  "invalid_number lx v st reason =
     lex_error (''invalid numeric literal `'' @ v @ ''`: '' @ reason) st lx"

function ident_loop :: "lex_env \<Rightarrow> lexer \<Rightarrow> uchar list \<Rightarrow> (diagnostic, uchar list \<times> lexer) outcome" where
  "ident_loop env lx v =
     (case peek lx of
        Some c \<Rightarrow>
          if is_identifier_continue env c
          then bindO (advance lx) (\<lambda>(c', lx'). ident_loop env lx' (v @ [c']))
          else Ok (v, lx)
      | None \<Rightarrow> Ok (v, lx))"
  by pat_completeness auto
termination
  by (relation "measure (\<lambda>(env, lx, v). remaining lx)") (auto dest: advance_remaining)

declare ident_loop.simps [simp del]

definition keyword_table :: "(string \<times> keyword) list" where
  "keyword_table =
    [(''let'', TkLet), (''var'', TkVar), (''const'', TkConst), (''fn'', TkFn),
     (''return'', TkReturn), (''if'', TkIf), (''else'', TkElse), (''match'', TkMatch),
     (''for'', TkFor), (''in'', TkIn), (''while'', TkWhile), (''loop'', TkLoop),
     (''break'', TkBreak), (''continue'', TkContinue), (''struct'', TkStruct),
     (''enum'', TkEnum), (''trait'', TkTrait), (''impl'', TkImpl), (''type'', TkType),
     (''module'', TkModule), (''use'', TkUse), (''as'', TkAs), (''pub'', TkPub),
     (''async'', TkAsync), (''await'', TkAwait), (''spawn'', TkSpawn),
     (''parallel'', TkParallel), (''move'', TkMove), (''mut'', TkMut), (''unsafe'', TkUnsafe),
     (''extern'', TkExtern), (''export'', TkExport), (''data'', TkData),
     (''transaction'', TkTransaction), (''page'', TkPage), (''component'', TkComponent),
     (''style'', TkStyle), (''state'', TkState), (''route'', TkRoute),
     (''comptime'', TkComptime), (''true'', TkTrue), (''false'', TkFalse)]"

definition identifier_kind :: "string \<Rightarrow> token_kind" where
  "identifier_kind v = (case map_of keyword_table v of Some k \<Rightarrow> TkKeyword k | None \<Rightarrow> TkIdentifier v)"

definition read_identifier ::
  "lex_env \<Rightarrow> lexer \<Rightarrow> uchar \<Rightarrow> position \<Rightarrow> (diagnostic, token_kind \<times> lexer) outcome" where
  "read_identifier env lx first st =
     bindO (ident_loop env lx [first]) (\<lambda>(v, lx1).
       let normalized = nfc env v in
       if normalized \<noteq> v
       then Err (with_help
              (lex_error (''identifier `'' @ utf8_string v @ ''` is not in Unicode NFC form'') st lx1)
              (''write the identifier as `'' @ utf8_string normalized @ ''`''))
       else Ok (identifier_kind (utf8_string v), lx1))"

function digit_run_loop ::
  "lexer \<Rightarrow> string \<Rightarrow> position \<Rightarrow> bool \<Rightarrow> (diagnostic, string \<times> lexer) outcome" where
  "digit_run_loop lx v st prev_sep =
     (case peek lx of
        None \<Rightarrow> Ok (v, lx)
      | Some c \<Rightarrow>
          if is_ascii_digit c
          then bindO (advance lx) (\<lambda>(c', lx'). digit_run_loop lx' (v @ utf8_encode c') st False)
          else if c = asc CHR ''_'' then
            (if prev_sep \<or> \<not> (case peek_next lx of Some d \<Rightarrow> is_ascii_digit d | None \<Rightarrow> False)
             then bindO (advance lx) (\<lambda>(c', lx').
               Err (invalid_number lx' (v @ utf8_encode c') st
                      ''numeric separators must appear between digits''))
             else bindO (advance lx) (\<lambda>(c', lx'). digit_run_loop lx' (v @ utf8_encode c') st True))
          else Ok (v, lx))"
  by pat_completeness auto
termination
  by (relation "measure (\<lambda>(lx, v, st, p). remaining lx)") (auto dest: advance_remaining)

declare digit_run_loop.simps [simp del]

definition read_digit_run :: "lexer \<Rightarrow> string \<Rightarrow> position \<Rightarrow> (diagnostic, string \<times> lexer) outcome" where
  "read_digit_run lx v st = digit_run_loop lx v st False"

definition next_is_digit :: "uchar option \<Rightarrow> bool" where
  "next_is_digit p = (case p of Some c \<Rightarrow> is_ascii_digit c | None \<Rightarrow> False)"

text \<open>The fraction and the exponent of a number; the boolean is the source's \<^verbatim>\<open>is_float\<close>.\<close>

definition read_fraction ::
  "lexer \<Rightarrow> string \<Rightarrow> position \<Rightarrow> (diagnostic, bool \<times> string \<times> lexer) outcome" where
  "read_fraction lx v st =
     (if peek lx = Some (asc CHR ''.'') \<and> next_is_digit (peek_next lx) then
        bindO (advance lx) (\<lambda>(dot, lx1).
        bindO (advance lx1) (\<lambda>(d, lx2).
        bindO (read_digit_run lx2 (v @ utf8_encode dot @ utf8_encode d) st) (\<lambda>(v', lx3).
          Ok (True, v', lx3))))
      else Ok (False, v, lx))"

definition read_exponent ::
  "lexer \<Rightarrow> string \<Rightarrow> position \<Rightarrow> bool \<Rightarrow> (diagnostic, bool \<times> string \<times> lexer) outcome" where
  "read_exponent lx v st is_float =
     (if peek lx = Some (asc CHR ''e'') \<or> peek lx = Some (asc CHR ''E'') then
        bindO (advance lx) (\<lambda>(e, lx1).
        bindO (if peek lx1 = Some (asc CHR ''+'') \<or> peek lx1 = Some (asc CHR ''-'')
               then bindO (advance lx1) (\<lambda>(s, lx2). Ok (v @ utf8_encode e @ utf8_encode s, lx2))
               else Ok (v @ utf8_encode e, lx1)) (\<lambda>(v1, lx2).
        if \<not> next_is_digit (peek lx2)
        then Err (invalid_number lx2 v1 st ''exponent requires digits'')
        else bindO (advance lx2) (\<lambda>(d, lx3).
             bindO (read_digit_run lx3 (v1 @ utf8_encode d) st) (\<lambda>(v2, lx4).
               Ok (True, v2, lx4)))))
      else Ok (is_float, v, lx))"

definition number_token ::
  "lex_env \<Rightarrow> lexer \<Rightarrow> string \<Rightarrow> position \<Rightarrow> bool \<Rightarrow> (diagnostic, token_kind) outcome" where
  "number_token env lx v st is_float =
     (let clean = filter (\<lambda>c. c \<noteq> CHR ''_'') v in
      if is_float
      then bindO (ok_or (parse_f64 env clean)
             (invalid_number lx v st ''floating-point value is out of range'')) (\<lambda>f. Ok (TkFloat f))
      else bindO (ok_or (parse_u128 clean)
             (invalid_number lx v st ''integer value is outside the `int` range'')) (\<lambda>n. Ok (TkInteger n)))"

definition read_number ::
  "lex_env \<Rightarrow> lexer \<Rightarrow> uchar \<Rightarrow> position \<Rightarrow> (diagnostic, token_kind \<times> lexer) outcome" where
  "read_number env lx first st =
     bindO (read_digit_run lx (utf8_encode first) st) (\<lambda>(v1, lx1).
     bindO (read_fraction lx1 v1 st) (\<lambda>(fl, v2, lx2).
     bindO (read_exponent lx2 v2 st fl) (\<lambda>(fl', v3, lx3).
     bindO (number_token env lx3 v3 st fl') (\<lambda>k. Ok (k, lx3)))))"

definition read_escape :: "lexer \<Rightarrow> position \<Rightarrow> (diagnostic, uchar \<times> lexer) outcome" where
  "read_escape lx st =
     (if is_at_end lx then Err (lex_error ''incomplete escape sequence'' st lx)
      else bindO (advance lx) (\<lambda>(c, lx').
        if c = asc CHR ''n'' then Ok (10, lx')
        else if c = asc CHR ''r'' then Ok (13, lx')
        else if c = asc CHR ''t'' then Ok (9, lx')
        else if c = asc CHR ''0'' then Ok (0, lx')
        else if c = asc CHR 0x5C then Ok (0x5C, lx')
        else if c = asc CHR 0x22 then Ok (0x22, lx')
        else if c = asc CHR 0x27 then Ok (0x27, lx')
        else Err (lex_error (''unknown escape sequence `'' @ [CHR 0x5C] @ utf8_encode c @ ''`'') st lx')))"

lemma read_escape_remaining: "read_escape lx st = Ok (c, lx') \<Longrightarrow> remaining lx' < remaining lx"
  by (auto simp: read_escape_def outcome_simps split: if_splits dest: advance_remaining)

function read_string_loop :: "lexer \<Rightarrow> string \<Rightarrow> position \<Rightarrow> (diagnostic, string \<times> lexer) outcome" where
  "read_string_loop lx v st =
     (if is_at_end lx then Err (lex_error ''unterminated string literal at end of file'' st lx)
      else bindO (advance lx) (\<lambda>(c, lx').
        if c = asc CHR 0x22 then Ok (v, lx')
        else if c = asc CHR 0x5C
          then bindO (read_escape lx' st) (\<lambda>(e, lx''). read_string_loop lx'' (v @ utf8_encode e) st)
        else if c = 10 then Err (lex_error ''unterminated string literal'' st lx')
        else read_string_loop lx' (v @ utf8_encode c) st))"
  by pat_completeness auto
termination
  by (relation "measure (\<lambda>(lx, v, st). remaining lx)")
     (auto dest!: advance_remaining read_escape_remaining)

declare read_string_loop.simps [simp del]

definition read_string :: "lexer \<Rightarrow> position \<Rightarrow> (diagnostic, string \<times> lexer) outcome" where
  "read_string lx st = read_string_loop lx [] st"

definition read_character :: "lexer \<Rightarrow> position \<Rightarrow> (diagnostic, uchar \<times> lexer) outcome" where
  "read_character lx st =
     (if is_at_end lx \<or> peek lx = Some 10
      then Err (lex_error ''unterminated character literal'' st lx)
      else bindO (if peek lx = Some (asc CHR 0x5C)
                  then bindO (advance lx) (\<lambda>(_, lx1). read_escape lx1 st)
                  else advance lx) (\<lambda>(v, lx2).
           bindO (match_char lx2 (asc CHR 0x27)) (\<lambda>(m, lx3).
             if \<not> m
             then Err (lex_error ''character literal must contain exactly one Unicode scalar value'' st lx3)
             else Ok (v, lx3))))"

section \<open>White space and comments\<close>

function line_comment_loop :: "lexer \<Rightarrow> (diagnostic, lexer) outcome" where
  "line_comment_loop lx =
     (case peek lx of
        Some c \<Rightarrow> if c \<noteq> 10 then bindO (advance lx) (\<lambda>(_, lx'). line_comment_loop lx') else Ok lx
      | None \<Rightarrow> Ok lx)"
  by pat_completeness auto
termination
  by (relation "measure remaining") (auto dest: advance_remaining)

declare line_comment_loop.simps [simp del]

definition advance2 :: "lexer \<Rightarrow> (diagnostic, lexer) outcome" where
  "advance2 lx = bindO (advance lx) (\<lambda>(_, lx1). bindO (advance lx1) (\<lambda>(_, lx2). Ok lx2))"

lemma advance2_remaining: "advance2 lx = Ok lx' \<Longrightarrow> remaining lx' < remaining lx"
  by (auto simp: advance2_def outcome_simps dest!: advance_remaining)

text \<open>The loop over a block comment: the nesting depth at its end, zero when it was closed.\<close>

function block_comment_loop :: "lexer \<Rightarrow> nat \<Rightarrow> (diagnostic, nat \<times> lexer) outcome" where
  "block_comment_loop lx depth =
     (if depth > 0 \<and> \<not> is_at_end lx then
        (if peek lx = Some (asc CHR ''/'') \<and> peek_next lx = Some (asc CHR ''*'')
         then bindO (advance2 lx) (\<lambda>lx'. block_comment_loop lx' (depth + 1))
         else if peek lx = Some (asc CHR ''*'') \<and> peek_next lx = Some (asc CHR ''/'')
         then bindO (advance2 lx) (\<lambda>lx'. block_comment_loop lx' (depth - 1))
         else bindO (advance lx) (\<lambda>(_, lx'). block_comment_loop lx' depth))
      else Ok (depth, lx))"
  by pat_completeness auto
termination
  by (relation "measure (\<lambda>(lx, d). remaining lx)")
     (auto dest!: advance_remaining advance2_remaining)

declare block_comment_loop.simps [simp del]

named_theorems lexer_steps \<open>moving forward by one method call\<close>

lemmas advance_steps [lexer_steps] =
  advance_reach reach_trans [OF advance_reach] match_char_reach reach_trans [OF match_char_reach]

lemma advance2_reach: "advance2 lx = Ok lx' \<Longrightarrow> reach lx lx'"
  by (auto simp: advance2_def outcome_simps intro: lexer_steps)

lemmas advance2_steps [lexer_steps] = advance2_reach reach_trans [OF advance2_reach]

lemma line_comment_loop_reach: "line_comment_loop lx = Ok lx' \<Longrightarrow> reach lx lx'"
proof (induction lx rule: line_comment_loop.induct)
  case (1 lx)
  then show ?case
    by (auto simp: line_comment_loop.simps [of lx] outcome_simps split: option.splits if_splits
        intro: lexer_steps)
qed

lemmas line_comment_loop_steps [lexer_steps] = line_comment_loop_reach reach_trans [OF line_comment_loop_reach]

lemma block_comment_loop_reach:
  "block_comment_loop lx d = Ok (d', lx') \<Longrightarrow> reach lx lx'"
proof (induction lx d rule: block_comment_loop.induct)
  case (1 lx d)
  then show ?case
    by (auto simp: block_comment_loop.simps [of lx d] outcome_simps split: if_splits
        intro: lexer_steps)
qed

lemmas block_comment_loop_steps [lexer_steps] = block_comment_loop_reach reach_trans [OF block_comment_loop_reach]

text \<open>
  One round of the loop of \<^verbatim>\<open>skip_whitespace_and_comments\<close>: whether it goes on, and the state.
\<close>

definition skip_round :: "lexer \<Rightarrow> (diagnostic, bool \<times> lexer) outcome" where
  "skip_round lx =
     (case peek lx of
        None \<Rightarrow> Ok (False, lx)
      | Some c \<Rightarrow>
          if is_whitespace c then bindO (advance lx) (\<lambda>(_, lx'). Ok (True, lx'))
          else if c = asc CHR ''/'' \<and> peek_next lx = Some (asc CHR ''/'')
            then bindO (advance lx) (\<lambda>(_, lx1). bindO (line_comment_loop lx1) (\<lambda>lx2. Ok (True, lx2)))
          else if c = asc CHR ''/'' \<and> peek_next lx = Some (asc CHR ''*'') then
            bindO (advance2 lx) (\<lambda>lx1.
            bindO (block_comment_loop lx1 1) (\<lambda>(depth, lx2).
              if depth \<noteq> 0 then Err (lex_error ''unterminated block comment'' (position lx) lx2)
              else Ok (True, lx2)))
          else Ok (False, lx))"

lemma skip_round_reach: "skip_round lx = Ok (b, lx') \<Longrightarrow> reach lx lx'"
  by (auto simp: skip_round_def outcome_simps split: option.splits if_splits
      intro: lexer_steps)

lemmas skip_round_steps [lexer_steps] = skip_round_reach reach_trans [OF skip_round_reach]

lemma skip_round_remaining: "skip_round lx = Ok (True, lx') \<Longrightarrow> remaining lx' < remaining lx"
  by (auto simp: skip_round_def outcome_simps split: option.splits if_splits
      dest!: advance_remaining advance2_remaining line_comment_loop_reach block_comment_loop_reach
        reach_remaining)

function skip_whitespace_and_comments :: "lexer \<Rightarrow> (diagnostic, lexer) outcome" where
  "skip_whitespace_and_comments lx =
     bindO (skip_round lx) (\<lambda>(again, lx').
       if again then skip_whitespace_and_comments lx' else Ok lx')"
  by pat_completeness auto
termination
  by (relation "measure remaining") (auto dest: skip_round_remaining)

declare skip_whitespace_and_comments.simps [simp del]

lemma skip_reach: "skip_whitespace_and_comments lx = Ok lx' \<Longrightarrow> reach lx lx'"
proof (induction lx rule: skip_whitespace_and_comments.induct)
  case (1 lx)
  then show ?case
    by (auto simp: skip_whitespace_and_comments.simps [of lx] outcome_simps split: if_splits
        intro: lexer_steps)
qed

lemmas skip_steps [lexer_steps] = skip_reach reach_trans [OF skip_reach]

lemma ident_loop_reach: "ident_loop env lx v = Ok (v', lx') \<Longrightarrow> reach lx lx'"
proof (induction env lx v rule: ident_loop.induct)
  case (1 env lx v)
  then show ?case
    by (auto simp: ident_loop.simps [of env lx v] outcome_simps split: option.splits if_splits
        intro: lexer_steps)
qed

lemmas ident_loop_steps [lexer_steps] = ident_loop_reach reach_trans [OF ident_loop_reach]

lemma digit_run_loop_reach: "digit_run_loop lx v st b = Ok (v', lx') \<Longrightarrow> reach lx lx'"
proof (induction lx v st b rule: digit_run_loop.induct)
  case (1 lx v st b)
  then show ?case
    by (auto simp: digit_run_loop.simps [of lx v st b] outcome_simps split: option.splits if_splits
        intro: lexer_steps)
qed

lemmas digit_run_loop_steps [lexer_steps] = digit_run_loop_reach reach_trans [OF digit_run_loop_reach]

lemma read_escape_reach: "read_escape lx st = Ok (c, lx') \<Longrightarrow> reach lx lx'"
  by (auto simp: read_escape_def outcome_simps split: if_splits intro: lexer_steps)

lemmas read_escape_steps [lexer_steps] = read_escape_reach reach_trans [OF read_escape_reach]

lemma read_string_loop_reach: "read_string_loop lx v st = Ok (v', lx') \<Longrightarrow> reach lx lx'"
proof (induction lx v st rule: read_string_loop.induct)
  case (1 lx v st)
  then show ?case
    by (auto simp: read_string_loop.simps [of lx v st] outcome_simps split: if_splits
        intro: reach_trans [OF advance_reach reach_trans [OF read_escape_reach]] advance_steps)
qed

lemmas read_string_loop_steps [lexer_steps] = read_string_loop_reach reach_trans [OF read_string_loop_reach]

lemma read_digit_run_reach: "read_digit_run lx v st = Ok (v', lx') \<Longrightarrow> reach lx lx'"
  by (simp add: read_digit_run_def digit_run_loop_reach)

lemma read_fraction_reach: "read_fraction lx v st = Ok (b, v', lx') \<Longrightarrow> reach lx lx'"
  by (auto simp: read_fraction_def outcome_simps split: if_splits)
     (meson advance_reach read_digit_run_reach reach_trans)

lemma read_exponent_reach: "read_exponent lx v st b = Ok (b', v', lx') \<Longrightarrow> reach lx lx'"
  by (auto simp: read_exponent_def outcome_simps split: if_splits)
     (meson advance_reach read_digit_run_reach reach_trans)+

lemma read_number_reach: "read_number env lx c st = Ok (k, lx') \<Longrightarrow> reach lx lx'"
  by (auto simp: read_number_def outcome_simps)
     (meson read_digit_run_reach read_fraction_reach read_exponent_reach reach_trans)

lemmas read_number_steps [lexer_steps] = read_number_reach reach_trans [OF read_number_reach]

lemma read_character_reach: "read_character lx st = Ok (c, lx') \<Longrightarrow> reach lx lx'"
  by (auto simp: read_character_def outcome_simps split: if_splits)
     (meson advance_reach read_escape_reach match_char_reach reach_trans)+

lemmas read_character_steps [lexer_steps] = read_character_reach reach_trans [OF read_character_reach]

lemma read_identifier_reach: "read_identifier env lx c st = Ok (k, lx') \<Longrightarrow> reach lx lx'"
  by (auto simp: read_identifier_def Let_def outcome_simps split: if_splits intro: lexer_steps)

lemmas read_identifier_steps [lexer_steps] = read_identifier_reach reach_trans [OF read_identifier_reach]

lemma read_string_reach: "read_string lx st = Ok (v, lx') \<Longrightarrow> reach lx lx'"
  by (auto simp: read_string_def intro: lexer_steps)

lemmas read_string_steps [lexer_steps] = read_string_reach reach_trans [OF read_string_reach]

section \<open>Tokens\<close>

definition single_symbols :: "(uchar \<times> symbol) list" where
  "single_symbols =
     [(asc CHR ''('', TkLeftParen), (asc CHR '')'', TkRightParen), (asc CHR ''{'', TkLeftBrace),
      (asc CHR ''}'', TkRightBrace), (asc CHR ''['', TkLeftBracket), (asc CHR '']'', TkRightBracket),
      (asc CHR '','', TkComma), (asc CHR '':'', TkColon), (asc CHR '';'', TkSemicolon),
      (asc CHR ''%'', TkPercent), (asc CHR ''^'', TkCaret), (asc CHR ''~'', TkTilde),
      (asc CHR ''?'', TkQuestion)]"

text \<open>
  The arms with one guarded character of lookahead, \<^verbatim>\<open>c => self.compound(next, combined, single)\<close>.
\<close>

definition compound_symbols :: "(uchar \<times> uchar \<times> symbol \<times> symbol) list" where
  "compound_symbols =
     [(asc CHR ''+'', asc CHR ''='', TkPlusEqual, TkPlus),
      (asc CHR ''*'', asc CHR ''='', TkStarEqual, TkStar),
      (asc CHR ''/'', asc CHR ''='', TkSlashEqual, TkSlash),
      (asc CHR ''!'', asc CHR ''='', TkBangEqual, TkBang),
      (asc CHR ''&'', asc CHR ''&'', TkAndAnd, TkAnd),
      (asc CHR ''|'', asc CHR ''|'', TkOrOr, TkOr)]"

text \<open>A guarded arm \<^verbatim>\<open>c if self.match_char(e) => k\<close> followed by the next arm for the same character.\<close>

definition match_or ::
  "lexer \<Rightarrow> uchar \<Rightarrow> symbol \<Rightarrow> (lexer \<Rightarrow> (diagnostic, token_kind \<times> lexer) outcome)
     \<Rightarrow> (diagnostic, token_kind \<times> lexer) outcome" where
  "match_or lx e k arm =
     bindO (match_char lx e) (\<lambda>(m, lx'). if m then Ok (TkSymbol k, lx') else arm lx')"

definition emit :: "symbol \<Rightarrow> lexer \<Rightarrow> (diagnostic, token_kind \<times> lexer) outcome" where
  "emit k lx = Ok (TkSymbol k, lx)"

definition compound ::
  "lexer \<Rightarrow> uchar \<Rightarrow> symbol \<Rightarrow> symbol \<Rightarrow> (diagnostic, token_kind \<times> lexer) outcome" where
  "compound lx nxt combined single = match_or lx nxt combined (emit single)"

text \<open>The \<^verbatim>\<open>match character\<close> of \<^verbatim>\<open>tokenize\<close>, after \<^verbatim>\<open>character\<close> has been consumed.\<close>

definition lex_kind ::
  "lex_env \<Rightarrow> uchar \<Rightarrow> position \<Rightarrow> lexer \<Rightarrow> (diagnostic, token_kind \<times> lexer) outcome" where
  "lex_kind env c st lx =
     (case map_of single_symbols c of Some k \<Rightarrow> emit k lx | None \<Rightarrow>
     (case map_of compound_symbols c of Some (nxt, comb, single) \<Rightarrow> compound lx nxt comb single | None \<Rightarrow>
      if c = asc CHR ''-'' then
        match_or lx (asc CHR ''>'') TkArrow (\<lambda>lx1. compound lx1 (asc CHR ''='') TkMinusEqual TkMinus)
      else if c = asc CHR ''='' then
        match_or lx (asc CHR ''>'') TkFatArrow (\<lambda>lx1. compound lx1 (asc CHR ''='') TkEqualEqual TkEqual)
      else if c = asc CHR ''<'' then
        match_or lx (asc CHR ''='') TkLessEqual (\<lambda>lx1. match_or lx1 (asc CHR ''<'') TkShiftLeft (emit TkLess))
      else if c = asc CHR ''>'' then
        match_or lx (asc CHR ''='') TkGreaterEqual (\<lambda>lx1. match_or lx1 (asc CHR ''>'') TkShiftRight (emit TkGreater))
      else if c = asc CHR ''.'' then
        bindO (match_char lx (asc CHR ''.'')) (\<lambda>(m, lx1).
          if m then compound lx1 (asc CHR ''='') TkRangeInclusive TkRange else emit TkDot lx1)
      else if c = asc CHR 0x22 then
        bindO (read_string lx st) (\<lambda>(v, lx1). Ok (TkString v, lx1))
      else if c = asc CHR 0x27 then
        bindO (read_character lx st) (\<lambda>(v, lx1). Ok (TkCharacter v, lx1))
      else if is_ascii_digit c then read_number env lx c st
      else if is_identifier_start env c then read_identifier env lx c st
      else Err (lex_error (''unexpected character `'' @ utf8_encode c @ ''`'') st lx)))"

definition lex_token :: "lex_env \<Rightarrow> lexer \<Rightarrow> (diagnostic, token \<times> lexer) outcome" where
  "lex_token env lx =
     bindO (advance lx) (\<lambda>(c, lx1).
     bindO (lex_kind env c (position lx) lx1) (\<lambda>(k, lx2).
       Ok (\<lparr>token_kind = k, token_span = Span_new (position lx) (position lx2)\<rparr>, lx2)))"

lemma match_or_reach:
  "match_or lx e k arm = Ok (t, lx') \<Longrightarrow> (\<And>l. arm l = Ok (t, lx') \<Longrightarrow> reach l lx') \<Longrightarrow> reach lx lx'"
  by (auto simp: match_or_def outcome_simps split: if_splits intro: lexer_steps)

lemma emit_reach: "emit k lx = Ok (t, lx') \<Longrightarrow> reach lx lx'"
  by (simp add: emit_def)

lemma compound_reach: "compound lx n a b = Ok (t, lx') \<Longrightarrow> reach lx lx'"
  by (auto simp: compound_def dest: emit_reach elim!: match_or_reach)

lemma lex_kind_reach:
  assumes "lex_kind env c st lx = Ok (k, lx')"
  shows "reach lx lx'"
  using assms
  by (auto simp: lex_kind_def outcome_simps split: option.splits if_splits
      elim!: match_or_reach
      dest!: emit_reach compound_reach read_string_reach read_character_reach read_number_reach
        read_identifier_reach match_char_reach intro: reach_trans)

lemma lex_token_reach:
  assumes "lex_token env lx = Ok (t, lx')"
  shows "reach lx lx'" and "current lx < current lx'" and "remaining lx' < remaining lx"
    and "token_span t = Span_new (position lx) (position lx')"
proof -
  from assms obtain c lx1 k where adv: "advance lx = Ok (c, lx1)"
    and kind: "lex_kind env c (position lx) lx1 = Ok (k, lx')"
    and t: "t = \<lparr>token_kind = k, token_span = Span_new (position lx) (position lx')\<rparr>"
    by (auto simp: lex_token_def outcome_simps)
  from kind have r: "reach lx1 lx'" by (rule lex_kind_reach)
  with adv show "reach lx lx'" by (blast intro: advance_steps)
  show "current lx < current lx'" using adv r by (auto simp: advance_Ok_iff reach_def)
  show "remaining lx' < remaining lx" using advance_remaining [OF adv] reach_remaining [OF r] by simp
  show "token_span t = Span_new (position lx) (position lx')" by (simp add: t)
qed

function tokenize_loop ::
  "lex_env \<Rightarrow> lexer \<Rightarrow> token list \<Rightarrow> (diagnostic, token list \<times> lexer) outcome" where
  "tokenize_loop env lx ts =
     (if is_at_end lx then Ok (ts, lx)
      else bindO (skip_whitespace_and_comments lx) (\<lambda>lx1.
        if is_at_end lx1 then Ok (ts, lx1)
        else bindO (lex_token env lx1) (\<lambda>(t, lx2). tokenize_loop env lx2 (ts @ [t]))))"
  by pat_completeness auto
termination
  by (relation "measure (\<lambda>(env, lx, ts). remaining lx)")
     (auto dest!: lex_token_reach(3) skip_reach reach_remaining)

declare tokenize_loop.simps [simp del]

definition tokenize :: "lex_env \<Rightarrow> lexer \<Rightarrow> (diagnostic, token list) outcome" where
  "tokenize env lx =
     bindO (tokenize_loop env lx []) (\<lambda>(ts, lx').
       Ok (ts @ [\<lparr>token_kind = TkEof, token_span = Span_new (position lx') (position lx')\<rparr>]))"

end
