(* ===== verification/Lexer_Correct.thy ===== *)
theory Lexer_Correct
  imports Lexer
begin

text \<open>
  Correctness of the lexer of src/compiler/src/lexer.rs.

  The methods never reach a panicking index expression; what a successful run consumed is a
  tiling of the source by trivia (white space and properly nested comments) and by the texts of
  the tokens, in order; string and integer literals are read back as the values they denote; and
  words are split into keywords and identifiers.
\<close>

section \<open>No panic\<close>

lemma peek_simps: "peek lx = Some c \<Longrightarrow> \<not> is_at_end lx" "\<not> is_at_end lx \<Longrightarrow> \<exists>c. peek lx = Some c"
  by (auto simp: peek_def is_at_end_def split: if_splits)

lemma advance_np: "\<not> is_at_end lx \<Longrightarrow> no_panic (advance lx)"
  by (simp add: advance_def is_at_end_def index_at_def)

lemma advance_peek: "advance lx = Ok (c, lx') \<Longrightarrow> peek lx' = peek_next lx"
  by (auto simp: advance_Ok_iff peek_def peek_next_def)

lemma peek_next_at_end: "peek_next lx = Some c \<Longrightarrow> \<not> is_at_end lx"
  by (auto simp: peek_next_def is_at_end_def split: if_splits)

lemma advance_next:
  "advance lx = Ok (c, lx') \<Longrightarrow> peek_next lx = Some d \<Longrightarrow> \<not> is_at_end lx'"
  by (auto simp: advance_Ok_iff peek_next_def is_at_end_def split: if_splits)

lemma match_char_np: "no_panic (match_char lx e)"
  by (auto simp: match_char_def intro!: no_panic_bindO advance_np dest: peek_simps)

lemma advance2_np: "peek_next lx = Some c \<Longrightarrow> no_panic (advance2 lx)"
  by (auto simp: advance2_def intro!: no_panic_bindO advance_np dest: peek_next_at_end advance_next)

lemma ident_loop_np: "no_panic (ident_loop env lx v)"
proof (induction env lx v rule: ident_loop.induct)
  case (1 env lx v)
  then show ?case
    by (subst ident_loop.simps)
       (auto split: option.splits intro!: no_panic_bindO advance_np dest: peek_simps)
qed

lemma digit_run_loop_np: "no_panic (digit_run_loop lx v st b)"
proof (induction lx v st b rule: digit_run_loop.induct)
  case (1 lx v st b)
  then show ?case
    by (subst digit_run_loop.simps)
       (auto split: option.splits intro!: no_panic_bindO advance_np dest: peek_simps)
qed

lemma read_escape_np: "no_panic (read_escape lx st)"
  by (auto simp: read_escape_def intro!: no_panic_bindO advance_np)

lemma read_string_loop_np: "no_panic (read_string_loop lx v st)"
proof (induction lx v st rule: read_string_loop.induct)
  case (1 lx v st)
  then show ?case
    by (subst read_string_loop.simps) (auto intro!: no_panic_bindO advance_np read_escape_np)
qed

lemma line_comment_loop_np: "no_panic (line_comment_loop lx)"
proof (induction lx rule: line_comment_loop.induct)
  case (1 lx)
  then show ?case
    by (subst line_comment_loop.simps)
       (auto split: option.splits intro!: no_panic_bindO advance_np dest: peek_simps)
qed

lemma block_comment_loop_np: "no_panic (block_comment_loop lx d)"
proof (induction lx d rule: block_comment_loop.induct)
  case (1 lx d)
  then show ?case
    by (subst block_comment_loop.simps) (auto intro!: no_panic_bindO advance_np advance2_np)
qed

lemma skip_round_np: "no_panic (skip_round lx)"
  by (auto simp: skip_round_def split: option.splits
      intro!: no_panic_bindO advance_np advance2_np line_comment_loop_np block_comment_loop_np
      dest: peek_simps)

lemma skip_np: "no_panic (skip_whitespace_and_comments lx)"
proof (induction lx rule: skip_whitespace_and_comments.induct)
  case (1 lx)
  then show ?case
    by (subst skip_whitespace_and_comments.simps) (auto intro!: no_panic_bindO skip_round_np)
qed

lemma read_character_np: "no_panic (read_character lx st)"
  by (auto simp: read_character_def intro!: no_panic_bindO advance_np read_escape_np match_char_np)

lemma next_is_digit_at_end: "next_is_digit (peek lx) \<Longrightarrow> \<not> is_at_end lx"
  by (auto simp: next_is_digit_def split: option.splits dest: peek_simps)

lemma read_number_np: "no_panic (read_number env lx c st)"
proof -
  have f: "no_panic (read_fraction l v st)" for l v
    by (auto simp: read_fraction_def read_digit_run_def
next_is_digit_def split: option.splits
        intro!: no_panic_bindO advance_np digit_run_loop_np
        dest: peek_next_at_end advance_next)
  have e: "no_panic (read_exponent l v st b)" for l v b
    by (auto simp: read_exponent_def read_digit_run_def
        intro!: no_panic_bindO advance_np digit_run_loop_np dest: peek_simps next_is_digit_at_end)
  show ?thesis
    by (auto simp: read_number_def number_token_def read_digit_run_def Let_def
        intro!: no_panic_bindO f e digit_run_loop_np)
qed

lemma match_or_np: "(\<And>l. no_panic (arm l)) \<Longrightarrow> no_panic (match_or lx e k arm)"
  by (auto simp: match_or_def intro!: no_panic_bindO match_char_np)

lemma emit_np: "no_panic (emit k lx)"
  by (simp add: emit_def)

lemma compound_np: "no_panic (compound lx n a b)"
  by (simp add: compound_def match_or_np emit_np)

lemma read_identifier_np: "no_panic (read_identifier env lx c st)"
  by (auto simp: read_identifier_def Let_def intro!: no_panic_bindO ident_loop_np)

lemma no_panic_bind_pair:
  "no_panic m \<Longrightarrow> (\<And>x y. no_panic (f x y)) \<Longrightarrow> no_panic (bindO m (\<lambda>(x, y). f x y))"
  by (auto intro!: no_panic_bindO)

lemma lex_kind_np: "no_panic (lex_kind env c st lx)"
proof (cases "map_of single_symbols c"; cases "map_of compound_symbols c")
  assume "map_of single_symbols c = None" and "map_of compound_symbols c = None"
  then show ?thesis
    by (simp only: lex_kind_def read_string_def option.case)
      (intro no_panic_if match_or_np compound_np emit_np no_panic_bind_pair match_char_np
        read_string_loop_np read_character_np read_number_np read_identifier_np no_panic_simps)
qed (simp_all add: lex_kind_def emit_np compound_np split: prod.split)

lemma tokenize_loop_np: "no_panic (tokenize_loop env lx ts)"
proof (induction env lx ts rule: tokenize_loop.induct)
  case (1 env lx ts)
  then show ?case
    by (subst tokenize_loop.simps)
       (auto simp: lex_token_def intro!: no_panic_bindO skip_np advance_np lex_kind_np)
qed

section \<open>What a method consumes\<close>

definition consumed :: "lexer \<Rightarrow> lexer \<Rightarrow> uchar list" where
  "consumed lx lx' = slice (source lx) (current lx) (current lx')"

definition rest :: "lexer \<Rightarrow> uchar list" where
  "rest lx = drop (current lx) (source lx)"

lemma consumed_append:
  "reach a b \<Longrightarrow> reach b c \<Longrightarrow> consumed a c = consumed a b @ consumed b c"
  by (simp add: consumed_def reach_def slice_append)

lemma consumed_self [simp]: "consumed lx lx = []"
  by (simp add: consumed_def)

lemma reach_position: "reach lx lx' \<Longrightarrow> position lx' = pos_after (position lx) (consumed lx lx')"
  by (simp add: reach_def consumed_def)

lemma rest_consumed: "reach lx lx' \<Longrightarrow> rest lx = consumed lx lx' @ rest lx'"
proof -
  assume r: "reach lx lx'"
  have "rest lx = take (current lx' - current lx) (rest lx) @ drop (current lx' - current lx) (rest lx)"
    by simp
  with r show ?thesis by (simp add: rest_def consumed_def slice_def reach_def)
qed

lemma peek_rest: "peek lx = (case rest lx of [] \<Rightarrow> None | c # _ \<Rightarrow> Some c)"
  by (auto simp: peek_def rest_def Cons_nth_drop_Suc [symmetric] split: list.splits)

lemma peek_next_rest: "peek_next lx = (case rest lx of c # d # _ \<Rightarrow> Some d | _ \<Rightarrow> None)"
proof (cases "current lx + 1 < length (source lx)")
  case True
  then have "rest lx = source lx ! current lx # source lx ! (current lx + 1) # drop (current lx + 2) (source lx)"
    by (simp add: rest_def Cons_nth_drop_Suc)
  with True show ?thesis by (simp add: peek_next_def)
next
  case False
  then have "length (rest lx) \<le> 1" by (simp add: rest_def)
  with False show ?thesis by (auto simp: peek_next_def split: list.splits)
qed

lemma is_at_end_rest: "is_at_end lx \<longleftrightarrow> rest lx = []"
  by (simp add: is_at_end_def rest_def)

lemma advance_rest: "advance lx = Ok (c, lx') \<Longrightarrow> rest lx = c # rest lx' \<and> consumed lx lx' = [c]"
  by (auto simp: advance_Ok_iff rest_def consumed_def slice_Suc_take Cons_nth_drop_Suc)

lemma advance_rest_Cons:
  "rest lx = c # r \<Longrightarrow> \<exists>lx'. advance lx = Ok (c, lx') \<and> rest lx' = r"
proof -
  assume r: "rest lx = c # r"
  then have "current lx < length (source lx)" by (metis drop_eq_Nil leI list.distinct(1) rest_def)
  then have "\<exists>d lx'. advance lx = Ok (d, lx')" by (simp add: advance_Ok_iff)
  then show ?thesis using r advance_rest by fastforce
qed

section \<open>Trivia\<close>

text \<open>A block comment as its text: \<open>closes d cs\<close> when \<open>cs\<close> closes \<open>d\<close> open comments exactly at its end.\<close>

fun closes :: "nat \<Rightarrow> uchar list \<Rightarrow> bool" where
  "closes 0 cs = (cs = [])"
| "closes (Suc d) [] = False"
| "closes (Suc d) [c] = False"
| "closes (Suc d) (a # b # r) =
     (if a = asc CHR ''/'' \<and> b = asc CHR ''*'' then closes (Suc (Suc d)) r
      else if a = asc CHR ''*'' \<and> b = asc CHR ''/'' then closes d r
      else closes (Suc d) (b # r))"

inductive trivia :: "uchar list \<Rightarrow> bool" where
  trivia_nil: "trivia []"
| trivia_space: "is_whitespace c \<Longrightarrow> trivia t \<Longrightarrow> trivia (c # t)"
| trivia_line: "list_all (\<lambda>c. c \<noteq> 10) cs \<Longrightarrow> trivia t \<Longrightarrow>
     trivia (asc CHR ''/'' # asc CHR ''/'' # cs @ t)"
| trivia_block: "closes 1 cs \<Longrightarrow> trivia t \<Longrightarrow> trivia (asc CHR ''/'' # asc CHR ''*'' # cs @ t)"

lemma line_comment_loop_consumed:
  "line_comment_loop lx = Ok lx' \<Longrightarrow> list_all (\<lambda>c. c \<noteq> 10) (consumed lx lx')"
proof (induction lx rule: line_comment_loop.induct)
  case (1 lx)
  show ?case
  proof (cases "\<exists>c. peek lx = Some c \<and> c \<noteq> 10")
    case True
    then obtain c where c: "peek lx = Some c" "c \<noteq> 10" by auto
    with "1.prems" obtain d lx1 where a: "advance lx = Ok (d, lx1)" and l: "line_comment_loop lx1 = Ok lx'"
      by (auto simp: line_comment_loop.simps [of lx] outcome_simps)
    have "d = c" using c advance_rest [OF a] by (simp add: peek_rest)
    moreover have "consumed lx lx' = [d] @ consumed lx1 lx'"
      using consumed_append [OF advance_reach [OF a] line_comment_loop_reach [OF l]] advance_rest [OF a] by simp
    ultimately show ?thesis using "1.IH" [OF c(1) c(2) a refl l] c(2) by simp
  next
    case False
    then have "lx' = lx" using "1.prems"
      by (auto simp: line_comment_loop.simps [of lx] split: option.splits)
    then show ?thesis by simp
  qed
qed

lemma advance2_rest:
  assumes "advance2 lx = Ok lx'"
  shows "\<exists>a b. consumed lx lx' = [a, b] \<and> rest lx = a # b # rest lx'"
proof -
  from assms obtain a b lx1 where a: "advance lx = Ok (a, lx1)" and b: "advance lx1 = Ok (b, lx')"
    by (auto simp: advance2_def outcome_simps)
  show ?thesis
    using advance_rest [OF a] advance_rest [OF b]
      consumed_append [OF advance_reach [OF a] advance_reach [OF b]] by simp
qed

lemma block_comment_loop_closes:
  "block_comment_loop lx d = Ok (0, lx') \<Longrightarrow> closes d (consumed lx lx')"
proof (induction lx d rule: block_comment_loop.induct)
  case (1 lx d)
  show ?case
  proof (cases "d > 0 \<and> \<not> is_at_end lx")
    case False
    then have "d = 0 \<and> lx' = lx" using "1.prems" by (auto simp: block_comment_loop.simps [of lx d])
    then show ?thesis by simp
  next
    case True
    then obtain e where d: "d = Suc e" by (cases d) auto
    consider
        (inner) lx1 where "peek lx = Some 47" "peek_next lx = Some 42" "advance2 lx = Ok lx1"
          "block_comment_loop lx1 (d + 1) = Ok (0, lx')"
      | (close) lx1 where "peek lx = Some 42" "peek_next lx = Some 47" "advance2 lx = Ok lx1"
          "block_comment_loop lx1 (d - 1) = Ok (0, lx')"
      | (other) c lx1 where "\<not> (peek lx = Some 47 \<and> peek_next lx = Some 42)"
          "\<not> (peek lx = Some 42 \<and> peek_next lx = Some 47)" "advance lx = Ok (c, lx1)"
          "block_comment_loop lx1 d = Ok (0, lx')"
      using "1.prems" True
      by (auto simp: block_comment_loop.simps [of lx d] outcome_simps split: if_splits)
    then show ?thesis
    proof cases
      case inner
      then obtain a b where ab: "consumed lx lx1 = [a, b]" "rest lx = a # b # rest lx1"
        using advance2_rest by blast
      have "consumed lx lx' = a # b # consumed lx1 lx'"
        using consumed_append [OF advance2_reach [OF inner(3)] block_comment_loop_reach [OF inner(4)]] ab by simp
      moreover have "a = 47" "b = 42" using inner(1,2) ab by (auto simp: peek_rest peek_next_rest)
      moreover have "closes (d + 1) (consumed lx1 lx')"
        using "1.IH"(1) [OF True _ inner(3,4)] inner(1,2) by simp
      ultimately show ?thesis by (simp add: d)
    next
      case close
      then obtain a b where ab: "consumed lx lx1 = [a, b]" "rest lx = a # b # rest lx1"
        using advance2_rest by blast
      have "consumed lx lx' = a # b # consumed lx1 lx'"
        using consumed_append [OF advance2_reach [OF close(3)] block_comment_loop_reach [OF close(4)]] ab by simp
      moreover have "a = 42" "b = 47" using close(1,2) ab by (auto simp: peek_rest peek_next_rest)
      moreover have "closes (d - 1) (consumed lx1 lx')"
        using "1.IH"(2) [OF True _ _ close(3,4)] close(1,2) by simp
      ultimately show ?thesis by (simp add: d)
    next
      case other
      note adv = advance_rest [OF other(3)]
      have app: "consumed lx lx' = c # consumed lx1 lx'"
        using consumed_append [OF advance_reach [OF other(3)] block_comment_loop_reach [OF other(4)]] adv by simp
      have IH: "closes d (consumed lx1 lx')"
        using "1.IH"(3) [OF True _ _ other(3) refl other(4)] other(1,2) by auto
      then obtain b r where br: "consumed lx1 lx' = b # r" by (cases "consumed lx1 lx'") (auto simp: d)
      have "rest lx1 = b # r @ rest lx'"
        using rest_consumed [OF block_comment_loop_reach [OF other(4)]] br by simp
      then have "\<not> (c = 47 \<and> b = 42)" "\<not> (c = 42 \<and> b = 47)"
        using other(1,2) adv by (auto simp: peek_rest peek_next_rest)
      then show ?thesis using IH app br by (auto simp: d)
    qed
  qed
qed

lemma line_comment_loop_first:
  assumes l: "line_comment_loop lx = Ok lx'" and r: "rest lx = c # r" and "c \<noteq> 10"
  shows "\<exists>cs. consumed lx lx' = c # cs \<and> list_all (\<lambda>c. c \<noteq> 10) cs"
proof -
  obtain lx1 where a: "advance lx = Ok (c, lx1)" using advance_rest_Cons [OF r] by blast
  with assms have l1: "line_comment_loop lx1 = Ok lx'"
    by (auto simp: line_comment_loop.simps [of lx] peek_rest)
  have "consumed lx lx' = c # consumed lx1 lx'"
    using consumed_append [OF advance_reach [OF a] line_comment_loop_reach [OF l1]] advance_rest [OF a] by simp
  then show ?thesis using line_comment_loop_consumed [OF l1] by auto
qed

lemma skip_round_trivia:
  assumes s: "skip_round lx = Ok (True, lx')" and t: "trivia t"
  shows "trivia (consumed lx lx' @ t)"
proof -
  consider
      (space) c where "is_whitespace c" "advance lx = Ok (c, lx')"
    | (line) lx1 where "peek lx = Some 47" "peek_next lx = Some 47" "advance lx = Ok (47, lx1)"
        "line_comment_loop lx1 = Ok lx'"
    | (block) lx1 where "peek lx = Some 47" "peek_next lx = Some 42" "advance2 lx = Ok lx1"
        "block_comment_loop lx1 1 = Ok (0, lx')"
    using s
    by (auto simp: skip_round_def outcome_simps peek_rest split: option.splits if_splits list.splits
        dest: advance_rest)
  then show ?thesis
  proof cases
    case space
    then show ?thesis using t advance_rest [OF space(2)] by (simp add: trivia_space)
  next
    case line
    have "rest lx = 47 # rest lx1" using advance_rest [OF line(3)] by simp
    with line(2) obtain r where r: "rest lx1 = 47 # r"
      by (auto simp: peek_next_rest split: list.splits)
    obtain cs where cs: "consumed lx1 lx' = 47 # cs" "list_all (\<lambda>c. c \<noteq> 10) cs"
      using line_comment_loop_first [OF line(4) r] by auto
    have "consumed lx lx' = 47 # 47 # cs"
      using consumed_append [OF advance_reach [OF line(3)] line_comment_loop_reach [OF line(4)]]
        advance_rest [OF line(3)] cs by simp
    then show ?thesis using trivia_line [OF cs(2) t] by simp
  next
    case block
    obtain a b where ab: "consumed lx lx1 = [a, b]" "rest lx = a # b # rest lx1"
      using advance2_rest [OF block(3)] by blast
    then have "a = 47" "b = 42" using block(1,2) by (auto simp: peek_rest peek_next_rest)
    moreover have "consumed lx lx' = a # b # consumed lx1 lx'"
      using consumed_append [OF advance2_reach [OF block(3)] block_comment_loop_reach [OF block(4)]] ab by simp
    ultimately show ?thesis
      using trivia_block [OF block_comment_loop_closes [OF block(4)] t] by simp
  qed
qed

lemma skip_round_False: "skip_round lx = Ok (False, lx') \<Longrightarrow> lx' = lx"
  by (auto simp: skip_round_def outcome_simps split: option.splits if_splits)

lemma skip_trivia:
  "skip_whitespace_and_comments lx = Ok lx' \<Longrightarrow> trivia (consumed lx lx')"
proof (induction lx rule: skip_whitespace_and_comments.induct)
  case (1 lx)
  obtain b lx1 where s: "skip_round lx = Ok (b, lx1)"
    and r: "if b then skip_whitespace_and_comments lx1 = Ok lx' else lx' = lx1"
    using "1.prems" by (auto simp: skip_whitespace_and_comments.simps [of lx] outcome_simps split: if_splits)
  show ?case
  proof (cases b)
    case True
    then have l1: "skip_whitespace_and_comments lx1 = Ok lx'" using r by simp
    have "trivia (consumed lx1 lx')" using "1.IH" [OF s refl _ l1] True by simp
    then have "trivia (consumed lx lx1 @ consumed lx1 lx')" using skip_round_trivia [of lx lx1] s True by simp
    then show ?thesis using consumed_append [OF skip_round_reach [OF s] skip_reach [OF l1]] by simp
  next
    case False
    then have "lx' = lx" using r s skip_round_False by simp
    then show ?thesis by (simp add: trivia_nil)
  qed
qed

section \<open>Tiling\<close>

inductive tiles :: "position \<Rightarrow> uchar list \<Rightarrow> token list \<Rightarrow> bool" where
  tiles_end: "trivia t \<Longrightarrow> tiles p t []"
| tiles_token: "trivia t \<Longrightarrow> x \<noteq> [] \<Longrightarrow> token_kind k \<noteq> TkEof \<Longrightarrow>
     token_span k = Span_new (pos_after p t) (pos_after p (t @ x)) \<Longrightarrow>
     tiles (pos_after p (t @ x)) r ks \<Longrightarrow> tiles p (t @ x @ r) (k # ks)"

lemma identifier_kind_not_Eof: "identifier_kind v \<noteq> TkEof"
  by (simp add: identifier_kind_def split: option.split)

lemma lex_kind_not_Eof: "lex_kind env c st lx = Ok (k, lx') \<Longrightarrow> k \<noteq> TkEof"
  by (auto simp: lex_kind_def emit_def compound_def match_or_def read_number_def number_token_def
      read_identifier_def identifier_kind_not_Eof Let_def outcome_simps
      split: option.splits if_splits)

lemma lex_token_consumed:
  assumes "lex_token env lx = Ok (t, lx')"
  shows "consumed lx lx' \<noteq> []" and "token_kind t \<noteq> TkEof"
proof -
  from assms obtain c lx1 k where adv: "advance lx = Ok (c, lx1)"
    and kind: "lex_kind env c (position lx) lx1 = Ok (k, lx')"
    and t: "t = \<lparr>token_kind = k, token_span = Span_new (position lx) (position lx')\<rparr>"
    by (auto simp: lex_token_def outcome_simps)
  show "consumed lx lx' \<noteq> []"
    using consumed_append [OF advance_reach [OF adv] lex_kind_reach [OF kind]] advance_rest [OF adv] by simp
  show "token_kind t \<noteq> TkEof" using lex_kind_not_Eof [OF kind] t by simp
qed

lemma tokenize_loop_tiles:
  assumes "tokenize_loop env lx ts = Ok (ts', lx')"
  shows "reach lx lx' \<and> rest lx' = [] \<and> (\<exists>us. ts' = ts @ us \<and> tiles (position lx) (rest lx) us)"
  using assms
proof (induction env lx ts rule: tokenize_loop.induct)
  case (1 env lx ts)
  consider
      (at_end) "rest lx = []" "ts' = ts" "lx' = lx"
    | (skipped) "\<not> is_at_end lx" "skip_whitespace_and_comments lx = Ok lx'" "rest lx' = []" "ts' = ts"
    | (token) lx1 t lx2 where "\<not> is_at_end lx" "skip_whitespace_and_comments lx = Ok lx1"
        "\<not> is_at_end lx1" "lex_token env lx1 = Ok (t, lx2)"
        "tokenize_loop env lx2 (ts @ [t]) = Ok (ts', lx')"
    using "1.prems"
    by (auto simp: tokenize_loop.simps [of env lx ts] outcome_simps is_at_end_rest split: if_splits)
  then show ?case
  proof cases
    case at_end
    then show ?thesis by (auto intro: tiles_end trivia_nil)
  next
    case skipped
    have "rest lx = consumed lx lx'"
      using rest_consumed [OF skip_reach [OF skipped(2)]] skipped(3) by simp
    then show ?thesis using skipped skip_reach skip_trivia by (auto intro: tiles_end)
  next
    case token
    note sr = skip_reach [OF token(2)] and tr = lex_token_reach [OF token(4)]
    from "1.IH" [OF token(1,2,3,4) refl token(5)] obtain us
      where IH: "reach lx2 lx'" "rest lx' = []" "ts' = (ts @ [t]) @ us" "tiles (position lx2) (rest lx2) us"
      by blast
    have pos: "position lx2 = pos_after (position lx) (consumed lx lx1 @ consumed lx1 lx2)"
      using reach_position [OF sr] reach_position [OF tr(1)] by (simp add: pos_after_append)
    have "tiles (position lx) (consumed lx lx1 @ consumed lx1 lx2 @ rest lx2) (t # us)"
    proof (rule tiles_token)
      show "trivia (consumed lx lx1)" using skip_trivia [OF token(2)] .
      show "consumed lx1 lx2 \<noteq> []" "token_kind t \<noteq> TkEof" using lex_token_consumed [OF token(4)] .
      show "token_span t = Span_new (pos_after (position lx) (consumed lx lx1))
          (pos_after (position lx) (consumed lx lx1 @ consumed lx1 lx2))"
        using tr(4) reach_position [OF sr] pos by simp
      show "tiles (pos_after (position lx) (consumed lx lx1 @ consumed lx1 lx2)) (rest lx2) us"
        using IH(4) pos by simp
    qed
    moreover have "rest lx = consumed lx lx1 @ consumed lx1 lx2 @ rest lx2"
      using rest_consumed [OF sr] rest_consumed [OF tr(1)] by simp
    moreover have "reach lx lx'" using sr tr(1) IH(1) by (blast intro: reach_trans)
    ultimately show ?thesis using IH(2,3) by auto
  qed
qed

lemma tokenize_tiling:
  assumes "tokenize env (with_start_line src l) = Ok toks"
  shows "\<exists>ts. toks = ts @ [\<lparr>token_kind = TkEof, token_span =
             Span_new (pos_after (Position l 1) src) (pos_after (Position l 1) src)\<rparr>]
           \<and> tiles (Position l 1) src ts"
proof -
  let ?lx = "with_start_line src l"
  from assms obtain ts lx' where loop: "tokenize_loop env ?lx [] = Ok (ts, lx')"
    and toks: "toks = ts @ [\<lparr>token_kind = TkEof, token_span = Span_new (position lx') (position lx')\<rparr>]"
    by (auto simp: tokenize_def outcome_simps)
  have init: "rest ?lx = src" "position ?lx = Position l 1" by (simp_all add: with_start_line_def rest_def)
  from tokenize_loop_tiles [OF loop] have r: "reach ?lx lx'" "rest lx' = []" "tiles (Position l 1) src ts"
    using init by auto
  have "consumed ?lx lx' = src" using rest_consumed [OF r(1)] r(2) init by simp
  then have "position lx' = pos_after (Position l 1) src" using reach_position [OF r(1)] init by simp
  then show ?thesis using toks r(3) by auto
qed

section \<open>Order of spans\<close>

fun spans_ordered :: "position \<Rightarrow> token list \<Rightarrow> bool" where
  "spans_ordered p [] = True"
| "spans_ordered p (t # ts) =
     (pos_le p (span_start (token_span t)) \<and> pos_less (span_start (token_span t)) (span_end (token_span t))
      \<and> spans_ordered (span_end (token_span t)) ts)"

lemma pos_after_less: "cs \<noteq> [] \<Longrightarrow> pos_less p (pos_after p cs)"
proof (induction cs arbitrary: p)
  case (Cons c cs)
  have step: "pos_less p (next_position c p)" by (simp add: next_position_def pos_less_def)
  show ?case
  proof (cases cs)
    case (Cons d ds)
    then have "pos_less (next_position c p) (pos_after (next_position c p) cs)" using Cons.IH by simp
    then show ?thesis using pos_less_le_trans [OF step pos_less_imp_le] by simp
  qed (use step in simp)
qed simp

lemma pos_after_le: "pos_le p (pos_after p cs)"
  using pos_after_less [of cs p] by (cases "cs = []") (auto intro: pos_less_imp_le)

lemma tiles_ordered: "tiles p cs ts \<Longrightarrow> spans_ordered p ts"
proof (induction rule: tiles.induct)
  case (tiles_token t x k p r ks)
  then show ?case
    by (auto simp: Span_new_def pos_after_append pos_after_le pos_after_less)
qed simp

section \<open>Reading literals back\<close>

text \<open>A string literal for a text: line breaks, quotes and backslashes escaped, between quotes.\<close>

definition escape_char :: "uchar \<Rightarrow> uchar list" where
  "escape_char c =
     (if c = 10 then [0x5C, asc CHR ''n''] else if c = 0x22 then [0x5C, 0x22]
      else if c = 0x5C then [0x5C, 0x5C] else [c])"

definition string_literal :: "uchar list \<Rightarrow> uchar list" where
  "string_literal cs = 0x22 # concat (map escape_char cs) @ [0x22]"

lemma read_escape_rest:
  assumes "rest lx = e # r"
    and "(e, c) \<in> {(110, 10), (0x5C, 0x5C), (0x22, 0x22)}"
  shows "\<exists>lx'. read_escape lx st = Ok (c, lx') \<and> rest lx' = r"
proof -
  obtain lx1 where a: "advance lx = Ok (e, lx1)" "rest lx1 = r" using advance_rest_Cons [OF assms(1)] by blast
  have "\<not> is_at_end lx" using assms(1) by (simp add: is_at_end_rest)
  with a assms(2) show ?thesis by (auto simp: read_escape_def)
qed

lemma read_string_step:
  assumes r: "rest lx = escape_char c @ r"
  shows "\<exists>lx'. rest lx' = r \<and> read_string_loop lx v st = read_string_loop lx' (v @ utf8_encode c) st"
proof -
  have ne: "\<not> is_at_end lx" using r by (auto simp: is_at_end_rest escape_char_def)
  consider (plain) "rest lx = c # r" "c \<noteq> 10" "c \<noteq> 0x22" "c \<noteq> 0x5C"
    | (esc) e where "rest lx = 0x5C # e # r" "(e, c) \<in> {(110, 10), (0x5C, 0x5C), (0x22, 0x22)}"
    using r by (auto simp: escape_char_def split: if_splits)
  then show ?thesis
  proof cases
    case plain
    obtain lx1 where "advance lx = Ok (c, lx1)" "rest lx1 = r" using advance_rest_Cons [OF plain(1)] by blast
    with plain ne show ?thesis by (auto simp: read_string_loop.simps [of lx])
  next
    case esc
    obtain lx1 where a: "advance lx = Ok (0x5C, lx1)" "rest lx1 = e # r" using advance_rest_Cons [OF esc(1)] by blast
    obtain lx2 where b: "read_escape lx1 st = Ok (c, lx2)" "rest lx2 = r"
      using read_escape_rest [OF a(2) esc(2)] by blast
    show ?thesis using a b ne by (auto simp: read_string_loop.simps [of lx])
  qed
qed

lemma read_string_loop_literal:
  "rest lx = concat (map escape_char cs) @ 0x22 # r \<Longrightarrow>
     \<exists>lx'. read_string_loop lx v st = Ok (v @ utf8_string cs, lx') \<and> rest lx' = r"
proof (induction cs arbitrary: lx v)
  case Nil
  then obtain lx1 where "advance lx = Ok (0x22, lx1)" "rest lx1 = r" using advance_rest_Cons by fastforce
  then show ?case using Nil by (auto simp: read_string_loop.simps [of lx] is_at_end_rest)
next
  case (Cons c cs)
  then obtain lx1 where l: "rest lx1 = concat (map escape_char cs) @ 0x22 # r"
      "read_string_loop lx v st = read_string_loop lx1 (v @ utf8_encode c) st"
    using read_string_step [of lx c "concat (map escape_char cs) @ 0x22 # r" v st] by auto
  show ?case using Cons.IH [OF l(1), of "v @ utf8_encode c"] l(2) by simp
qed

text \<open>A source that consists of one token.\<close>

lemma skip_round_none:
  "rest lx = c # r \<Longrightarrow> \<not> is_whitespace c \<Longrightarrow> c \<noteq> 47 \<Longrightarrow> skip_round lx = Ok (False, lx)"
  by (simp add: skip_round_def peek_rest)

lemma tokenize_single:
  assumes src: "src = c # r" and c: "\<not> is_whitespace c" "c \<noteq> 47"
    and kind: "\<And>lx. rest lx = r \<Longrightarrow> \<exists>lx'. lex_kind env c (Position l 1) lx = Ok (k, lx') \<and> rest lx' = []"
  shows "\<exists>ts. tokenize env (with_start_line src l) = Ok ts \<and> map token_kind ts = [k, TkEof]"
proof -
  let ?lx = "with_start_line src l"
  have r: "rest ?lx = c # r" and p: "position ?lx = Position l 1"
    by (simp_all add: with_start_line_def rest_def src)
  obtain lx1 where a: "advance ?lx = Ok (c, lx1)" "rest lx1 = r" using advance_rest_Cons [OF r] by blast
  obtain lx2 where k: "lex_kind env c (Position l 1) lx1 = Ok (k, lx2)" "rest lx2 = []" using kind [OF a(2)] by blast
  have skip: "skip_whitespace_and_comments ?lx = Ok ?lx"
    using skip_round_none [OF r c] by (simp add: skip_whitespace_and_comments.simps [of ?lx])
  let ?t = "\<lparr>token_kind = k, token_span = Span_new (Position l 1) (position lx2)\<rparr>"
  have "lex_token env ?lx = Ok (?t, lx2)" using a k p by (simp add: lex_token_def)
  then have "tokenize_loop env ?lx [] = Ok ([?t], lx2)"
    using r k(2) skip
    by (simp add: tokenize_loop.simps [of env ?lx] tokenize_loop.simps [of env lx2] is_at_end_rest)
  then show ?thesis by (simp add: tokenize_def)
qed

lemma tokenize_single_error:
  assumes src: "src = c # r" and c: "\<not> is_whitespace c" "c \<noteq> 47"
    and kind: "\<And>lx. rest lx = r \<Longrightarrow> \<exists>e. lex_kind env c (Position l 1) lx = Err e \<and> Q e"
  shows "\<exists>e. tokenize env (with_start_line src l) = Err e \<and> Q e"
proof -
  let ?lx = "with_start_line src l"
  have r: "rest ?lx = c # r" and p: "position ?lx = Position l 1"
    by (simp_all add: with_start_line_def rest_def src)
  obtain lx1 where a: "advance ?lx = Ok (c, lx1)" "rest lx1 = r" using advance_rest_Cons [OF r] by blast
  obtain e where k: "lex_kind env c (Position l 1) lx1 = Err e" "Q e" using kind [OF a(2)] by blast
  have skip: "skip_whitespace_and_comments ?lx = Ok ?lx"
    using skip_round_none [OF r c] by (simp add: skip_whitespace_and_comments.simps [of ?lx])
  have "tokenize_loop env ?lx [] = Err e"
    using a k(1) p r skip
    by (simp add: tokenize_loop.simps [of env ?lx] is_at_end_rest lex_token_def)
  then show ?thesis using k(2) by (simp add: tokenize_def)
qed

lemma lex_kind_string: "lex_kind env 0x22 st lx = bindO (read_string lx st) (\<lambda>(v, lx1). Ok (TkString v, lx1))"
  by (simp add: lex_kind_def single_symbols_def compound_symbols_def)

text \<open>A decimal numeral: groups of digits with single separators between them.\<close>

definition digit_group :: "uchar list \<Rightarrow> bool" where
  "digit_group g \<longleftrightarrow> g \<noteq> [] \<and> list_all is_ascii_digit g"

fun numeral_text :: "uchar list list \<Rightarrow> uchar list" where
  "numeral_text [] = []"
| "numeral_text (g # gs) = g @ concat (map (Cons (asc CHR ''_'')) gs)"

definition digits_value :: "uchar list \<Rightarrow> nat" where
  "digits_value ds = foldl (\<lambda>n c. 10 * n + (c - 48)) 0 ds"

lemma digit_run_digits:
  "rest lx = g @ r \<Longrightarrow> list_all is_ascii_digit g \<Longrightarrow>
     \<exists>lx'. rest lx' = r
       \<and> digit_run_loop lx v st p = digit_run_loop lx' (v @ utf8_string g) st (p \<and> g = [])"
proof (induction g arbitrary: lx v p)
  case (Cons c g)
  then obtain lx1 where a: "advance lx = Ok (c, lx1)" "rest lx1 = g @ r" using advance_rest_Cons by fastforce
  from Cons.IH [OF a(2), of "v @ utf8_encode c" False] Cons.prems obtain lx' where
    "rest lx' = r" "digit_run_loop lx1 (v @ utf8_encode c) st False
       = digit_run_loop lx' (v @ utf8_encode c @ utf8_string g) st False" by auto
  with Cons.prems a show ?case by (auto simp: digit_run_loop.simps [of lx] peek_rest)
qed auto

lemma digit_run_groups:
  "rest lx = concat (map (Cons 95) gs) \<Longrightarrow> list_all digit_group gs \<Longrightarrow>
     \<exists>lx'. rest lx' = [] \<and> digit_run_loop lx v st False = Ok (v @ utf8_string (concat (map (Cons 95) gs)), lx')"
proof (induction gs arbitrary: lx v)
  case Nil
  then show ?case by (auto simp: digit_run_loop.simps [of lx] peek_rest)
next
  case (Cons g gs)
  then obtain d g' where g: "g = d # g'" "is_ascii_digit d" "list_all is_ascii_digit g"
    by (cases g) (auto simp: digit_group_def)
  from Cons.prems(1) have r: "rest lx = 95 # (g @ concat (map (Cons 95) gs))" by simp
  obtain lx1 where a: "advance lx = Ok (95, lx1)" "rest lx1 = g @ concat (map (Cons 95) gs)"
    using advance_rest_Cons [OF r] by blast
  have s: "digit_run_loop lx v st False = digit_run_loop lx1 (v @ utf8_encode 95) st True"
    using r a(1) g(1,2) by (simp add: digit_run_loop.simps [of lx] peek_rest peek_next_rest is_ascii_digit_def)
  obtain lx2 where b: "rest lx2 = concat (map (Cons 95) gs)"
      "digit_run_loop lx1 (v @ utf8_encode 95) st True
        = digit_run_loop lx2 ((v @ utf8_encode 95) @ utf8_string g) st False"
    using digit_run_digits [OF a(2) g(3), of "v @ utf8_encode 95" st True] g(1) by auto
  from Cons.IH [OF b(1), of "v @ utf8_encode 95 @ utf8_string g"] Cons.prems(2)
  show ?case by (auto simp: s b(2))
qed

lemma utf8_digits: "list_all is_ascii_digit g \<Longrightarrow> utf8_string g = map char_of g"
  by (induction g) (auto simp: utf8_encode_def is_ascii_digit_def)

lemma filter_digits:
  "list_all is_ascii_digit g \<Longrightarrow> filter (\<lambda>c. c \<noteq> CHR ''_'') (map char_of g) = map char_of g"
proof (induction g)
  case (Cons c g)
  have "char_of c \<noteq> CHR ''_''"
  proof
    assume "char_of c = CHR ''_''"
    then have "of_char (char_of c :: char) = (95 :: nat)" by simp
    then show False using Cons.prems by (auto simp: is_ascii_digit_def)
  qed
  with Cons show ?case by simp
qed simp

lemma filter_groups:
  "list_all digit_group gs \<Longrightarrow>
     filter (\<lambda>c. c \<noteq> CHR ''_'') (utf8_string (concat (map (Cons 95) gs))) = map char_of (concat gs)"
  by (induction gs) (auto simp: digit_group_def utf8_digits filter_digits utf8_encode_def char_of_def bit_0)

lemma dec_value_digits: "list_all is_ascii_digit ds \<Longrightarrow> dec_value (map char_of ds) = digits_value ds"
proof -
  have "list_all is_ascii_digit ds \<Longrightarrow>
      foldl (\<lambda>n c. 10 * n + (of_char c - 48)) a (map char_of ds) = foldl (\<lambda>n c. 10 * n + (c - 48)) a ds" for a
    by (induction ds arbitrary: a) (auto simp: is_ascii_digit_def)
  then show "list_all is_ascii_digit ds \<Longrightarrow> ?thesis" by (simp add: dec_value_def digits_value_def)
qed

lemma list_all_concat_groups: "list_all digit_group gs \<Longrightarrow> list_all is_ascii_digit (concat gs)"
  by (induction gs) (auto simp: digit_group_def)

lemma list_all_char_of:
  "list_all is_ascii_digit ds \<Longrightarrow> list_all (\<lambda>c. is_ascii_digit (of_char c)) (map char_of ds :: string)"
  by (induction ds) (auto simp: is_ascii_digit_def)

lemma number_token_groups:
  assumes "list_all digit_group (g # gs)"
  shows "number_token env lx (utf8_string (numeral_text (g # gs))) st False =
    (if digits_value (concat (g # gs)) \<le> U128_MAX then Ok (TkInteger (digits_value (concat (g # gs))))
     else Err (invalid_number lx (utf8_string (numeral_text (g # gs))) st
        ''integer value is outside the `int` range''))"
proof -
  let ?ds = "concat (g # gs)"
  have d: "list_all is_ascii_digit ?ds" using list_all_concat_groups [OF assms] .
  have f: "filter (\<lambda>c. c \<noteq> CHR ''_'') (utf8_string (numeral_text (g # gs))) = map char_of ?ds"
    using assms filter_groups [of gs] by (simp add: digit_group_def utf8_digits filter_digits)
  have "?ds \<noteq> []" using assms by (simp add: digit_group_def)
  moreover have "list_all (\<lambda>c. is_ascii_digit (of_char c)) (map char_of ?ds :: string)"
    using d by (rule list_all_char_of)
  ultimately have p: "parse_u128 (map char_of ?ds) =
      (if digits_value ?ds \<le> U128_MAX then Some (digits_value ?ds) else None)"
    unfolding parse_u128_def by (simp only: dec_value_digits [OF d]) simp
  show ?thesis
    unfolding number_token_def Let_def f p by simp
qed

lemma lex_kind_digit:
  assumes "is_ascii_digit c"
  shows "lex_kind env c st lx = read_number env lx c st"
proof -
  have "c \<in> {48, 49, 50, 51, 52, 53, 54, 55, 56, 57}" using assms by (simp add: is_ascii_digit_def) arith
  then show ?thesis
    by (elim insertE emptyE) (simp_all add: lex_kind_def single_symbols_def compound_symbols_def is_ascii_digit_def)
qed

lemma read_number_groups:
  assumes gs: "list_all digit_group ((d # g) # gs)"
    and r: "rest lx = g @ concat (map (Cons 95) gs)"
  shows "\<exists>lx'. rest lx' = [] \<and> lex_kind env d st lx =
     bindO (number_token env lx' (utf8_string (numeral_text ((d # g) # gs))) st False) (\<lambda>k. Ok (k, lx'))"
proof -
  have dg: "is_ascii_digit d" "list_all is_ascii_digit g" "list_all digit_group gs"
    using gs by (auto simp: digit_group_def)
  obtain lx1 where a: "rest lx1 = concat (map (Cons 95) gs)"
      "digit_run_loop lx (utf8_encode d) st False = digit_run_loop lx1 (utf8_encode d @ utf8_string g) st False"
    using digit_run_digits [OF r dg(2), of "utf8_encode d" st False] by auto
  obtain lx2 where b: "rest lx2 = []" "digit_run_loop lx1 (utf8_encode d @ utf8_string g) st False =
      Ok ((utf8_encode d @ utf8_string g) @ utf8_string (concat (map (Cons 95) gs)), lx2)"
    using digit_run_groups [OF a(1) dg(3)] by blast
  have "lex_kind env d st lx =
     bindO (number_token env lx2 (utf8_string (numeral_text ((d # g) # gs))) st False) (\<lambda>k. Ok (k, lx2))"
    using a b by (simp add: lex_kind_digit [OF dg(1)] read_number_def read_digit_run_def read_fraction_def
        read_exponent_def peek_rest)
  then show ?thesis using b(1) by blast
qed

lemma digit_not_trivia: "is_ascii_digit d \<Longrightarrow> \<not> is_whitespace d \<and> d \<noteq> 47"
  by (auto simp: is_ascii_digit_def is_whitespace_def)

lemma digits_value_snoc: "digits_value (ds @ [d]) = 10 * digits_value ds + (d - 48)"
  by (simp add: digits_value_def)

lemma show_nat_digits:
  "digit_group (map of_char (show_nat n)) \<and> digits_value (map of_char (show_nat n)) = n"
proof (induction n rule: show_nat.induct)
  case (1 n)
  show ?case
  proof (cases "n < 10")
    case True
    then show ?thesis by (subst (1 2) show_nat.simps) (simp add: digit_group_def digits_value_def is_ascii_digit_def)
  next
    case False
    then show ?thesis using 1
      by (subst (1 2) show_nat.simps) (simp add: digit_group_def digits_value_snoc is_ascii_digit_def)
  qed
qed

section \<open>Words\<close>

text \<open>
  What the lexer relies on in the Unicode tables: on ASCII they agree with the usual classes,
  and ASCII text is in normal form C.
\<close>

definition ascii_letter :: "uchar \<Rightarrow> bool" where
  "ascii_letter c \<longleftrightarrow> 65 \<le> c \<and> c \<le> 90 \<or> 97 \<le> c \<and> c \<le> 122"

definition ascii_tables :: "lex_env \<Rightarrow> bool" where
  "ascii_tables env \<longleftrightarrow>
     (\<forall>c < 128. is_xid_start env c = ascii_letter c)
     \<and> (\<forall>c < 128. is_xid_continue env c = (ascii_letter c \<or> is_ascii_digit c \<or> c = 95))
     \<and> (\<forall>cs. list_all (\<lambda>c. c < 128) cs \<longrightarrow> nfc env cs = cs)"

definition word_char :: "uchar \<Rightarrow> bool" where
  "word_char c \<longleftrightarrow> ascii_letter c \<or> is_ascii_digit c \<or> c = 95"

fun ascii_word :: "uchar list \<Rightarrow> bool" where
  "ascii_word [] = False"
| "ascii_word (c # cs) = ((ascii_letter c \<or> c = 95) \<and> list_all word_char cs)"

lemma word_char_ascii: "word_char c \<Longrightarrow> c < 128"
  by (auto simp: word_char_def ascii_letter_def is_ascii_digit_def)

lemma word_char_continue: "ascii_tables env \<Longrightarrow> word_char c \<Longrightarrow> is_identifier_continue env c"
  using word_char_ascii [of c] by (auto simp: ascii_tables_def is_identifier_continue_def word_char_def)

lemma ident_loop_word:
  "ascii_tables env \<Longrightarrow> rest lx = cs \<Longrightarrow> list_all word_char cs \<Longrightarrow>
     \<exists>lx'. rest lx' = [] \<and> ident_loop env lx v = Ok (v @ cs, lx')"
proof (induction cs arbitrary: lx v)
  case Nil
  then show ?case by (auto simp: ident_loop.simps [of env lx v] peek_rest)
next
  case (Cons c cs)
  obtain lx1 where a: "advance lx = Ok (c, lx1)" "rest lx1 = cs" using advance_rest_Cons [OF Cons.prems(2)] by blast
  from Cons.IH [OF Cons.prems(1) a(2), of "v @ [c]"] Cons.prems a show ?case
    by (auto simp: ident_loop.simps [of env lx v] peek_rest word_char_continue)
qed

lemma lex_kind_word:
  assumes "ascii_letter c \<or> c = 95" "ascii_tables env"
  shows "lex_kind env c st lx = read_identifier env lx c st"
proof -
  have "is_identifier_start env c"
    using assms by (auto simp: is_identifier_start_def ascii_tables_def ascii_letter_def)
  moreover have "map_of single_symbols c = None" "map_of compound_symbols c = None"
    using assms(1) by (auto simp: single_symbols_def compound_symbols_def ascii_letter_def)
  ultimately show ?thesis
    using assms(1) by (auto simp: lex_kind_def ascii_letter_def is_ascii_digit_def)
qed

lemma word_classified:
  assumes env: "ascii_tables env" and w: "ascii_word w"
  shows "\<exists>ts. tokenize env (with_start_line w l) = Ok ts
    \<and> map token_kind ts = [identifier_kind (utf8_string w), TkEof]"
proof -
  obtain c cs where w': "w = c # cs" and c: "ascii_letter c \<or> c = 95" and cs: "list_all word_char cs"
    using w by (cases w) auto
  have "list_all (\<lambda>c. c < 128) w"
    using c cs word_char_ascii by (auto simp: w' list_all_iff ascii_letter_def)
  then have nfc: "nfc env (c # cs) = c # cs" using env by (simp add: ascii_tables_def w')
  have "\<exists>lx'. lex_kind env c (Position l 1) lx = Ok (identifier_kind (utf8_string w), lx') \<and> rest lx' = []"
    if "rest lx = cs" for lx
    using ident_loop_word [OF env that cs, of "[c]"] lex_kind_word [OF c env] nfc
    by (auto simp: read_identifier_def w')
  moreover have "\<not> is_whitespace c" "c \<noteq> 47" using c by (auto simp: is_whitespace_def ascii_letter_def)
  ultimately show ?thesis using tokenize_single [OF w'] by blast
qed

lemma keyword_table_distinct: "distinct (map fst keyword_table)" "distinct (map snd keyword_table)"
  by (simp_all add: keyword_table_def)

lemma identifier_kind_keyword:
  "identifier_kind v = TkKeyword k \<longleftrightarrow> (v, k) \<in> set keyword_table"
  using map_of_eq_Some_iff [OF keyword_table_distinct(1), of v k]
  by (cases "map_of keyword_table v") (auto simp: identifier_kind_def)

lemma identifier_kind_identifier:
  "identifier_kind v = TkIdentifier v' \<longleftrightarrow> v' = v \<and> v \<notin> fst ` set keyword_table"
  using map_of_eq_None_iff [of keyword_table v]
  by (auto simp: identifier_kind_def simp del: map_of_eq_None_iff split: option.splits)

lemma identifier_kind_self:
  "identifier_kind v = TkIdentifier v \<longleftrightarrow> v \<notin> fst ` set keyword_table"
  using identifier_kind_identifier [of v v] by simp

section \<open>Properties\<close>

text \<open>A concrete environment: the ASCII part of the tables, and no floating-point parser.\<close>

definition ascii_env :: lex_env where
  "ascii_env = \<lparr>is_xid_start = ascii_letter, is_xid_continue = word_char, nfc = (\<lambda>cs. cs),
     parse_f64 = (\<lambda>_. None)\<rparr>"

lemma ascii_env_tables: "ascii_tables ascii_env"
  by (simp add: ascii_tables_def ascii_env_def word_char_def)

text \<open>The equations that run the lexer on a concrete source.\<close>

lemmas lexer_eval =
  tokenize_def tokenize_loop.simps with_start_line_def is_at_end_def skip_whitespace_and_comments.simps
  skip_round_def peek_def peek_next_def advance_def index_at_def lex_token_def is_whitespace_def
  lex_kind_def single_symbols_def compound_symbols_def emit_def compound_def match_or_def match_char_def
  is_ascii_digit_def read_number_def read_digit_run_def digit_run_loop.simps read_fraction_def
  read_exponent_def number_token_def parse_u128_def U128_MAX_def dec_value_def
  is_identifier_start_def is_identifier_continue_def ascii_env_def ascii_letter_def word_char_def
  read_identifier_def ident_loop.simps advance2_def block_comment_loop.simps line_comment_loop.simps
  next_is_digit_def

text \<open>C25: on every source text \<^verbatim>\<open>Lexer::tokenize\<close> returns tokens or a diagnostic; none of its indexing
  into the source can be out of range, whatever the Unicode tables and the float parser answer.\<close>

theorem tokenize_no_panic: "no_panic (tokenize env (with_start_line src l))"
  by (auto simp: tokenize_def intro!: no_panic_bindO tokenize_loop_np)

text \<open>C26: a successful \<^verbatim>\<open>tokenize\<close> is a tiling of the source. The source splits, in order and with nothing
  left over, into runs of trivia (white space, line comments, and block comments whose nesting
  closes) and non-empty token texts; every token's span is exactly the line and column range of
  its text; and the one \<^verbatim>\<open>Eof\<close> token stands last, at the position where the source ends.\<close>

theorem tokenize_tiles:
  assumes "tokenize env (with_start_line src l) = Ok toks"
  shows "\<exists>ts. toks = ts @ [\<lparr>token_kind = TkEof, token_span =
             Span_new (pos_after (Position l 1) src) (pos_after (Position l 1) src)\<rparr>]
           \<and> tiles (Position l 1) src ts"
  using tokenize_tiling [OF assms] .

theorem tokenize_tiles_witness:
  "\<exists>toks ts. tokenize ascii_env (with_start_line (map of_char ''a/*/**/*/ <='') 1) = Ok toks
     \<and> length toks = 3
     \<and> toks = ts @ [\<lparr>token_kind = TkEof, token_span =
             Span_new (pos_after (Position 1 1) (map of_char ''a/*/**/*/ <=''))
               (pos_after (Position 1 1) (map of_char ''a/*/**/*/ <=''))\<rparr>]
     \<and> tiles (Position 1 1) (map of_char ''a/*/**/*/ <='') ts"
proof -
  let ?src = "map of_char ''a/*/**/*/ <='' :: uchar list"
  have "case tokenize ascii_env (with_start_line ?src 1) of Ok ts \<Rightarrow> length ts = 3 | _ \<Rightarrow> False"
    by (simp add: lexer_eval cong: bindO_weak_cong)
  then obtain toks where t: "tokenize ascii_env (with_start_line ?src 1) = Ok toks" "length toks = 3"
    by (auto split: outcome.splits)
  show ?thesis using tokenize_tiles [OF t(1)] t by blast
qed

text \<open>C27: the spans of the tokens are non-empty, disjoint and in source order.\<close>

theorem tokenize_spans_ordered:
  assumes "tokenize env (with_start_line src l) = Ok toks"
  shows "spans_ordered (Position l 1) (butlast toks)"
  using tokenize_tiling [OF assms] tiles_ordered by auto

theorem tokenize_spans_ordered_witness:
  "\<exists>toks. tokenize ascii_env (with_start_line (map of_char ''let x'') 1) = Ok toks
     \<and> length toks = 3 \<and> spans_ordered (Position 1 1) (butlast toks)"
proof -
  let ?src = "map of_char ''let x'' :: uchar list"
  have "case tokenize ascii_env (with_start_line ?src 1) of Ok ts \<Rightarrow> length ts = 3 | _ \<Rightarrow> False"
    by (simp add: lexer_eval cong: bindO_weak_cong)
  then obtain toks where t: "tokenize ascii_env (with_start_line ?src 1) = Ok toks" "length toks = 3"
    by (auto split: outcome.splits)
  show ?thesis using tokenize_spans_ordered [OF t(1)] t by blast
qed

text \<open>C28: every text survives a string literal: with its line breaks, quotes and backslashes
  escaped and quotes around it, it is lexed as one string token that holds the text.\<close>

theorem string_literal_roundtrip:
  "\<exists>ts. tokenize env (with_start_line (string_literal cs) l) = Ok ts
      \<and> map token_kind ts = [TkString (utf8_string cs), TkEof]"
proof (rule tokenize_single)
  show "string_literal cs = 0x22 # (concat (map escape_char cs) @ [0x22])" by (simp add: string_literal_def)
  fix lx assume "rest lx = concat (map escape_char cs) @ [0x22]"
  from read_string_loop_literal [OF this, of "[]" "Position l 1"]
  show "\<exists>lx'. lex_kind env 0x22 (Position l 1) lx = Ok (TkString (utf8_string cs), lx') \<and> rest lx' = []"
    by (auto simp: lex_kind_string read_string_def)
qed (simp_all add: is_whitespace_def)

text \<open>C29: a decimal numeral with single separators between groups of digits is lexed as one integer
  token with the number's value when that fits 128 bits, and is a lexical error when it does not;
  it is never wrapped or truncated.\<close>

theorem integer_literal:
  assumes gs: "gs \<noteq> []" "list_all digit_group gs"
  shows "if digits_value (concat gs) \<le> U128_MAX
     then \<exists>ts. tokenize env (with_start_line (numeral_text gs) l) = Ok ts
            \<and> map token_kind ts = [TkInteger (digits_value (concat gs)), TkEof]
     else \<exists>e. tokenize env (with_start_line (numeral_text gs) l) = Err e \<and> diag_kind e = Lex"
proof -
  obtain d g gs' where gs': "gs = (d # g) # gs'"
    using gs by (cases gs; cases "hd gs") (auto simp: digit_group_def)
  let ?r = "g @ concat (map (Cons 95) gs')"
  have src: "numeral_text gs = d # ?r" by (simp add: gs')
  have d: "\<not> is_whitespace d" "d \<noteq> 47"
    using gs(2) digit_not_trivia by (auto simp: gs' digit_group_def)
  note num = read_number_groups [OF gs(2) [unfolded gs']] and tok = number_token_groups [OF gs(2) [unfolded gs']]
  show ?thesis
  proof (cases "digits_value (concat gs) \<le> U128_MAX")
    case True
    have "\<exists>lx'. lex_kind env d (Position l 1) lx = Ok (TkInteger (digits_value (concat gs)), lx') \<and> rest lx' = []"
      if "rest lx = ?r" for lx
      using num [OF that, of env "Position l 1"] tok True by (auto simp: gs')
    from tokenize_single [where env = env, OF src d this] True show ?thesis by simp
  next
    case False
    have "\<exists>e. lex_kind env d (Position l 1) lx = Err e \<and> diag_kind e = Lex"
      if "rest lx = ?r" for lx
      using num [OF that, of env "Position l 1"] tok False
      by (auto simp: gs' invalid_number_def lex_error_def Diagnostic_new_def)
    from tokenize_single_error [where env = env, OF src d this] False show ?thesis by simp
  qed
qed

theorem integer_literal_witness:
  "\<exists>ts. tokenize ascii_env (with_start_line (numeral_text [[49], [48, 50]]) 1) = Ok ts
     \<and> map token_kind ts = [TkInteger 102, TkEof]"
  using integer_literal [of "[[49], [48, 50]]" ascii_env 1]
  by (simp add: digit_group_def digits_value_def is_ascii_digit_def U128_MAX_def)

text \<open>C30: a word (an ASCII letter or underscore and then letters, digits and underscores) is one token:
  the keyword when it is one of the 42 reserved words, and an identifier with that name otherwise.\<close>

theorem word_token:
  assumes "ascii_tables env" "ascii_word w"
  shows "\<exists>ts k. tokenize env (with_start_line w l) = Ok ts \<and> map token_kind ts = [k, TkEof]
    \<and> (\<forall>kw. k = TkKeyword kw \<longleftrightarrow> (utf8_string w, kw) \<in> set keyword_table)
    \<and> (k = TkIdentifier (utf8_string w) \<longleftrightarrow> utf8_string w \<notin> fst ` set keyword_table)"
proof -
  obtain ts where "tokenize env (with_start_line w l) = Ok ts"
      "map token_kind ts = [identifier_kind (utf8_string w), TkEof]"
    using word_classified [OF assms, of l] by (elim exE conjE)
  then show ?thesis
    using identifier_kind_keyword [of "utf8_string w"] identifier_kind_self [of "utf8_string w"]
    by (intro exI [of _ ts] exI [of _ "identifier_kind (utf8_string w)"] conjI allI) assumption+
qed

theorem word_token_witness:
  "\<exists>ts k. tokenize ascii_env (with_start_line (map of_char ''data_1'') 7) = Ok ts \<and> map token_kind ts = [k, TkEof]
    \<and> (\<forall>kw. k = TkKeyword kw \<longleftrightarrow> (utf8_string (map of_char ''data_1''), kw) \<in> set keyword_table)
    \<and> (k = TkIdentifier (utf8_string (map of_char ''data_1''))
        \<longleftrightarrow> utf8_string (map of_char ''data_1'') \<notin> fst ` set keyword_table)"
  by (rule word_token [OF ascii_env_tables])
     (simp add: ascii_letter_def word_char_def is_ascii_digit_def)

end
