(* ===== verification/DataFormat.thy ===== *)
theory DataFormat
  imports Prelude
begin

unbundle bit_operations_syntax

text \<open>
  The payload format of the DISP Data store, src/compiler/src/data_store.rs: the snapshot types,
  \<^verbatim>\<open>encode_payload_with_constraints\<close>, the \<^verbatim>\<open>Reader\<close> and \<^verbatim>\<open>decode_payload\<close>. The encoder appends to
  the payload it is given; the decoder moves a reader over it.

  The laws that tie a record's encoder to its decoder are the locale \<open>item_codec\<close>, interpreted
  for rows, constrained field names, fields, constraints and tables.
\<close>

section \<open>Errors and limits\<close>

datatype io_error = NotFound | InvalidData string | OtherIo string

definition invalid :: "string \<Rightarrow> io_error" where
  "invalid m = InvalidData m"

definition PAGE_SIZE :: nat where "PAGE_SIZE = 4096"
definition PAGE_HEADER_SIZE :: nat where "PAGE_HEADER_SIZE = 32"
definition PAGE_PAYLOAD_SIZE :: nat where "PAGE_PAYLOAD_SIZE = PAGE_SIZE - PAGE_HEADER_SIZE"
definition MAX_FILE_BYTES :: nat where "MAX_FILE_BYTES = 64 * 1024 * 1024"
definition MAX_PAGES :: nat where "MAX_PAGES = MAX_FILE_BYTES div PAGE_SIZE"
definition MAX_TABLES :: nat where "MAX_TABLES = 4096"
definition MAX_FIELDS :: nat where "MAX_FIELDS = 4096"
definition MAX_ROWS :: nat where "MAX_ROWS = 100000"
definition MAX_NAME_BYTES :: nat where "MAX_NAME_BYTES = 1024"
definition MAX_TYPE_BYTES :: nat where "MAX_TYPE_BYTES = 128"
definition MAX_ROW_BYTES :: nat where "MAX_ROW_BYTES = 16 * 1024 * 1024"

lemmas data_limits = PAGE_SIZE_def PAGE_HEADER_SIZE_def PAGE_PAYLOAD_SIZE_def MAX_FILE_BYTES_def
  MAX_PAGES_def MAX_TABLES_def MAX_FIELDS_def MAX_ROWS_def MAX_NAME_BYTES_def MAX_TYPE_BYTES_def
  MAX_ROW_BYTES_def

section \<open>Snapshots\<close>

record field =
  field_name :: string
  storage :: string
  optional :: bool
  primary :: bool
  unique :: bool
  indexed :: bool

record constraint =
  constraint_name :: string
  constraint_unique :: bool
  constraint_fields :: "string list"

record table =
  table_name :: string
  table_fields :: "field list"
  constraints :: "constraint list"
  rows :: "byte list list"

record snapshot =
  tables :: "table list"

definition snapshot_empty :: snapshot where
  "snapshot_empty = \<lparr>tables = []\<rparr>"

section \<open>Encoding\<close>

definition push_u32 :: "byte list \<Rightarrow> nat \<Rightarrow> string \<Rightarrow> (io_error, byte list) outcome" where
  "push_u32 output v context =
     (if v < 2 ^ 32 then Ok (output @ le_bytes 4 v) else Err (invalid (context @ '' is too large'')))"

definition push_u64 :: "byte list \<Rightarrow> nat \<Rightarrow> string \<Rightarrow> (io_error, byte list) outcome" where
  "push_u64 output v context =
     (if v < 2 ^ 64 then Ok (output @ le_bytes 8 v) else Err (invalid (context @ '' is too large'')))"

definition push_bytes :: "byte list \<Rightarrow> byte list \<Rightarrow> nat \<Rightarrow> string \<Rightarrow> (io_error, byte list) outcome" where
  "push_bytes output v limit context =
     (if length v > limit then Err (invalid (context @ '' exceeds its storage limit''))
      else bindO (push_u32 output (length v) context) (\<lambda>out1. Ok (out1 @ v)))"

definition field_flags :: "field \<Rightarrow> byte" where
  "field_flags f = of_bool (optional f) OR push_bit 1 (of_bool (primary f))
     OR push_bit 2 (of_bool (unique f)) OR push_bit 3 (of_bool (indexed f))"

text \<open>One round of the loop over the fields: the names seen, \<^verbatim>\<open>primary_count\<close> and the payload.\<close>

definition encode_field ::
  "field \<Rightarrow> (string set \<times> nat) \<times> byte list \<Rightarrow> (io_error, (string set \<times> nat) \<times> byte list) outcome" where
  "encode_field f = (\<lambda>((names, primaries), p).
     if field_name f \<in> names then Err (invalid ''DISP Data table contains a duplicate field'')
     else bindO (push_bytes p (as_bytes (field_name f)) MAX_NAME_BYTES ''field name'') (\<lambda>p1.
          bindO (push_bytes p1 (as_bytes (storage f)) MAX_TYPE_BYTES ''field storage type'') (\<lambda>p2.
          Ok ((insert (field_name f) names, primaries + of_bool (primary f)), p2 @ [field_flags f]))))"

definition encode_constrained ::
  "string set \<Rightarrow> string \<Rightarrow> string set \<times> byte list \<Rightarrow> (io_error, string set \<times> byte list) outcome" where
  "encode_constrained field_names f = (\<lambda>(constrained, p).
     if f \<notin> field_names \<or> f \<in> constrained
     then Err (invalid ''DISP Data composite constraint references invalid fields'')
     else bindO (push_bytes p (as_bytes f) MAX_NAME_BYTES ''constraint field'') (\<lambda>p1.
          Ok (insert f constrained, p1)))"

definition encode_constraint ::
  "string set \<Rightarrow> nat \<Rightarrow> constraint \<Rightarrow> string set \<times> byte list \<Rightarrow> (io_error, string set \<times> byte list) outcome" where
  "encode_constraint field_names field_count c = (\<lambda>(constraint_names, p).
     bindO (push_bytes p (as_bytes (constraint_name c)) MAX_NAME_BYTES ''constraint name'') (\<lambda>p1.
     if constraint_name c \<in> constraint_names \<or> constraint_name c \<in> field_names
     then Err (invalid ''DISP Data table contains a duplicate field or constraint name'')
     else
       (let p2 = p1 @ [of_bool (constraint_unique c)] in
        if length (constraint_fields c) < 2 \<or> length (constraint_fields c) > field_count
        then Err (invalid ''DISP Data composite constraint has an invalid field count'')
        else bindO (push_u32 p2 (length (constraint_fields c)) ''constraint field count'') (\<lambda>p3.
             bindO (foldO (encode_constrained field_names) (constraint_fields c) ({}, p3)) (\<lambda>(_, p4).
             Ok (insert (constraint_name c) constraint_names, p4))))))"

definition encode_row :: "byte list \<Rightarrow> unit \<times> byte list \<Rightarrow> (io_error, unit \<times> byte list) outcome" where
  "encode_row row = (\<lambda>(_, p). bindO (push_bytes p row MAX_ROW_BYTES ''stored row'') (\<lambda>p1. Ok ((), p1)))"

definition encode_table ::
  "bool \<Rightarrow> table \<Rightarrow> string set \<times> byte list \<Rightarrow> (io_error, string set \<times> byte list) outcome" where
  "encode_table supports_constraints t = (\<lambda>(table_names, p).
     if table_name t \<in> table_names then Err (invalid ''DISP Data snapshot contains a duplicate table'')
     else bindO (push_bytes p (as_bytes (table_name t)) MAX_NAME_BYTES ''table name'') (\<lambda>p1.
     if table_fields t = [] \<or> length (table_fields t) > MAX_FIELDS
     then Err (invalid ''DISP Data table must contain between 1 and 4096 fields'')
     else bindO (push_u32 p1 (length (table_fields t)) ''field count'') (\<lambda>p2.
     bindO (foldO encode_field (table_fields t) (({}, 0), p2)) (\<lambda>((_, primary_count), p3).
     if primary_count \<noteq> 1
     then Err (invalid ''DISP Data table must contain exactly one primary field'')
     else if length (rows t) > MAX_ROWS then Err (invalid ''DISP Data table exceeds 100000 rows'')
     else bindO
       (if supports_constraints
        then bindO (push_u32 p3 (length (constraints t)) ''constraint count'') (\<lambda>p4.
             bindO (foldO (encode_constraint (field_name ` set (table_fields t)) (length (table_fields t)))
                     (constraints t) ({}, p4)) (\<lambda>(_, p5). Ok p5))
        else if constraints t \<noteq> []
        then Err (invalid ''legacy DISP Data formats cannot encode composite constraints'')
        else Ok p3) (\<lambda>p6.
     bindO (push_u64 p6 (length (rows t)) ''row count'') (\<lambda>p7.
     bindO (foldO encode_row (rows t) ((), p7)) (\<lambda>(_, p8).
     if length p8 > MAX_FILE_BYTES - PAGE_SIZE then Err (invalid ''DISP Data snapshot exceeds 64 MiB'')
     else Ok (insert (table_name t) table_names, p8))))))))"

definition encode_payload_with_constraints :: "snapshot \<Rightarrow> bool \<Rightarrow> (io_error, byte list) outcome" where
  "encode_payload_with_constraints s supports_constraints =
     (if length (tables s) > MAX_TABLES then Err (invalid ''DISP Data snapshot exceeds 4096 tables'')
      else let ts = sort_key table_name (tables s) in
        bindO (push_u32 [] (length ts) ''table count'') (\<lambda>p.
        bindO (foldO (encode_table supports_constraints) ts ({}, p)) (\<lambda>(_, p1). Ok p1)))"

section \<open>The reader\<close>

record reader =
  rd_bytes :: "byte list"
  rd_at :: nat

definition reader_take :: "nat \<Rightarrow> string \<Rightarrow> reader \<Rightarrow> (io_error, byte list \<times> reader) outcome" where
  "reader_take len context r =
     bindO (ok_or (case usize_checked_add (rd_at r) len of
              None \<Rightarrow> None
            | Some e \<Rightarrow> if e \<le> length (rd_bytes r) then Some e else None)
       (invalid (''DISP Data snapshot is truncated in '' @ context))) (\<lambda>e.
     bindO (index_range (rd_bytes r) (rd_at r) e) (\<lambda>v. Ok (v, r\<lparr>rd_at := e\<rparr>)))"

definition reader_u8 :: "string \<Rightarrow> reader \<Rightarrow> (io_error, byte \<times> reader) outcome" where
  "reader_u8 context r =
     bindO (reader_take 1 context r) (\<lambda>(v, r1). bindO (index_at v 0) (\<lambda>b. Ok (b, r1)))"

text \<open>\<^verbatim>\<open>try_into().unwrap()\<close> to an array of \<open>k\<close> bytes panics at any other length.\<close>

definition to_array :: "nat \<Rightarrow> byte list \<Rightarrow> ('e, byte list) outcome" where
  "to_array k bs = (if length bs = k then Ok bs else Panic)"

definition reader_u32 :: "string \<Rightarrow> reader \<Rightarrow> (io_error, nat \<times> reader) outcome" where
  "reader_u32 context r =
     bindO (reader_take 4 context r) (\<lambda>(v, r1). bindO (to_array 4 v) (\<lambda>bs. Ok (from_le_bytes bs, r1)))"

definition reader_u64 :: "string \<Rightarrow> reader \<Rightarrow> (io_error, nat \<times> reader) outcome" where
  "reader_u64 context r =
     bindO (reader_take 8 context r) (\<lambda>(v, r1). bindO (to_array 8 v) (\<lambda>bs.
       if from_le_bytes bs \<le> USIZE_MAX then Ok (from_le_bytes bs, r1)
       else Err (invalid (context @ '' does not fit this target''))))"

definition reader_text :: "nat \<Rightarrow> string \<Rightarrow> reader \<Rightarrow> (io_error, string \<times> reader) outcome" where
  "reader_text limit context r =
     bindO (reader_u32 context r) (\<lambda>(len, r1).
       if len > limit then Err (invalid (context @ '' exceeds its storage limit''))
       else bindO (reader_take len context r1) (\<lambda>(bs, r2).
            bindO (ok_or (from_utf8 bs) (invalid (context @ '' is not valid UTF-8''))) (\<lambda>s. Ok (s, r2))))"

definition reader_data :: "nat \<Rightarrow> string \<Rightarrow> reader \<Rightarrow> (io_error, byte list \<times> reader) outcome" where
  "reader_data limit context r =
     bindO (reader_u32 context r) (\<lambda>(len, r1).
       if len > limit then Err (invalid (context @ '' exceeds its storage limit''))
       else reader_take len context r1)"

section \<open>Decoding\<close>

text \<open>
  The loops of \<^verbatim>\<open>decode_payload\<close> push what one round reads; \<open>read_items\<close> is such a loop over a
  round \<open>get\<close>, whose extra state is the set of names seen so far.
\<close>

definition read_items ::
  "nat \<Rightarrow> ('k \<times> reader \<Rightarrow> (io_error, 'a \<times> 'k \<times> reader) outcome) \<Rightarrow> 'k \<Rightarrow> reader
     \<Rightarrow> (io_error, 'a list \<times> 'k \<times> reader) outcome" where
  "read_items n get k r =
     repeatO n (\<lambda>(xs, k, r). bindO (get (k, r)) (\<lambda>(x, k', r'). Ok (xs @ [x], k', r'))) ([], k, r)"

definition decode_field ::
  "byte \<Rightarrow> (string set \<times> nat) \<times> reader \<Rightarrow> (io_error, field \<times> (string set \<times> nat) \<times> reader) outcome" where
  "decode_field allowed_flags = (\<lambda>((names, primaries), r).
     bindO (reader_text MAX_NAME_BYTES ''field name'' r) (\<lambda>(name, r1).
     if name \<in> names then Err (invalid ''DISP Data table contains a duplicate field'')
     else bindO (reader_text MAX_TYPE_BYTES ''field storage type'' r1) (\<lambda>(st, r2).
     bindO (reader_u8 ''field flags'' r2) (\<lambda>(flags, r3).
     if flags AND NOT allowed_flags \<noteq> 0
     then Err (invalid ''DISP Data field uses unknown required flags'')
     else (let prim = (flags AND 2 \<noteq> 0) in
       Ok (\<lparr>field_name = name, storage = st, optional = (flags AND 1 \<noteq> 0), primary = prim,
             unique = (flags AND 4 \<noteq> 0), indexed = (flags AND 8 \<noteq> 0)\<rparr>,
           (insert name names, primaries + of_bool prim), r3))))))"

definition decode_constrained ::
  "string set \<Rightarrow> string set \<times> reader \<Rightarrow> (io_error, string \<times> string set \<times> reader) outcome" where
  "decode_constrained field_names = (\<lambda>(constrained, r).
     bindO (reader_text MAX_NAME_BYTES ''constraint field'' r) (\<lambda>(f, r1).
     if f \<notin> field_names \<or> f \<in> constrained
     then Err (invalid ''DISP Data composite constraint references invalid fields'')
     else Ok (f, insert f constrained, r1)))"

definition decode_constraint ::
  "string set \<Rightarrow> nat \<Rightarrow> string set \<times> reader \<Rightarrow> (io_error, constraint \<times> string set \<times> reader) outcome" where
  "decode_constraint field_names field_count = (\<lambda>(constraint_names, r).
     bindO (reader_text MAX_NAME_BYTES ''constraint name'' r) (\<lambda>(name, r1).
     if name \<in> field_names \<or> name \<in> constraint_names
     then Err (invalid ''DISP Data table contains a duplicate field or constraint name'')
     else bindO (reader_u8 ''constraint flags'' r1) (\<lambda>(flags, r2).
     if flags AND NOT 1 \<noteq> 0 then Err (invalid ''DISP Data constraint uses unknown required flags'')
     else bindO (reader_u32 ''constraint field count'' r2) (\<lambda>(n, r3).
     if n < 2 \<or> n > field_count
     then Err (invalid ''DISP Data composite constraint has an invalid field count'')
     else bindO (read_items n (decode_constrained field_names) {} r3) (\<lambda>(names, _, r4).
     Ok (\<lparr>constraint_name = name, constraint_unique = (flags AND 1 \<noteq> 0), constraint_fields = names\<rparr>,
         insert name constraint_names, r4))))))"

definition decode_row :: "unit \<times> reader \<Rightarrow> (io_error, byte list \<times> unit \<times> reader) outcome" where
  "decode_row = (\<lambda>(_, r). bindO (reader_data MAX_ROW_BYTES ''stored row'' r) (\<lambda>(v, r1). Ok (v, (), r1)))"

definition decode_table ::
  "byte \<Rightarrow> bool \<Rightarrow> string set \<times> reader \<Rightarrow> (io_error, table \<times> string set \<times> reader) outcome" where
  "decode_table allowed_flags supports_constraints = (\<lambda>(table_names, r).
     bindO (reader_text MAX_NAME_BYTES ''table name'' r) (\<lambda>(name, r1).
     if name \<in> table_names then Err (invalid ''DISP Data snapshot contains a duplicate table'')
     else bindO (reader_u32 ''field count'' r1) (\<lambda>(field_count, r2).
     if field_count = 0 \<or> field_count > MAX_FIELDS
     then Err (invalid ''DISP Data table must contain between 1 and 4096 fields'')
     else bindO (read_items field_count (decode_field allowed_flags) ({}, 0) r2) (\<lambda>(fs, (_, primary_count), r3).
     if primary_count \<noteq> 1
     then Err (invalid ''DISP Data table must contain exactly one primary field'')
     else bindO (if supports_constraints then reader_u32 ''constraint count'' r3 else Ok (0, r3)) (\<lambda>(constraint_count, r4).
     if constraint_count > MAX_FIELDS then Err (invalid ''DISP Data table exceeds 4096 constraints'')
     else bindO (read_items constraint_count (decode_constraint (field_name ` set fs) (length fs)) {} r4) (\<lambda>(cs, _, r5).
     bindO (reader_u64 ''row count'' r5) (\<lambda>(row_count, r6).
     if row_count > MAX_ROWS then Err (invalid ''DISP Data table exceeds 100000 rows'')
     else bindO (read_items row_count decode_row () r6) (\<lambda>(rs, _, r7).
     Ok (\<lparr>table_name = name, table_fields = fs, constraints = cs, rows = rs\<rparr>, insert name table_names, r7)))))))))"

definition decode_payload :: "byte list \<Rightarrow> byte \<Rightarrow> bool \<Rightarrow> (io_error, snapshot) outcome" where
  "decode_payload payload allowed_flags supports_constraints =
     (let r = \<lparr>rd_bytes = payload, rd_at = 0\<rparr> in
      bindO (reader_u32 ''table count'' r) (\<lambda>(table_count, r1).
      if table_count > MAX_TABLES then Err (invalid ''DISP Data snapshot exceeds 4096 tables'')
      else bindO (read_items table_count (decode_table allowed_flags supports_constraints) {} r1) (\<lambda>(ts, _, r2).
        if rd_at r2 \<noteq> length payload
        then Err (invalid ''DISP Data snapshot contains trailing payload bytes'')
        else Ok \<lparr>tables = ts\<rparr>)))"

end
