(* ===== verification/DataCodec.thy ===== *)
theory DataCodec
  imports DataFormat
begin

unbundle bit_operations_syntax

text \<open>
  The payload format as a set of byte strings. Every reader step is characterised by the bytes it
  consumes; the locale \<open>item_codec\<close> states the contract between the encoder and the decoder of
  one kind of record and lifts it to the counted lists of the format. Interpreting it from rows up
  to tables gives the characterisation of \<^verbatim>\<open>decode_payload\<close>: it accepts exactly the canonical
  encodings of well-formed snapshots.
\<close>

section \<open>Consuming bytes\<close>

definition consumes :: "reader \<Rightarrow> byte list \<Rightarrow> reader \<Rightarrow> bool" where
  "consumes r bs r' \<longleftrightarrow> r' = r\<lparr>rd_at := rd_at r + length bs\<rparr> \<and> rd_at r + length bs \<le> length (rd_bytes r)
     \<and> take (length bs) (drop (rd_at r) (rd_bytes r)) = bs"

definition small :: "reader \<Rightarrow> bool" where
  "small r \<longleftrightarrow> length (rd_bytes r) \<le> USIZE_MAX"

lemma consumes_small [simp]: "consumes r bs r' \<Longrightarrow> small r' = small r"
  by (auto simp: consumes_def small_def)

lemma consumes_Nil: "rd_at r \<le> length (rd_bytes r) \<Longrightarrow> consumes r [] r' \<longleftrightarrow> r' = r"
  by (simp add: consumes_def)

lemma consumes_append:
  "consumes r (a @ b) r'' \<longleftrightarrow> (\<exists>r'. consumes r a r' \<and> consumes r' b r'')"
proof -
  have split: "take (length a + length b) xs = a @ b \<longleftrightarrow> take (length a) xs = a \<and> take (length b) (drop (length a) xs) = b"
    if "length a + length b \<le> length xs" for xs :: "byte list"
    using that by (auto simp: take_add append_eq_append_conv)
  have len: "length a + length b \<le> length (drop (rd_at r) (rd_bytes r))"
    if "rd_at r + (length a + length b) \<le> length (rd_bytes r)" using that by simp
  show ?thesis
    using split [OF len] by (auto simp: consumes_def add.commute add.left_commute)
qed

lemma consumes_appendI: "consumes r a r' \<Longrightarrow> consumes r' b r'' \<Longrightarrow> consumes r (a @ b) r''"
  unfolding consumes_append by blast

lemma consumes_at: "consumes r bs r' \<Longrightarrow> rd_at r' \<le> length (rd_bytes r')"
  by (simp add: consumes_def)

lemma consumes_all:
  "consumes \<lparr>rd_bytes = p, rd_at = 0\<rparr> bs r' \<and> rd_at r' = length p
     \<longleftrightarrow> bs = p \<and> r' = \<lparr>rd_bytes = p, rd_at = length p\<rparr>"
  by (auto simp: consumes_def)

section \<open>Reader steps\<close>

lemma reader_take_iff:
  assumes "small r"
  shows "reader_take n c r = Ok (v, r') \<longleftrightarrow> length v = n \<and> consumes r v r'"
  using assms
  by (auto simp: reader_take_def small_def consumes_def usize_checked_add_def outcome_simps slice_def
      split: if_splits)

lemma to_array_iff [outcome_simps]: "to_array k bs = Ok v \<longleftrightarrow> length bs = k \<and> v = bs"
  by (auto simp: to_array_def)

lemma reader_u8_iff:
  assumes "small r"
  shows "reader_u8 c r = Ok (b, r') \<longleftrightarrow> consumes r [b] r'"
  using assms
  by (auto simp: reader_u8_def reader_take_iff outcome_simps length_Suc_conv)

lemma reader_u32_iff:
  assumes "small r"
  shows "reader_u32 c r = Ok (n, r') \<longleftrightarrow> n < 2 ^ 32 \<and> consumes r (le_bytes 4 n) r'"
proof
  assume "reader_u32 c r = Ok (n, r')"
  then obtain v where v: "length v = 4" "consumes r v r'" "n = from_le_bytes v"
    using assms by (auto simp: reader_u32_def reader_take_iff outcome_simps)
  then have "le_bytes 4 n = v" using le_bytes_from_le_bytes [of v] by simp
  then show "n < 2 ^ 32 \<and> consumes r (le_bytes 4 n) r'"
    using v from_le_bytes_less [of v] by simp
next
  assume n: "n < 2 ^ 32 \<and> consumes r (le_bytes 4 n) r'"
  then have "reader_take 4 c r = Ok (le_bytes 4 n, r')" by (simp add: reader_take_iff assms)
  then show "reader_u32 c r = Ok (n, r')" using n by (simp add: reader_u32_def to_array_def)
qed

lemma reader_u64_iff:
  assumes "small r"
  shows "reader_u64 c r = Ok (n, r') \<longleftrightarrow> n < 2 ^ 64 \<and> consumes r (le_bytes 8 n) r'"
proof
  assume "reader_u64 c r = Ok (n, r')"
  then obtain v where v: "length v = 8" "consumes r v r'" "n = from_le_bytes v"
    using assms by (auto simp: reader_u64_def reader_take_iff outcome_simps split: if_splits)
  then have "le_bytes 8 n = v" using le_bytes_from_le_bytes [of v] by simp
  then show "n < 2 ^ 64 \<and> consumes r (le_bytes 8 n) r'"
    using v from_le_bytes_less [of v] by simp
next
  assume n: "n < 2 ^ 64 \<and> consumes r (le_bytes 8 n) r'"
  then have "reader_take 8 c r = Ok (le_bytes 8 n, r')" by (simp add: reader_take_iff assms)
  then show "reader_u64 c r = Ok (n, r')" using n by (simp add: reader_u64_def to_array_def USIZE_MAX_def)
qed

definition sized :: "byte list \<Rightarrow> byte list" where
  "sized bs = le_bytes 4 (length bs) @ bs"

lemma reader_data_iff:
  assumes "small r" "limit < 2 ^ 32"
  shows "reader_data limit c r = Ok (v, r') \<longleftrightarrow> length v \<le> limit \<and> consumes r (sized v) r'"
proof
  assume "reader_data limit c r = Ok (v, r')"
  then show "length v \<le> limit \<and> consumes r (sized v) r'"
    using assms
    by (auto simp: reader_data_def sized_def consumes_append reader_u32_iff reader_take_iff outcome_simps
        split: if_splits)
next
  assume v: "length v \<le> limit \<and> consumes r (sized v) r'"
  then obtain r1 where r1: "consumes r (le_bytes 4 (length v)) r1" "consumes r1 v r'"
    by (auto simp: sized_def consumes_append)
  have "reader_u32 c r = Ok (length v, r1)" using r1 v assms by (simp add: reader_u32_iff)
  moreover have "reader_take (length v) c r1 = Ok (v, r')" using r1 assms(1) by (simp add: reader_take_iff)
  ultimately show "reader_data limit c r = Ok (v, r')" using v by (simp add: reader_data_def)
qed

lemma reader_text_data:
  "reader_text limit c r =
     bindO (reader_data limit c r) (\<lambda>(bs, r2).
       bindO (ok_or (from_utf8 bs) (invalid (c @ '' is not valid UTF-8''))) (\<lambda>s. Ok (s, r2)))"
  by (cases "reader_u32 c r") (auto simp: reader_text_def reader_data_def)

lemma reader_text_iff:
  assumes "small r" "limit < 2 ^ 32"
  shows "reader_text limit c r = Ok (s, r') \<longleftrightarrow>
    length s \<le> limit \<and> utf8_valid s \<and> consumes r (sized (as_bytes s)) r'"
  using assms
  by (auto simp: reader_text_data reader_data_iff outcome_simps from_utf8_Some_iff)

lemma push_bytes_iff [outcome_simps]:
  assumes "limit < 2 ^ 32"
  shows "push_bytes p v limit c = Ok p' \<longleftrightarrow> length v \<le> limit \<and> p' = p @ sized v"
  using assms by (auto simp: push_bytes_def push_u32_def sized_def outcome_simps split: if_splits)

lemma push_u32_iff [outcome_simps]: "push_u32 p n c = Ok p' \<longleftrightarrow> n < 2 ^ 32 \<and> p' = p @ le_bytes 4 n"
  by (auto simp: push_u32_def)

lemma push_u64_iff [outcome_simps]: "push_u64 p n c = Ok p' \<longleftrightarrow> n < 2 ^ 64 \<and> p' = p @ le_bytes 8 n"
  by (auto simp: push_u64_def)

text \<open>No step of the reader panics.\<close>

lemma reader_take_np [no_panic_intros, simp]: "no_panic (reader_take n c r)"
  by (auto simp: reader_take_def usize_checked_add_def ok_or_def split: option.splits if_splits)

lemma reader_take_length: "reader_take n c r = Ok (v, r') \<Longrightarrow> length v = n"
  by (auto simp: reader_take_def usize_checked_add_def outcome_simps split: option.splits if_splits)

lemma reader_u8_np [no_panic_intros, simp]: "no_panic (reader_u8 c r)"
  by (auto simp: reader_u8_def index_at_def intro!: no_panic_bindO dest!: reader_take_length)

lemma reader_u32_np [no_panic_intros, simp]: "no_panic (reader_u32 c r)"
  by (auto simp: reader_u32_def to_array_def intro!: no_panic_bindO dest: reader_take_length)

lemma reader_u64_np [no_panic_intros, simp]: "no_panic (reader_u64 c r)"
  by (auto simp: reader_u64_def to_array_def intro!: no_panic_bindO dest: reader_take_length)

lemma reader_text_np [no_panic_intros, simp]: "no_panic (reader_text l c r)"
  by (auto simp: reader_text_def intro!: no_panic_bindO)

lemma reader_data_np [no_panic_intros, simp]: "no_panic (reader_data l c r)"
  by (auto simp: reader_data_def intro!: no_panic_bindO)

lemma read_items_np [no_panic_intros]: "(\<And>s. no_panic (get s)) \<Longrightarrow> no_panic (read_items n get k r)"
  by (auto simp: read_items_def split: prod.splits intro!: no_panic_repeatO no_panic_bindO)

section \<open>Codecs of items\<close>

text \<open>
  A list of items written one after the other with a running state \<open>k\<close>: every item fits the
  state its predecessors left.
\<close>

fun chain :: "('k \<Rightarrow> 'a \<Rightarrow> bool) \<Rightarrow> ('k \<Rightarrow> 'a \<Rightarrow> 'k) \<Rightarrow> 'k \<Rightarrow> 'a list \<Rightarrow> bool" where
  "chain fits upd k [] = True"
| "chain fits upd k (x # xs) = (fits k x \<and> chain fits upd (upd k x) xs)"

lemma chain_names:
  assumes "\<And>k x. fits k x \<longleftrightarrow> nm x \<notin> k \<and> P x" and "\<And>k x. upd k x = insert (nm x) k"
  shows "chain fits upd k xs \<longleftrightarrow> distinct (map nm xs) \<and> nm ` set xs \<inter> k = {} \<and> (\<forall>x \<in> set xs. P x)"
  by (induction xs arbitrary: k) (auto simp: assms)

lemma repeatO_items:
  "repeatO n (\<lambda>(xs, k, r). bindO (get (k, r)) (\<lambda>(x, k', r'). Ok (xs @ [x], k', r'))) (ys, k, r) =
     bindO (repeatO n (\<lambda>(xs, k, r). bindO (get (k, r)) (\<lambda>(x, k', r'). Ok (xs @ [x], k', r'))) ([], k, r))
       (\<lambda>(xs, k', r'). Ok (ys @ xs, k', r'))"
proof (induction n arbitrary: ys k r)
  case (Suc n)
  show ?case
  proof (cases "get (k, r)")
    case (Ok a)
    obtain x k' r' where a: "a = (x, k', r')" by (cases a)
    show ?thesis
      using Suc.IH [of "ys @ [x]" k' r'] Suc.IH [of "[x]" k' r']
      by (simp add: Ok a bindO_assoc case_prod_beta)
  qed simp_all
qed simp

lemma read_items_simps:
  "read_items 0 get k r = Ok ([], k, r)"
  "read_items (Suc n) get k r =
     bindO (get (k, r)) (\<lambda>(x, k', r'). bindO (read_items n get k' r') (\<lambda>(xs, k'', r''). Ok (x # xs, k'', r'')))"
proof -
  show "read_items (Suc n) get k r =
     bindO (get (k, r)) (\<lambda>(x, k', r'). bindO (read_items n get k' r') (\<lambda>(xs, k'', r''). Ok (x # xs, k'', r'')))"
  proof (cases "get (k, r)")
    case (Ok a)
    obtain x k' r' where a: "a = (x, k', r')" by (cases a)
    show ?thesis
      using repeatO_items [of n get "[x]" k' r'] by (simp add: read_items_def Ok a)
  qed (simp_all add: read_items_def)
qed (simp add: read_items_def)

locale item_codec =
  fixes put :: "'a \<Rightarrow> 'k \<times> byte list \<Rightarrow> (io_error, 'k \<times> byte list) outcome"
    and get :: "'k \<times> reader \<Rightarrow> (io_error, 'a \<times> 'k \<times> reader) outcome"
    and bytes_of :: "'a \<Rightarrow> byte list"
    and fits :: "'k \<Rightarrow> 'a \<Rightarrow> bool"
    and upd :: "'k \<Rightarrow> 'a \<Rightarrow> 'k"
    and admits :: "'a \<Rightarrow> bool"
  assumes put_sound: "put x (k, p) = Ok (k', p') \<Longrightarrow> admits x \<Longrightarrow> fits k x \<and> k' = upd k x \<and> p' = p @ bytes_of x"
    and get_iff: "small r \<Longrightarrow> rd_at r \<le> length (rd_bytes r) \<Longrightarrow>
      get (k, r) = Ok (x, k', r') \<longleftrightarrow> fits k x \<and> k' = upd k x \<and> consumes r (bytes_of x) r'"
begin

lemma put_items:
  "foldO put xs (k, p) = Ok (k', p') \<Longrightarrow> list_all admits xs \<Longrightarrow>
     chain fits upd k xs \<and> k' = foldl upd k xs \<and> p' = p @ concat (map bytes_of xs)"
proof (induction xs arbitrary: k p)
  case (Cons x xs)
  then obtain k1 p1 where "put x (k, p) = Ok (k1, p1)" "foldO put xs (k1, p1) = Ok (k', p')"
    by (auto simp: outcome_simps)
  with Cons.prems Cons.IH [of k1 p1] put_sound [of x k p k1 p1] show ?case by auto
qed simp

lemma get_items:
  "small r \<Longrightarrow> rd_at r \<le> length (rd_bytes r) \<Longrightarrow>
     read_items n get k r = Ok (xs, k', r') \<longleftrightarrow>
       length xs = n \<and> chain fits upd k xs \<and> k' = foldl upd k xs \<and> consumes r (concat (map bytes_of xs)) r'"
proof (induction n arbitrary: k r xs)
  case 0
  then show ?case by (auto simp: read_items_simps consumes_Nil)
next
  case (Suc n)
  have unfold: "read_items (Suc n) get k r = Ok (xs, k', r') \<longleftrightarrow>
      (\<exists>x k1 r1 ys. get (k, r) = Ok (x, k1, r1) \<and> read_items n get k1 r1 = Ok (ys, k', r') \<and> xs = x # ys)"
    by (fastforce simp: read_items_simps outcome_simps)
  have get: "get (k, r) = Ok (x, k1, r1) \<longleftrightarrow> fits k x \<and> k1 = upd k x \<and> consumes r (bytes_of x) r1" for x k1 r1
    using Suc.prems by (rule get_iff)
  have IH: "read_items n get k1 r1 = Ok (ys, k', r') \<longleftrightarrow> length ys = n \<and> chain fits upd k1 ys
      \<and> k' = foldl upd k1 ys \<and> consumes r1 (concat (map bytes_of ys)) r'"
    if "consumes r bs r1" for bs r1 k1 ys
    using that Suc.prems by (intro Suc.IH) (simp_all add: consumes_at)
  show ?case
  proof
    assume "read_items (Suc n) get k r = Ok (xs, k', r')"
    then obtain x k1 r1 ys where *: "get (k, r) = Ok (x, k1, r1)" "read_items n get k1 r1 = Ok (ys, k', r')" "xs = x # ys"
      using unfold by blast
    then have x: "fits k x" "k1 = upd k x" "consumes r (bytes_of x) r1" using get by auto
    show "length xs = Suc n \<and> chain fits upd k xs \<and> k' = foldl upd k xs \<and> consumes r (concat (map bytes_of xs)) r'"
      using *(2,3) x IH [OF x(3)] by (auto simp: consumes_append)
  next
    assume R: "length xs = Suc n \<and> chain fits upd k xs \<and> k' = foldl upd k xs \<and> consumes r (concat (map bytes_of xs)) r'"
    then obtain x ys where xs: "xs = x # ys" by (cases xs) auto
    with R obtain r1 where r1: "consumes r (bytes_of x) r1" "consumes r1 (concat (map bytes_of ys)) r'"
      by (auto simp: consumes_append)
    have "get (k, r) = Ok (x, upd k x, r1)" using R xs r1 get by simp
    moreover have "read_items n get (upd k x) r1 = Ok (ys, k', r')" using R xs r1 IH [OF r1(1)] by simp
    ultimately show "read_items (Suc n) get k r = Ok (xs, k', r')" using unfold xs by blast
  qed
qed

end

section \<open>Rows and field names\<close>

definition row_fits :: "unit \<Rightarrow> byte list \<Rightarrow> bool" where
  "row_fits _ x \<longleftrightarrow> length x \<le> MAX_ROW_BYTES"

lemma limits_32 [simp]:
  "MAX_ROW_BYTES < 2 ^ 32" "MAX_NAME_BYTES < 2 ^ 32" "MAX_TYPE_BYTES < 2 ^ 32" "MAX_FIELDS < 2 ^ 32"
  "MAX_TABLES < 2 ^ 32" "MAX_ROWS < 2 ^ 64"
  by (simp_all add: data_limits)

declare limits_32 [simplified, simp]

interpretation row_codec: item_codec encode_row decode_row sized row_fits "\<lambda>_ _. ()" "\<lambda>_. True"
proof
  fix x k p k' p'
  assume "encode_row x (k, p) = Ok (k', p')"
  then show "row_fits k x \<and> k' = () \<and> p' = p @ sized x"
    by (auto simp: encode_row_def row_fits_def outcome_simps)
next
  fix r k x k' r'
  assume "small r"
  then show "decode_row (k, r) = Ok (x, k', r') \<longleftrightarrow> row_fits k x \<and> k' = () \<and> consumes r (sized x) r'"
    by (auto simp: decode_row_def row_fits_def reader_data_iff outcome_simps)
qed

definition name_ok :: "nat \<Rightarrow> string \<Rightarrow> bool" where
  "name_ok limit s \<longleftrightarrow> length s \<le> limit \<and> utf8_valid s"

lemma text_iff: "small r \<Longrightarrow> limit < 2 ^ 32 \<Longrightarrow>
    reader_text limit c r = Ok (s, r') \<longleftrightarrow> name_ok limit s \<and> consumes r (sized (as_bytes s)) r'"
  by (simp add: reader_text_iff name_ok_def)

definition constrained_fits :: "string set \<Rightarrow> string set \<Rightarrow> string \<Rightarrow> bool" where
  "constrained_fits names seen f \<longleftrightarrow> f \<notin> seen \<and> f \<in> names \<and> name_ok MAX_NAME_BYTES f"

definition insert_name :: "('a \<Rightarrow> string) \<Rightarrow> string set \<Rightarrow> 'a \<Rightarrow> string set" where
  "insert_name nm seen x = insert (nm x) seen"

interpretation constrained_codec:
  item_codec "encode_constrained names" "decode_constrained names" "\<lambda>f. sized (as_bytes f)"
    "constrained_fits names" "insert_name (\<lambda>f. f)" utf8_valid
  for names
proof
  fix x k p k' p'
  assume "encode_constrained names x (k, p) = Ok (k', p')" "utf8_valid x"
  then show "constrained_fits names k x \<and> k' = insert_name (\<lambda>f. f) k x \<and> p' = p @ sized (as_bytes x)"
    by (auto simp: encode_constrained_def constrained_fits_def name_ok_def insert_name_def outcome_simps
        split: if_splits)
next
  fix r k x k' r'
  assume "small r"
  then show "decode_constrained names (k, r) = Ok (x, k', r') \<longleftrightarrow>
      constrained_fits names k x \<and> k' = insert_name (\<lambda>f. f) k x \<and> consumes r (sized (as_bytes x)) r'"
    by (auto simp: decode_constrained_def constrained_fits_def insert_name_def text_iff outcome_simps
        split: if_splits)
qed

section \<open>Fields\<close>

text \<open>The flag byte and the flags it stands for determine each other.\<close>

lemma and_bits [simp]:
  "(flags :: byte) AND 1 = 0 \<longleftrightarrow> \<not> bit flags 0" "flags AND 2 = 0 \<longleftrightarrow> \<not> bit flags 1"
  "flags AND 4 = 0 \<longleftrightarrow> \<not> bit flags 2" "flags AND 8 = 0 \<longleftrightarrow> \<not> bit flags 3"
  using and_exp_eq_0_iff_not_bit [of flags 0] and_exp_eq_0_iff_not_bit [of flags 1]
    and_exp_eq_0_iff_not_bit [of flags 2] and_exp_eq_0_iff_not_bit [of flags 3] by simp_all

lemma bit_field_flags:
  "bit (field_flags f) n \<longleftrightarrow> (n = 0 \<and> optional f) \<or> (n = 1 \<and> primary f) \<or> (n = 2 \<and> unique f) \<or> (n = 3 \<and> indexed f)"
  by (auto simp: field_flags_def bit_simps)

lemma allowed_low:
  assumes "flags AND NOT (allowed AND 15 :: byte) = 0" "bit flags n"
  shows "n < 4"
proof (rule ccontr)
  assume n: "\<not> n < 4"
  have "n < 8" using assms(2) bit_imp_le_length [of flags n] by simp
  moreover have "\<not> bit (mask 4 :: byte) n" using n by (simp add: bit_mask_iff del: mask_numeral)
  then have "\<not> bit (15 :: byte) n" by (simp add: mask_eq_exp_minus_1)
  ultimately have "bit (flags AND NOT (allowed AND 15)) n" using assms(2) by (simp add: bit_simps)
  then show False using assms(1) by simp
qed

lemma flags_of_decoded:
  assumes "flags AND NOT (allowed AND 15 :: byte) = 0"
  shows "field_flags \<lparr>field_name = a, storage = b, optional = bit flags 0, primary = bit flags 1,
    unique = bit flags 2, indexed = bit flags 3\<rparr> = flags"
proof (rule bit_eqI)
  fix n
  have "bit flags n \<Longrightarrow> n = 0 \<or> n = 1 \<or> n = 2 \<or> n = 3" using allowed_low [OF assms, of n] by linarith
  then show "bit (field_flags \<lparr>field_name = a, storage = b, optional = bit flags 0, primary = bit flags 1,
    unique = bit flags 2, indexed = bit flags 3\<rparr>) n = bit flags n"
    by (auto simp: bit_field_flags)
qed

definition field_bytes :: "field \<Rightarrow> byte list" where
  "field_bytes f = sized (as_bytes (field_name f)) @ sized (as_bytes (storage f)) @ [field_flags f]"

definition field_wf :: "byte \<Rightarrow> field \<Rightarrow> bool" where
  "field_wf allowed f \<longleftrightarrow> name_ok MAX_NAME_BYTES (field_name f) \<and> name_ok MAX_TYPE_BYTES (storage f)
     \<and> field_flags f AND NOT (allowed AND 15) = 0"

definition field_fits :: "byte \<Rightarrow> string set \<times> nat \<Rightarrow> field \<Rightarrow> bool" where
  "field_fits allowed k f \<longleftrightarrow> field_name f \<notin> fst k \<and> field_wf allowed f"

definition field_upd :: "string set \<times> nat \<Rightarrow> field \<Rightarrow> string set \<times> nat" where
  "field_upd k f = (insert (field_name f) (fst k), snd k + of_bool (primary f))"

definition field_admits :: "byte \<Rightarrow> field \<Rightarrow> bool" where
  "field_admits allowed f \<longleftrightarrow> utf8_valid (field_name f) \<and> utf8_valid (storage f)
     \<and> field_flags f AND NOT (allowed AND 15) = 0"

lemma decode_field_sound:
  assumes r: "small r" and d: "decode_field (allowed AND 15) (k, r) = Ok (x, k', r')"
  shows "field_fits allowed k x \<and> k' = field_upd k x \<and> consumes r (field_bytes x) r'"
proof -
  obtain names n where k: "k = (names, n)" by (cases k)
  from d obtain name r1 st r2 flags r3
    where t1: "reader_text MAX_NAME_BYTES ''field name'' r = Ok (name, r1)" "name \<notin> names"
      and t2: "reader_text MAX_TYPE_BYTES ''field storage type'' r1 = Ok (st, r2)"
      and t3: "reader_u8 ''field flags'' r2 = Ok (flags, r3)" "\<not> flags AND NOT (allowed AND 15) \<noteq> 0"
      and e: "Ok (\<lparr>field_name = name, storage = st, optional = (flags AND 1 \<noteq> 0), primary = (flags AND 2 \<noteq> 0),
             unique = (flags AND 4 \<noteq> 0), indexed = (flags AND 8 \<noteq> 0)\<rparr>,
             (insert name names, n + of_bool (flags AND 2 \<noteq> 0)), r3) = (Ok (x, k', r') :: (io_error, _) outcome)"
    unfolding decode_field_def k prod.case Let_def
    by (elim outcome_elims) (rule that)
  have m: "flags AND NOT (allowed AND 15) = 0" using t3(2) by (simp only: not_not)
  have x: "x = \<lparr>field_name = name, storage = st, optional = bit flags 0, primary = bit flags 1,
      unique = bit flags 2, indexed = bit flags 3\<rparr>" and r3: "r3 = r'"
    and k': "k' = (insert name names, n + of_bool (bit flags 1))"
    using e by simp_all
  have c1: "name_ok MAX_NAME_BYTES name" "consumes r (sized (as_bytes name)) r1" using t1 r by (simp_all add: text_iff)
  then have c2: "name_ok MAX_TYPE_BYTES st" "consumes r1 (sized (as_bytes st)) r2" using t2 r by (simp_all add: text_iff)
  then have c3: "consumes r2 [flags] r'" using t3(1) r3 c1 r by (simp add: reader_u8_iff)
  have fl: "field_flags x = flags" using flags_of_decoded [OF m] x by simp
  have "consumes r (field_bytes x) r'"
    using c1(2) c2(2) c3 by (auto simp: field_bytes_def fl consumes_append) (auto simp: x)
  moreover have "field_wf allowed x" using c1 c2 m by (simp only: field_wf_def fl) (simp add: x)
  ultimately show ?thesis using t1(2) by (simp add: field_fits_def field_upd_def k k' x)
qed

lemma decode_field_complete:
  assumes r: "small r" and f: "field_fits allowed k x" and c: "consumes r (field_bytes x) r'"
  shows "decode_field (allowed AND 15) (k, r) = Ok (x, field_upd k x, r')"
proof -
  obtain r1 r2 where c1: "consumes r (sized (as_bytes (field_name x))) r1"
    and c2: "consumes r1 (sized (as_bytes (storage x))) r2" and c3: "consumes r2 [field_flags x] r'"
    using c by (auto simp: field_bytes_def consumes_append)
  have t1: "reader_text MAX_NAME_BYTES ''field name'' r = Ok (field_name x, r1)"
    using c1 r f by (simp add: text_iff field_fits_def field_wf_def)
  have t2: "reader_text MAX_TYPE_BYTES ''field storage type'' r1 = Ok (storage x, r2)"
    using c1 c2 r f by (simp add: text_iff field_fits_def field_wf_def)
  have t3: "reader_u8 ''field flags'' r2 = Ok (field_flags x, r')"
    using c1 c2 c3 r by (simp add: reader_u8_iff)
  show ?thesis
    using t1 t2 t3 f
    by (cases k) (simp add: decode_field_def field_fits_def field_wf_def field_upd_def bit_field_flags Let_def)
qed

interpretation field_codec:
  item_codec encode_field "decode_field (allowed AND 15)" field_bytes "field_fits allowed" field_upd "field_admits allowed"
  for allowed
proof
  fix x k p k' p'
  assume "encode_field x (k, p) = Ok (k', p')" "field_admits allowed x"
  then show "field_fits allowed k x \<and> k' = field_upd k x \<and> p' = p @ field_bytes x"
    by (cases k) (auto simp: encode_field_def field_fits_def field_wf_def field_upd_def field_bytes_def
        field_admits_def name_ok_def outcome_simps split: if_splits)
next
  fix r k x k' r'
  assume "small r"
  then show "decode_field (allowed AND 15) (k, r) = Ok (x, k', r') \<longleftrightarrow>
      field_fits allowed k x \<and> k' = field_upd k x \<and> consumes r (field_bytes x) r'"
    using decode_field_sound decode_field_complete by blast
qed

section \<open>Constraints\<close>

lemma flag_one:
  assumes "flags AND NOT (1 :: byte) = 0"
  shows "of_bool (bit flags 0) = flags"
proof (rule bit_eqI)
  fix n :: nat
  show "bit (of_bool (bit flags 0) :: byte) n = bit flags n"
  proof (cases "n = 0")
    case False
    have "bit flags n \<Longrightarrow> bit (flags AND NOT 1) n"
      using False bit_imp_le_length [of flags n] by (simp add: bit_simps bit_1_iff)
    then have "\<not> bit flags n" unfolding assms by auto
    then show ?thesis using False by (simp add: bit_simps)
  qed (simp add: bit_simps)
qed

lemma flag_of_bool [simp]: "of_bool b AND NOT (1 :: byte) = 0" "bit (of_bool b :: byte) 0 = b"
  by (cases b; simp)+

definition names_bytes :: "string list \<Rightarrow> byte list" where
  "names_bytes fs = concat (map (\<lambda>f. sized (as_bytes f)) fs)"

definition constraint_bytes :: "constraint \<Rightarrow> byte list" where
  "constraint_bytes c = sized (as_bytes (constraint_name c)) @ [of_bool (constraint_unique c)]
     @ le_bytes 4 (length (constraint_fields c)) @ names_bytes (constraint_fields c)"

definition constraint_wf :: "string set \<Rightarrow> nat \<Rightarrow> constraint \<Rightarrow> bool" where
  "constraint_wf names n c \<longleftrightarrow> name_ok MAX_NAME_BYTES (constraint_name c) \<and> constraint_name c \<notin> names
     \<and> 2 \<le> length (constraint_fields c) \<and> length (constraint_fields c) \<le> n
     \<and> length (constraint_fields c) < 2 ^ 32
     \<and> chain (constrained_fits names) (insert_name (\<lambda>f. f)) {} (constraint_fields c)"

definition constraint_fits :: "string set \<Rightarrow> nat \<Rightarrow> string set \<Rightarrow> constraint \<Rightarrow> bool" where
  "constraint_fits names n seen c \<longleftrightarrow> constraint_name c \<notin> seen \<and> constraint_wf names n c"

definition constraint_admits :: "constraint \<Rightarrow> bool" where
  "constraint_admits c \<longleftrightarrow> utf8_valid (constraint_name c) \<and> list_all utf8_valid (constraint_fields c)"

lemma decode_constraint_sound:
  assumes r: "small r" and d: "decode_constraint names n (k, r) = Ok (x, k', r')"
  shows "constraint_fits names n k x \<and> k' = insert_name constraint_name k x \<and> consumes r (constraint_bytes x) r'"
proof -
  from d obtain name r1 flags r2 m r3 fs u r4
    where t1: "reader_text MAX_NAME_BYTES ''constraint name'' r = Ok (name, r1)" "\<not> (name \<in> names \<or> name \<in> k)"
      and t2: "reader_u8 ''constraint flags'' r1 = Ok (flags, r2)" "\<not> flags AND NOT 1 \<noteq> 0"
      and t3: "reader_u32 ''constraint field count'' r2 = Ok (m, r3)" "\<not> (m < 2 \<or> m > n)"
      and t4: "read_items m (decode_constrained names) {} r3 = Ok (fs, u, r4)"
      and e: "Ok (\<lparr>constraint_name = name, constraint_unique = (flags AND 1 \<noteq> 0), constraint_fields = fs\<rparr>,
         insert name k, r4) = (Ok (x, k', r') :: (io_error, _) outcome)"
    unfolding decode_constraint_def prod.case
    by (elim outcome_elims) (rule that)
  have c1: "name_ok MAX_NAME_BYTES name" "consumes r (sized (as_bytes name)) r1" using t1 r by (simp_all add: text_iff)
  then have c2: "consumes r1 [flags] r2" using t2 r by (simp add: reader_u8_iff)
  then have c3: "m < 2 ^ 32" "consumes r2 (le_bytes 4 m) r3" using t3 c1 r by (simp_all add: reader_u32_iff)
  then have c4: "length fs = m" "chain (constrained_fits names) (insert_name (\<lambda>f. f)) {} fs" "consumes r3 (names_bytes fs) r4"
    using t4 c1 c2 r constrained_codec.get_items [OF _ consumes_at [OF c3(2)], of m names "{}" fs u r4]
    by (simp_all add: names_bytes_def)
  have fl: "of_bool (bit flags 0) = flags" using t2(2) by (intro flag_one) (simp only: not_not)
  have x: "x = \<lparr>constraint_name = name, constraint_unique = bit flags 0, constraint_fields = fs\<rparr>"
      "k' = insert name k" "r4 = r'" using e by simp_all
  have "consumes r (constraint_bytes x) r'"
    using c1(2) c2 c3(2) c4 x(3) unfolding constraint_bytes_def x(1)
    by (auto simp only: constraint.simps fl consumes_append)
  moreover have "constraint_fits names n k x"
    using t1(2) t3(2) c1 c3 c4 by (simp add: constraint_fits_def constraint_wf_def x)
  ultimately show ?thesis by (simp add: x insert_name_def)
qed

lemma decode_constraint_complete:
  assumes r: "small r" and f: "constraint_fits names n k x" and c: "consumes r (constraint_bytes x) r'"
  shows "decode_constraint names n (k, r) = Ok (x, insert_name constraint_name k x, r')"
proof -
  let ?fs = "constraint_fields x"
  obtain r1 r2 r3 where c1: "consumes r (sized (as_bytes (constraint_name x))) r1"
    and c2: "consumes r1 [of_bool (constraint_unique x)] r2"
    and c3: "consumes r2 (le_bytes 4 (length ?fs)) r3" and c4: "consumes r3 (names_bytes ?fs) r'"
    using c unfolding constraint_bytes_def by (auto simp only: consumes_append)
  have t1: "reader_text MAX_NAME_BYTES ''constraint name'' r = Ok (constraint_name x, r1)"
    using c1 r f by (simp add: text_iff constraint_fits_def constraint_wf_def)
  have t2: "reader_u8 ''constraint flags'' r1 = Ok (of_bool (constraint_unique x), r2)"
    using c1 c2 r by (simp add: reader_u8_iff)
  have t3: "reader_u32 ''constraint field count'' r2 = Ok (length ?fs, r3)"
    using c1 c2 c3 r f by (simp add: reader_u32_iff constraint_fits_def constraint_wf_def)
  have t4: "\<exists>u. read_items (length ?fs) (decode_constrained names) {} r3 = Ok (?fs, u, r')"
    using c1 c2 c3 c4 r f constrained_codec.get_items [OF _ consumes_at [OF c3], of "length ?fs" names "{}" ?fs _ r']
    by (simp add: names_bytes_def constraint_fits_def constraint_wf_def)
  show ?thesis
    using t1 t2 t3 t4 f
    by (auto simp: decode_constraint_def constraint_fits_def constraint_wf_def insert_name_def)
qed

interpretation constraint_codec:
  item_codec "encode_constraint names n" "decode_constraint names n" constraint_bytes
    "constraint_fits names n" "insert_name constraint_name" constraint_admits
  for names n
proof
  fix x k p k' p'
  assume p: "encode_constraint names n x (k, p) = Ok (k', p')" and a: "constraint_admits x"
  from p obtain p1 p3 p4 u
    where t1: "push_bytes p (as_bytes (constraint_name x)) MAX_NAME_BYTES ''constraint name'' = Ok p1"
      and t2: "\<not> (constraint_name x \<in> k \<or> constraint_name x \<in> names)"
      and t3: "\<not> (length (constraint_fields x) < 2 \<or> length (constraint_fields x) > n)"
      and t4: "push_u32 (p1 @ [of_bool (constraint_unique x)]) (length (constraint_fields x)) ''constraint field count'' = Ok p3"
      and fs: "foldO (encode_constrained names) (constraint_fields x) ({}, p3) = Ok (u, p4)"
      and e: "Ok (insert (constraint_name x) k, p4) = (Ok (k', p') :: (io_error, _) outcome)"
    unfolding encode_constraint_def prod.case Let_def by (elim outcome_elims) (rule that)
  have p3: "p3 = p @ sized (as_bytes (constraint_name x)) @ [of_bool (constraint_unique x)]
         @ le_bytes 4 (length (constraint_fields x))"
      "length (constraint_name x) \<le> MAX_NAME_BYTES" "length (constraint_fields x) < 2 ^ 32"
    using t1 t4 by (simp_all add: outcome_simps)
  have "list_all utf8_valid (constraint_fields x)" using a by (simp add: constraint_admits_def)
  from constrained_codec.put_items [OF fs this] p3 t2 t3 e a
  show "constraint_fits names n k x \<and> k' = insert_name constraint_name k x \<and> p' = p @ constraint_bytes x"
    by (simp add: constraint_fits_def constraint_wf_def constraint_admits_def name_ok_def insert_name_def
        constraint_bytes_def names_bytes_def)
next
  fix r k x k' r'
  assume "small r"
  then show "decode_constraint names n (k, r) = Ok (x, k', r') \<longleftrightarrow>
      constraint_fits names n k x \<and> k' = insert_name constraint_name k x \<and> consumes r (constraint_bytes x) r'"
    using decode_constraint_sound [of r names n k x k' r'] decode_constraint_complete [of r names n k x r'] by auto
qed

section \<open>Tables\<close>

definition fields_bytes :: "field list \<Rightarrow> byte list" where
  "fields_bytes fs = concat (map field_bytes fs)"

definition constraints_bytes :: "constraint list \<Rightarrow> byte list" where
  "constraints_bytes cs = concat (map constraint_bytes cs)"

definition rows_bytes :: "byte list list \<Rightarrow> byte list" where
  "rows_bytes rs = concat (map sized rs)"

definition constraint_part :: "bool \<Rightarrow> constraint list \<Rightarrow> byte list" where
  "constraint_part sc cs = (if sc then le_bytes 4 (length cs) @ constraints_bytes cs else [])"

definition table_bytes :: "bool \<Rightarrow> table \<Rightarrow> byte list" where
  "table_bytes sc t = sized (as_bytes (table_name t)) @ le_bytes 4 (length (table_fields t))
     @ fields_bytes (table_fields t) @ constraint_part sc (constraints t)
     @ le_bytes 8 (length (rows t)) @ rows_bytes (rows t)"

definition fields_wf :: "byte \<Rightarrow> field list \<Rightarrow> bool" where
  "fields_wf allowed fs \<longleftrightarrow> fs \<noteq> [] \<and> length fs \<le> MAX_FIELDS
     \<and> chain (field_fits allowed) field_upd ({}, 0) fs \<and> snd (foldl field_upd ({}, 0) fs) = 1"

definition constraints_wf :: "bool \<Rightarrow> field list \<Rightarrow> constraint list \<Rightarrow> bool" where
  "constraints_wf sc fs cs \<longleftrightarrow> length cs \<le> MAX_FIELDS \<and> (\<not> sc \<longrightarrow> cs = [])
     \<and> chain (constraint_fits (field_name ` set fs) (length fs)) (insert_name constraint_name) {} cs"

definition rows_wf :: "byte list list \<Rightarrow> bool" where
  "rows_wf rs \<longleftrightarrow> length rs \<le> MAX_ROWS \<and> chain row_fits (\<lambda>_ _. ()) () rs"

definition table_wf :: "byte \<Rightarrow> bool \<Rightarrow> table \<Rightarrow> bool" where
  "table_wf allowed sc t \<longleftrightarrow> name_ok MAX_NAME_BYTES (table_name t) \<and> fields_wf allowed (table_fields t)
     \<and> constraints_wf sc (table_fields t) (constraints t) \<and> rows_wf (rows t)"

definition table_fits :: "byte \<Rightarrow> bool \<Rightarrow> string set \<Rightarrow> table \<Rightarrow> bool" where
  "table_fits allowed sc k t \<longleftrightarrow> table_name t \<notin> k \<and> table_wf allowed sc t"

definition table_admits :: "byte \<Rightarrow> table \<Rightarrow> bool" where
  "table_admits allowed t \<longleftrightarrow> utf8_valid (table_name t) \<and> list_all (field_admits allowed) (table_fields t)
     \<and> list_all constraint_admits (constraints t) \<and> length (constraints t) \<le> MAX_FIELDS"

text \<open>The three counted lists of a table, each read after its count.\<close>

lemma read_fields_iff:
  assumes r: "small r" and at: "consumes q bs r" and n: "n \<noteq> 0" "n \<le> MAX_FIELDS"
  shows "read_items n (decode_field (allowed AND 15)) ({}, 0) r = Ok (fs, (u, Suc 0), r') \<longleftrightarrow>
    length fs = n \<and> fields_wf allowed fs \<and> (u, Suc 0) = foldl field_upd ({}, 0) fs \<and> consumes r (fields_bytes fs) r'"
  using n field_codec.get_items [OF r consumes_at [OF at], of n allowed "({}, 0)" fs "(u, Suc 0)" r']
  by (auto simp: fields_wf_def fields_bytes_def) (metis snd_conv)+

lemma read_constraints_iff:
  assumes r: "small r" and at: "consumes q bs r"
  shows "read_items n (decode_constraint names m) {} r = Ok (cs, u, r') \<longleftrightarrow>
    length cs = n \<and> chain (constraint_fits names m) (insert_name constraint_name) {} cs
      \<and> u = foldl (insert_name constraint_name) {} cs \<and> consumes r (constraints_bytes cs) r'"
  using constraint_codec.get_items [OF r consumes_at [OF at], of n names m "{}" cs u r']
  by (simp add: constraints_bytes_def)

lemma read_rows_iff:
  assumes r: "small r" and at: "consumes q bs r" and n: "n \<le> MAX_ROWS"
  shows "read_items n decode_row () r = Ok (rs, u, r') \<longleftrightarrow>
    length rs = n \<and> rows_wf rs \<and> consumes r (rows_bytes rs) r'"
  using n row_codec.get_items [OF r consumes_at [OF at], of n "()" rs u r'] by (auto simp: rows_bytes_def rows_wf_def)

lemma read_constraint_count_iff:
  assumes r: "small r" and at: "consumes q bs r"
  shows "(if sc then reader_u32 c r else Ok (0, r)) = Ok (n, r') \<longleftrightarrow>
    n < 2 ^ 32 \<and> (\<not> sc \<longrightarrow> n = 0) \<and> consumes r (if sc then le_bytes 4 n else []) r'"
  using assms by (auto simp: reader_u32_iff consumes_Nil consumes_at)

lemma decode_table_sound:
  assumes r: "small r" and d: "decode_table (allowed AND 15) sc (k, r) = Ok (x, k', r')"
  shows "table_fits allowed sc k x \<and> k' = insert_name table_name k x \<and> consumes r (table_bytes sc x) r'"
proof -
  from d obtain name r1 n r2 fs u pc r3 cn r4 cs u' r5 rn r6 rs u'' r7
    where t1: "reader_text MAX_NAME_BYTES ''table name'' r = Ok (name, r1)" "name \<notin> k"
      and t2: "reader_u32 ''field count'' r1 = Ok (n, r2)" "\<not> (n = 0 \<or> n > MAX_FIELDS)"
      and t3: "read_items n (decode_field (allowed AND 15)) ({}, 0) r2 = Ok (fs, (u, pc), r3)" "\<not> pc \<noteq> 1"
      and t4: "(if sc then reader_u32 ''constraint count'' r3 else Ok (0, r3)) = Ok (cn, r4)" "\<not> cn > MAX_FIELDS"
      and t5: "read_items cn (decode_constraint (field_name ` set fs) (length fs)) {} r4 = Ok (cs, u', r5)"
      and t6: "reader_u64 ''row count'' r5 = Ok (rn, r6)" "\<not> rn > MAX_ROWS"
      and t7: "read_items rn decode_row () r6 = Ok (rs, u'', r7)"
      and e: "Ok (\<lparr>table_name = name, table_fields = fs, constraints = cs, rows = rs\<rparr>, insert name k, r7)
        = (Ok (x, k', r') :: (io_error, _) outcome)"
    unfolding decode_table_def prod.case by (elim outcome_elims) (rule that)
  have pc: "pc = Suc 0" using t3(2) by simp
  have c1: "name_ok MAX_NAME_BYTES name" "consumes r (sized (as_bytes name)) r1" using t1 r by (simp_all add: text_iff)
  then have s1: "small r1" using r by simp
  then have c2: "consumes r1 (le_bytes 4 n) r2" using t2 by (simp add: reader_u32_iff)
  then have s2: "small r2" using s1 by simp
  have c3: "length fs = n" "fields_wf allowed fs" "consumes r2 (fields_bytes fs) r3"
    using t3(1) t2(2) read_fields_iff [OF s2 c2, of n allowed fs u r3] by (auto simp: pc)
  then have s3: "small r3" using s2 by simp
  have c4: "\<not> sc \<longrightarrow> cn = 0" "consumes r3 (if sc then le_bytes 4 cn else []) r4"
    using t4(1) read_constraint_count_iff [OF s3 c3(3)] by auto
  then have s4: "small r4" using s3 by simp
  have c5: "length cs = cn" "chain (constraint_fits (field_name ` set fs) (length fs)) (insert_name constraint_name) {} cs"
      "consumes r4 (constraints_bytes cs) r5"
    using t5 read_constraints_iff [OF s4 c4(2)] by auto
  then have s5: "small r5" using s4 by simp
  then have c6: "consumes r5 (le_bytes 8 rn) r6" using t6 by (simp add: reader_u64_iff)
  then have s6: "small r6" using s5 by simp
  have c7: "length rs = rn" "rows_wf rs" "consumes r6 (rows_bytes rs) r7"
    using t7 t6(2) read_rows_iff [OF s6 c6] by auto
  have part: "consumes r3 (constraint_part sc cs) r5"
    using c4 c5 consumes_append [of r3 "if sc then le_bytes 4 cn else []" "constraints_bytes cs" r5]
    by (auto simp: constraint_part_def constraints_bytes_def split: if_splits)
  have x: "x = \<lparr>table_name = name, table_fields = fs, constraints = cs, rows = rs\<rparr>" "k' = insert name k" "r7 = r'"
    using e by simp_all
  have "constraints_wf sc fs cs" using c4 c5 t4(2) by (auto simp: constraints_wf_def)
  then have "table_fits allowed sc k x"
    using t1(2) c1(1) c3(2) c7(2) by (simp add: table_fits_def table_wf_def x)
  moreover have "consumes r (table_bytes sc x) r'"
    using c1(2) c2 c3(1,3) part c6 c7(1,3) x
    by (simp add: table_bytes_def) (meson consumes_appendI)
  ultimately show ?thesis by (simp add: x insert_name_def)
qed

lemma decode_table_complete:
  assumes r: "small r" and f: "table_fits allowed sc k x" and c: "consumes r (table_bytes sc x) r'"
  shows "decode_table (allowed AND 15) sc (k, r) = Ok (x, insert_name table_name k x, r')"
proof -
  let ?fs = "table_fields x" and ?cs = "constraints x" and ?rs = "rows x"
  have wf: "table_name x \<notin> k" "name_ok MAX_NAME_BYTES (table_name x)" "fields_wf allowed ?fs"
    "constraints_wf sc ?fs ?cs" "rows_wf ?rs"
    using f by (simp_all add: table_fits_def table_wf_def)
  obtain r1 r2 r3 r5 r6 where c1: "consumes r (sized (as_bytes (table_name x))) r1"
    and c2: "consumes r1 (le_bytes 4 (length ?fs)) r2" and c3: "consumes r2 (fields_bytes ?fs) r3"
    and part: "consumes r3 (constraint_part sc ?cs) r5" and c6: "consumes r5 (le_bytes 8 (length ?rs)) r6"
    and c7: "consumes r6 (rows_bytes ?rs) r'"
    using c unfolding table_bytes_def by (auto simp only: consumes_append)
  have s: "small r1" "small r2" "small r3" "small r5" "small r6"
    using r c1 c2 c3 part c6 by simp_all
  have lens: "?fs \<noteq> []" "length ?fs \<le> MAX_FIELDS" "length ?cs \<le> MAX_FIELDS" "length ?rs \<le> MAX_ROWS" "\<not> sc \<longrightarrow> ?cs = []"
    using wf by (simp_all add: fields_wf_def constraints_wf_def rows_wf_def)
  note small_lens = le_less_trans [OF lens(2) limits_32(4)] le_less_trans [OF lens(3) limits_32(4)]
    le_less_trans [OF lens(4) limits_32(6)]
  obtain r4 where c4: "consumes r3 (if sc then le_bytes 4 (length ?cs) else []) r4" and c5: "consumes r4 (constraints_bytes ?cs) r5"
    using part lens(5) consumes_at [OF c3] consumes_at [OF part]
    by (auto simp: constraint_part_def constraints_bytes_def consumes_append consumes_Nil split: if_splits)
  have s4: "small r4" using s(3) c4 by simp
  have t1: "reader_text MAX_NAME_BYTES ''table name'' r = Ok (table_name x, r1)"
    using c1 r wf by (simp add: text_iff)
  have t2: "reader_u32 ''field count'' r1 = Ok (length ?fs, r2)"
    using c2 s(1) small_lens by (simp add: reader_u32_iff)
  obtain u where u: "(u, Suc 0) = foldl field_upd ({}, 0) ?fs"
    using wf(3) by (metis One_nat_def fields_wf_def prod.collapse)
  have t3: "read_items (length ?fs) (decode_field (allowed AND 15)) ({}, 0) r2 = Ok (?fs, (u, Suc 0), r3)"
    using read_fields_iff [OF s(2) c2, of "length ?fs" allowed ?fs u r3] wf(3) u c3 lens by simp
  have t4: "(if sc then reader_u32 ''constraint count'' r3 else Ok (0, r3)) = Ok (length ?cs, r4)"
    using read_constraint_count_iff [OF s(3) c3, of sc "''constraint count''" "length ?cs" r4] c4 lens small_lens
    by simp
  have t5: "\<exists>u. read_items (length ?cs) (decode_constraint (field_name ` set ?fs) (length ?fs)) {} r4 = Ok (?cs, u, r5)"
    using read_constraints_iff [OF s4 c4, of "length ?cs" "field_name ` set ?fs" "length ?fs" ?cs _ r5] wf(4) c5
    by (simp add: constraints_wf_def)
  have t6: "reader_u64 ''row count'' r5 = Ok (length ?rs, r6)"
    using c6 s(4) small_lens by (simp add: reader_u64_iff)
  have t7: "read_items (length ?rs) decode_row () r6 = Ok (?rs, (), r')"
    using read_rows_iff [OF s(5) c6, of "length ?rs" ?rs "()" r'] wf(5) c7 lens by simp
  show ?thesis
    using t1 t2 t3 t4 t5 t6 t7 wf(1) lens
    by (auto simp: decode_table_def insert_name_def)
qed

interpretation table_codec:
  item_codec "encode_table sc" "decode_table (allowed AND 15) sc" "table_bytes sc" "table_fits allowed sc"
    "insert_name table_name" "table_admits allowed"
  for allowed sc
proof
  fix x k p k' p'
  assume p: "encode_table sc x (k, p) = Ok (k', p')" and a: "table_admits allowed x"
  let ?fs = "table_fields x" and ?cs = "constraints x" and ?rs = "rows x"
  from p obtain p1 p2 u pc p3 p6 p7 u' p8
    where t0: "table_name x \<notin> k"
      and t1: "push_bytes p (as_bytes (table_name x)) MAX_NAME_BYTES ''table name'' = Ok p1"
      and t2: "\<not> (?fs = [] \<or> length ?fs > MAX_FIELDS)" "push_u32 p1 (length ?fs) ''field count'' = Ok p2"
      and t3: "foldO encode_field ?fs (({}, 0), p2) = Ok ((u, pc), p3)" "\<not> pc \<noteq> 1" "\<not> length ?rs > MAX_ROWS"
      and t4: "(if sc then bindO (push_u32 p3 (length ?cs) ''constraint count'') (\<lambda>p4.
             bindO (foldO (encode_constraint (field_name ` set ?fs) (length ?fs)) ?cs ({}, p4)) (\<lambda>(_, p5). Ok p5))
        else if ?cs \<noteq> []
        then Err (invalid ''legacy DISP Data formats cannot encode composite constraints'')
        else Ok p3) = Ok p6"
      and t5: "push_u64 p6 (length ?rs) ''row count'' = Ok p7"
      and t6: "foldO encode_row ?rs ((), p7) = Ok (u', p8)"
      and e: "Ok (insert (table_name x) k, p8) = (Ok (k', p') :: (io_error, _) outcome)"
    unfolding encode_table_def prod.case by (elim outcome_elims) (rule that)
  show "table_fits allowed sc k x \<and> k' = insert_name table_name k x \<and> p' = p @ table_bytes sc x"
  proof -
    have ad: "utf8_valid (table_name x)" "list_all (field_admits allowed) ?fs" "list_all constraint_admits ?cs" "length ?cs \<le> MAX_FIELDS"
      using a by (simp_all add: table_admits_def)
    have p2: "p2 = p @ sized (as_bytes (table_name x)) @ le_bytes 4 (length ?fs)" "length (table_name x) \<le> MAX_NAME_BYTES"
      using t1 t2(2) by (simp_all add: outcome_simps)
    have fs: "fields_wf allowed ?fs" "p3 = p2 @ fields_bytes ?fs"
      using field_codec.put_items [OF t3(1) ad(2)] t2(1) t3(2)
      by (auto simp: fields_wf_def fields_bytes_def dest: arg_cong [of _ _ snd])
    have cs: "constraints_wf sc ?fs ?cs \<and> p6 = p3 @ constraint_part sc ?cs"
    proof (cases sc)
      case True
      with t4 obtain u where "foldO (encode_constraint (field_name ` set ?fs) (length ?fs)) ?cs
          ({}, p3 @ le_bytes 4 (length ?cs)) = Ok (u, p6)"
        by (auto simp: outcome_simps)
      from constraint_codec.put_items [OF this ad(3)] show ?thesis
        using ad(4) True by (simp add: constraints_wf_def constraint_part_def constraints_bytes_def)
    qed (use t4 in \<open>auto simp: constraints_wf_def constraint_part_def split: if_splits\<close>)
    have rs: "rows_wf ?rs" "p8 = p6 @ le_bytes 8 (length ?rs) @ rows_bytes ?rs"
      using row_codec.put_items [OF t6] t5 t3(3) by (auto simp: rows_wf_def rows_bytes_def outcome_simps list_all_iff)
    show ?thesis
      using t0 ad(1) p2 fs cs rs e
      by (simp add: table_fits_def table_wf_def name_ok_def insert_name_def table_bytes_def)
  qed
next
  fix r k x k' r'
  assume "small r"
  then show "decode_table (allowed AND 15) sc (k, r) = Ok (x, k', r') \<longleftrightarrow>
      table_fits allowed sc k x \<and> k' = insert_name table_name k x \<and> consumes r (table_bytes sc x) r'"
    using decode_table_sound [of r allowed sc k x k' r'] decode_table_complete [of r allowed sc k x r'] by auto
qed

section \<open>Payloads\<close>

definition payload_bytes :: "bool \<Rightarrow> snapshot \<Rightarrow> byte list" where
  "payload_bytes sc s = le_bytes 4 (length (tables s)) @ concat (map (table_bytes sc) (tables s))"

definition snapshot_fits :: "byte \<Rightarrow> bool \<Rightarrow> snapshot \<Rightarrow> bool" where
  "snapshot_fits allowed sc s \<longleftrightarrow> length (tables s) \<le> MAX_TABLES
     \<and> chain (table_fits allowed sc) (insert_name table_name) {} (tables s)"

definition sorted_snapshot :: "snapshot \<Rightarrow> snapshot" where
  "sorted_snapshot s = \<lparr>tables = sort_key table_name (tables s)\<rparr>"

definition snapshot_admits :: "byte \<Rightarrow> snapshot \<Rightarrow> bool" where
  "snapshot_admits allowed s \<longleftrightarrow> list_all (table_admits allowed) (tables s)"

lemma snapshot_eq: "s = \<lparr>tables = ts\<rparr> \<longleftrightarrow> tables s = ts" for s :: snapshot
  by (cases s) auto

lemma decode_payload_iff:
  assumes p: "length p \<le> USIZE_MAX"
  shows "decode_payload p (allowed AND 15) sc = Ok s \<longleftrightarrow> snapshot_fits allowed sc s \<and> p = payload_bytes sc s"
proof
  let ?r = "\<lparr>rd_bytes = p, rd_at = 0\<rparr>"
  have r: "small ?r" using p by (simp add: small_def)
  {
    assume "decode_payload p (allowed AND 15) sc = Ok s"
    then obtain n r1 ts u r2
      where t1: "reader_u32 ''table count'' ?r = Ok (n, r1)" "\<not> n > MAX_TABLES"
        and t2: "read_items n (decode_table (allowed AND 15) sc) {} r1 = Ok (ts, u, r2)"
        and t3: "\<not> rd_at r2 \<noteq> length p" and e: "Ok \<lparr>tables = ts\<rparr> = (Ok s :: (io_error, _) outcome)"
      unfolding decode_payload_def Let_def by (elim outcome_elims) (rule that)
    have c1: "consumes ?r (le_bytes 4 n) r1" using t1(1) r by (simp add: reader_u32_iff)
    have c2: "length ts = n" "chain (table_fits allowed sc) (insert_name table_name) {} ts"
        "consumes r1 (concat (map (table_bytes sc) ts)) r2"
      using t2 c1 r table_codec.get_items [OF _ consumes_at [OF c1]] by auto
    have "consumes ?r (payload_bytes sc s) r2"
      using consumes_appendI [OF c1 c2(3)] c2(1) e by (auto simp: payload_bytes_def)
    then have "p = payload_bytes sc s" using t3 consumes_all [of p "payload_bytes sc s" r2] by simp
    then show "snapshot_fits allowed sc s \<and> p = payload_bytes sc s"
      using t1(2) c2 e by (auto simp: snapshot_fits_def)
  }
  {
    assume s: "snapshot_fits allowed sc s \<and> p = payload_bytes sc s"
    let ?n = "length (tables s)" and ?r2 = "\<lparr>rd_bytes = p, rd_at = length p\<rparr>"
    have n: "?n \<le> MAX_TABLES" "?n < 2 ^ 32"
      using s le_less_trans [OF _ limits_32(5), of ?n] by (simp_all add: snapshot_fits_def)
    have "consumes ?r (payload_bytes sc s) ?r2" using s consumes_all [of p "payload_bytes sc s" ?r2] by simp
    then obtain r1 where c1: "consumes ?r (le_bytes 4 ?n) r1" and c2: "consumes r1 (concat (map (table_bytes sc) (tables s))) ?r2"
      by (auto simp: payload_bytes_def consumes_append)
    have t1: "reader_u32 ''table count'' ?r = Ok (?n, r1)" using c1 r n by (simp add: reader_u32_iff)
    have t2: "\<exists>u. read_items ?n (decode_table (allowed AND 15) sc) {} r1 = Ok (tables s, u, ?r2)"
      using s c1 c2 r table_codec.get_items [OF _ consumes_at [OF c1], of ?n allowed sc "{}" "tables s" _ ?r2]
      by (simp add: snapshot_fits_def)
    show "decode_payload p (allowed AND 15) sc = Ok s"
      using t1 t2 n by (auto simp: decode_payload_def snapshot_eq [symmetric])
  }
qed

lemma encode_table_length:
  "encode_table sc t (k, p) = Ok (k', p') \<Longrightarrow> length p' \<le> MAX_FILE_BYTES - PAGE_SIZE"
  unfolding encode_table_def prod.case by (elim outcome_elims) auto

lemma encode_tables_length:
  "foldO (encode_table sc) ts (k, p) = Ok (k', p') \<Longrightarrow> length p \<le> MAX_FILE_BYTES - PAGE_SIZE \<Longrightarrow>
     length p' \<le> MAX_FILE_BYTES - PAGE_SIZE"
proof (induction ts arbitrary: k p)
  case (Cons t ts)
  then obtain k1 p1 where *: "encode_table sc t (k, p) = Ok (k1, p1)" "foldO (encode_table sc) ts (k1, p1) = Ok (k', p')"
    by (auto simp: outcome_simps)
  then show ?case using Cons.IH [OF *(2)] encode_table_length [OF *(1)] by simp
qed simp

lemma encode_payload_sound:
  assumes e: "encode_payload_with_constraints s sc = Ok p" and a: "snapshot_admits allowed s"
  shows "snapshot_fits allowed sc (sorted_snapshot s) \<and> p = payload_bytes sc (sorted_snapshot s)
    \<and> length p \<le> MAX_FILE_BYTES - PAGE_SIZE"
proof -
  let ?ts = "sort_key table_name (tables s)"
  from e obtain p0 u where t0: "\<not> length (tables s) > MAX_TABLES" and t1: "push_u32 [] (length ?ts) ''table count'' = Ok p0"
    and t2: "foldO (encode_table sc) ?ts ({}, p0) = Ok (u, p)"
    unfolding encode_payload_with_constraints_def Let_def by (elim outcome_elims) auto
  have p0: "p0 = le_bytes 4 (length ?ts)" using t1 by (simp add: outcome_simps)
  have ad: "list_all (table_admits allowed) ?ts" using a by (simp add: snapshot_admits_def list_all_iff)
  have "length p0 \<le> MAX_FILE_BYTES - PAGE_SIZE" by (simp add: p0 data_limits)
  with encode_tables_length [OF t2] table_codec.put_items [OF t2 ad] t0 p0 show ?thesis
    by (simp add: snapshot_fits_def sorted_snapshot_def payload_bytes_def)
qed

text \<open>No byte string makes the decoder panic.\<close>

lemma decode_field_np: "no_panic (decode_field allowed s)"
  by (cases s) (auto simp: decode_field_def Let_def intro!: no_panic_bindO)

lemma decode_constrained_np: "no_panic (decode_constrained names s)"
  by (cases s) (auto simp: decode_constrained_def intro!: no_panic_bindO)

lemma decode_constraint_np: "no_panic (decode_constraint names n s)"
  by (cases s) (auto simp: decode_constraint_def intro!: no_panic_bindO read_items_np decode_constrained_np)

lemma decode_row_np: "no_panic (decode_row s)"
  by (cases s) (auto simp: decode_row_def intro!: no_panic_bindO)

lemma decode_table_np: "no_panic (decode_table allowed sc s)"
  by (cases s)
     (auto simp: decode_table_def intro!: no_panic_bindO read_items_np decode_field_np decode_constraint_np decode_row_np)

lemma decode_payload_np: "no_panic (decode_payload p allowed sc)"
  by (auto simp: decode_payload_def Let_def intro!: no_panic_bindO read_items_np decode_table_np)

section \<open>The invariant of snapshots\<close>

definition field_ok :: "field \<Rightarrow> bool" where
  "field_ok f \<longleftrightarrow> name_ok MAX_NAME_BYTES (field_name f) \<and> name_ok MAX_TYPE_BYTES (storage f)"

definition constraint_ok :: "field list \<Rightarrow> constraint \<Rightarrow> bool" where
  "constraint_ok fs c \<longleftrightarrow> name_ok MAX_NAME_BYTES (constraint_name c) \<and> constraint_name c \<notin> field_name ` set fs
     \<and> 2 \<le> length (constraint_fields c) \<and> distinct (constraint_fields c)
     \<and> set (constraint_fields c) \<subseteq> field_name ` set fs"

definition table_ok :: "table \<Rightarrow> bool" where
  "table_ok t \<longleftrightarrow> name_ok MAX_NAME_BYTES (table_name t)
     \<and> length (table_fields t) \<le> MAX_FIELDS \<and> distinct (map field_name (table_fields t))
     \<and> (\<forall>f \<in> set (table_fields t). field_ok f) \<and> length (filter primary (table_fields t)) = 1
     \<and> length (constraints t) \<le> MAX_FIELDS \<and> distinct (map constraint_name (constraints t))
     \<and> (\<forall>c \<in> set (constraints t). constraint_ok (table_fields t) c)
     \<and> length (rows t) \<le> MAX_ROWS \<and> (\<forall>x \<in> set (rows t). length x \<le> MAX_ROW_BYTES)"

definition snapshot_ok :: "snapshot \<Rightarrow> bool" where
  "snapshot_ok s \<longleftrightarrow> length (tables s) \<le> MAX_TABLES \<and> distinct (map table_name (tables s))
     \<and> (\<forall>t \<in> set (tables s). table_ok t)"

lemma field_chain:
  "chain (field_fits allowed) field_upd k fs \<longleftrightarrow> distinct (map field_name fs)
     \<and> field_name ` set fs \<inter> fst k = {} \<and> (\<forall>f \<in> set fs. field_wf allowed f)"
  by (induction fs arbitrary: k) (auto simp: field_fits_def field_upd_def)

lemma field_count: "snd (foldl field_upd k fs) = snd k + length (filter primary fs)"
  by (induction fs arbitrary: k) (auto simp: field_upd_def)

lemma row_chain: "chain row_fits (\<lambda>_ _. ()) () rs \<longleftrightarrow> (\<forall>x \<in> set rs. length x \<le> MAX_ROW_BYTES)"
  by (induction rs) (auto simp: row_fits_def)

lemma constrained_chain:
  "chain (constrained_fits names) (insert_name (\<lambda>f. f)) {} fs \<longleftrightarrow>
     distinct fs \<and> set fs \<subseteq> names \<and> (\<forall>f \<in> set fs. name_ok MAX_NAME_BYTES f)"
  using chain_names [of "constrained_fits names" "\<lambda>f. f" "\<lambda>f. f \<in> names \<and> name_ok MAX_NAME_BYTES f" "insert_name (\<lambda>f. f)" "{}" fs]
  by (auto simp: constrained_fits_def insert_name_def)

lemma constraint_chain:
  "chain (constraint_fits names n) (insert_name constraint_name) {} cs \<longleftrightarrow>
     distinct (map constraint_name cs) \<and> (\<forall>c \<in> set cs. constraint_wf names n c)"
  using chain_names [of "constraint_fits names n" constraint_name "constraint_wf names n" "insert_name constraint_name" "{}" cs]
  by (auto simp: constraint_fits_def insert_name_def)

lemma table_chain:
  "chain (table_fits allowed sc) (insert_name table_name) {} ts \<longleftrightarrow>
     distinct (map table_name ts) \<and> (\<forall>t \<in> set ts. table_wf allowed sc t)"
  using chain_names [of "table_fits allowed sc" table_name "table_wf allowed sc" "insert_name table_name" "{}" ts]
  by (auto simp: table_fits_def insert_name_def)

lemma table_wf_ok: "table_wf allowed sc t \<Longrightarrow> table_ok t"
  by (auto simp: table_wf_def table_ok_def fields_wf_def constraints_wf_def rows_wf_def field_chain field_count
      constraint_chain row_chain constraint_wf_def constraint_ok_def constrained_chain field_wf_def field_ok_def)

lemma snapshot_fits_ok: "snapshot_fits allowed sc s \<Longrightarrow> snapshot_ok s"
  by (auto simp: snapshot_fits_def snapshot_ok_def table_chain table_wf_ok)

end
