(* ===== verification/DataPages.thy ===== *)
theory DataPages
  imports DataCodec
begin

unbundle bit_operations_syntax

text \<open>
  The page file of the DISP Data store, src/compiler/src/data_store.rs: \<^verbatim>\<open>fnv1a\<close>, \<^verbatim>\<open>encode_pages_version\<close>,
  \<^verbatim>\<open>decode_legacy\<close>, \<^verbatim>\<open>decode_pages\<close> and \<^verbatim>\<open>decode\<close>. A file is a header page followed by data pages, each
  with its own checksum. The writer fills a zeroed buffer slice by slice, as the source does;
  \<open>page_file\<close> is the closed form of the result, and \<^verbatim>\<open>decode_pages\<close> accepts exactly such files.
\<close>

section \<open>Checksums and slices\<close>

definition fnv_step :: "u64 \<Rightarrow> byte \<Rightarrow> u64" where
  "fnv_step h b = (h XOR ucast b) * 0x100000001b3"

definition fnv1a :: "byte list \<Rightarrow> u64" where
  "fnv1a bs = foldl fnv_step 0xcbf29ce484222325 bs"

definition MAGIC :: "byte list" where
  "MAGIC = as_bytes ''DISPDB'' @ [0x1a, 0x0a]"

definition LEGACY_VERSION :: nat where "LEGACY_VERSION = 1"
definition PAGE_VERSION :: nat where "PAGE_VERSION = 2"
definition UNIQUE_VERSION :: nat where "UNIQUE_VERSION = 3"
definition INDEX_VERSION :: nat where "INDEX_VERSION = 4"
definition VERSION :: nat where "VERSION = 5"
definition LEGACY_HEADER_SIZE :: nat where "LEGACY_HEADER_SIZE = 32"

text \<open>\<^verbatim>\<open>output[a..a + n].copy_from_slice(ys)\<close> for \<open>ys\<close> of length \<open>n\<close>.\<close>

definition copy_at :: "byte list \<Rightarrow> nat \<Rightarrow> byte list \<Rightarrow> (io_error, byte list) outcome" where
  "copy_at xs a ys = (if a + length ys \<le> length xs then Ok (overwrite xs a ys) else Panic)"

definition read_u32 :: "byte list \<Rightarrow> nat \<Rightarrow> (io_error, nat) outcome" where
  "read_u32 bs st = bindO (index_range bs st (st + 4)) (\<lambda>v. bindO (to_array 4 v) (\<lambda>a. Ok (from_le_bytes a)))"

definition read_u64 :: "byte list \<Rightarrow> nat \<Rightarrow> (io_error, nat) outcome" where
  "read_u64 bs st = bindO (index_range bs st (st + 8)) (\<lambda>v. bindO (to_array 8 v) (\<lambda>a. Ok (from_le_bytes a)))"

definition usize_try_from :: "nat \<Rightarrow> string \<Rightarrow> (io_error, nat) outcome" where
  "usize_try_from n m = (if n \<le> USIZE_MAX then Ok n else Err (invalid m))"

section \<open>Writing\<close>

definition div_ceil :: "nat \<Rightarrow> nat \<Rightarrow> nat" where
  "div_ceil a b = (a + b - 1) div b"

definition encode_header ::
  "byte list \<Rightarrow> nat \<Rightarrow> nat \<Rightarrow> byte list \<Rightarrow> nat \<Rightarrow> (io_error, byte list) outcome" where
  "encode_header output version generation payload page_count =
     bindO (copy_at output 0 MAGIC) (\<lambda>o1.
     bindO (copy_at o1 8 (le_bytes 4 version)) (\<lambda>o2.
     bindO (copy_at o2 12 (le_bytes 4 PAGE_SIZE)) (\<lambda>o3.
     bindO (copy_at o3 16 (le_bytes 8 generation)) (\<lambda>o4.
     bindO (copy_at o4 24 (le_bytes 8 (length payload))) (\<lambda>o5.
     bindO (copy_at o5 32 (le_bytes 8 page_count)) (\<lambda>o6.
     bindO (copy_at o6 40 (le_bytes 8 (unat (fnv1a payload)))) (\<lambda>o7.
     bindO (copy_at o7 48 (le_bytes 8 0)) (\<lambda>o8.
     bindO (index_range o8 0 56) (\<lambda>h.
     copy_at o8 56 (le_bytes 8 (unat (fnv1a h))))))))))))"

definition encode_page ::
  "byte list \<Rightarrow> nat \<Rightarrow> nat \<Rightarrow> byte list \<Rightarrow> (io_error, byte list) outcome" where
  "encode_page payload data_pages page output =
     (let logical_start = page * PAGE_PAYLOAD_SIZE;
          logical_end = min (logical_start + PAGE_PAYLOAD_SIZE) (length payload) in
      bindO (index_range payload logical_start logical_end) (\<lambda>data.
      let st = (page + 1) * PAGE_SIZE;
          nxt = (if page + 1 = data_pages then 0 else page + 2) in
      bindO (copy_at output st [1]) (\<lambda>o1.
      bindO (copy_at o1 (st + 4) (le_bytes 4 (page + 1))) (\<lambda>o2.
      bindO (copy_at o2 (st + 8) (le_bytes 4 (length data))) (\<lambda>o3.
      bindO (copy_at o3 (st + 12) (le_bytes 4 nxt)) (\<lambda>o4.
      bindO (copy_at o4 (st + 16) (le_bytes 8 (unat (fnv1a data)))) (\<lambda>o5.
      copy_at o5 (st + PAGE_HEADER_SIZE) data)))))))"

definition encode_pages_version ::
  "snapshot \<Rightarrow> nat \<Rightarrow> nat \<Rightarrow> bool \<Rightarrow> (io_error, byte list) outcome" where
  "encode_pages_version s generation version supports_constraints =
     bindO (encode_payload_with_constraints s supports_constraints) (\<lambda>payload.
     let data_pages = max (div_ceil (length payload) PAGE_PAYLOAD_SIZE) 1 in
     bindO (ok_or (case usize_checked_add data_pages 1 of
              None \<Rightarrow> None | Some c \<Rightarrow> if c \<le> MAX_PAGES then Some c else None)
       (invalid ''DISP Data page count exceeds its storage limit'')) (\<lambda>page_count.
     bindO (encode_header (replicate (page_count * PAGE_SIZE) 0) version generation payload page_count) (\<lambda>output.
     foldO (encode_page payload data_pages) [0..<data_pages] output)))"

definition encode_pages :: "snapshot \<Rightarrow> nat \<Rightarrow> (io_error, byte list) outcome" where
  "encode_pages s generation = encode_pages_version s generation VERSION True"

section \<open>Reading\<close>

definition decode_legacy :: "byte list \<Rightarrow> (io_error, snapshot) outcome" where
  "decode_legacy bs =
     (if length bs < LEGACY_HEADER_SIZE then Err (invalid ''DISP Data snapshot header is truncated'')
      else bindO (read_u32 bs 12) (\<lambda>flags.
      if flags \<noteq> 0 then Err (invalid ''DISP Data snapshot uses unknown required flags'')
      else bindO (read_u64 bs 16) (\<lambda>n.
      bindO (usize_try_from n ''DISP Data snapshot length does not fit this target'') (\<lambda>payload_length.
      if payload_length \<noteq> length bs - LEGACY_HEADER_SIZE
      then Err (invalid ''DISP Data snapshot length is inconsistent'')
      else bindO (index_range bs LEGACY_HEADER_SIZE (length bs)) (\<lambda>payload.
      bindO (read_u64 bs 24) (\<lambda>sum.
      if unat (fnv1a payload) \<noteq> sum then Err (invalid ''DISP Data snapshot integrity check failed'')
      else decode_payload payload 3 False))))))"

definition decode_page ::
  "byte list \<Rightarrow> nat \<Rightarrow> nat \<Rightarrow> nat \<Rightarrow> byte list \<Rightarrow> (io_error, byte list) outcome" where
  "decode_page bs page_count payload_length page payload =
     (let st = page * PAGE_SIZE in
      bindO (index_at bs st) (\<lambda>ty.
      bindO (index_range bs (st + 1) (st + 4)) (\<lambda>fl.
      if ty \<noteq> 1 \<or> fl \<noteq> [0, 0, 0] then Err (invalid ''DISP Data page has an invalid type or flags'')
      else bindO (read_u32 bs (st + 4)) (\<lambda>ident.
      if ident \<noteq> page then Err (invalid ''DISP Data page identity is inconsistent'')
      else bindO (read_u32 bs (st + 8)) (\<lambda>used.
      if payload_length < length payload then Panic
      else let expected_used = min (payload_length - length payload) PAGE_PAYLOAD_SIZE in
      if used \<noteq> expected_used then Err (invalid ''DISP Data page used length is inconsistent'')
      else let expected_next = (if page + 1 = page_count then 0 else page + 1) in
      bindO (read_u32 bs (st + 12)) (\<lambda>nxt.
      bindO (read_u64 bs (st + 24)) (\<lambda>reserved.
      if nxt \<noteq> expected_next \<or> reserved \<noteq> 0 then Err (invalid ''DISP Data page chain is inconsistent'')
      else bindO (index_range bs (st + PAGE_HEADER_SIZE) (st + PAGE_HEADER_SIZE + used)) (\<lambda>data.
      bindO (read_u64 bs (st + 16)) (\<lambda>sum.
      if unat (fnv1a data) \<noteq> sum then Err (invalid ''DISP Data page integrity check failed'')
      else bindO (index_range bs (st + PAGE_HEADER_SIZE + used) (st + PAGE_SIZE)) (\<lambda>unused.
      if list_ex (\<lambda>b. b \<noteq> 0) unused then Err (invalid ''DISP Data page contains non-zero unused bytes'')
      else Ok (payload @ data)))))))))))"

definition decode_pages :: "byte list \<Rightarrow> byte \<Rightarrow> bool \<Rightarrow> (io_error, snapshot) outcome" where
  "decode_pages bs allowed_flags supports_constraints =
     (if length bs < PAGE_SIZE then Err (invalid ''DISP Data page header is truncated'')
      else bindO (read_u32 bs 12) (\<lambda>page_size.
      if page_size \<noteq> PAGE_SIZE then Err (invalid ''DISP Data snapshot uses an unsupported page size'')
      else bindO (read_u64 bs 48) (\<lambda>flags.
      if flags \<noteq> 0 then Err (invalid ''DISP Data snapshot uses unknown required flags'')
      else bindO (index_range bs 0 56) (\<lambda>h.
      bindO (read_u64 bs 56) (\<lambda>hsum.
      if unat (fnv1a h) \<noteq> hsum then Err (invalid ''DISP Data page header integrity check failed'')
      else bindO (index_range bs 64 PAGE_SIZE) (\<lambda>tail.
      if list_ex (\<lambda>b. b \<noteq> 0) tail then Err (invalid ''DISP Data page header contains unknown metadata'')
      else bindO (read_u64 bs 24) (\<lambda>n.
      bindO (usize_try_from n ''DISP Data payload length does not fit this target'') (\<lambda>payload_length.
      bindO (read_u64 bs 32) (\<lambda>c.
      bindO (usize_try_from c ''DISP Data page count does not fit this target'') (\<lambda>page_count.
      if \<not> (2 \<le> page_count \<and> page_count \<le> MAX_PAGES) \<or> length bs \<noteq> page_count * PAGE_SIZE
      then Err (invalid ''DISP Data page count is inconsistent'')
      else if payload_length > (page_count - 1) * PAGE_PAYLOAD_SIZE
      then Err (invalid ''DISP Data payload exceeds its page chain'')
      else bindO (foldO (decode_page bs page_count payload_length) [1..<page_count] []) (\<lambda>payload.
      bindO (read_u64 bs 40) (\<lambda>sum.
      if unat (fnv1a payload) \<noteq> sum then Err (invalid ''DISP Data payload integrity check failed'')
      else decode_payload payload allowed_flags supports_constraints))))))))))))"

definition decode :: "byte list \<Rightarrow> (io_error, snapshot) outcome" where
  "decode bs =
     (if length bs < 12 then Err (invalid ''DISP Data snapshot header is truncated'')
      else if length bs > MAX_FILE_BYTES then Err (invalid ''DISP Data snapshot exceeds 64 MiB'')
      else bindO (index_range bs 0 8) (\<lambda>magic.
      if magic \<noteq> MAGIC then Err (invalid ''file is not a DISP Data snapshot'')
      else bindO (read_u32 bs 8) (\<lambda>v.
      if v = LEGACY_VERSION then decode_legacy bs
      else if v = PAGE_VERSION then decode_pages bs 3 False
      else if v = UNIQUE_VERSION then decode_pages bs 7 False
      else if v = INDEX_VERSION then decode_pages bs 15 False
      else if v = VERSION then decode_pages bs 15 True
      else Err (invalid (''unsupported DISP Data snapshot version '' @ show_nat v)))))"

end
