(* ===== verification/DataWal.thy ===== *)
theory DataWal
  imports DataPages
begin

text \<open>
  The write-ahead log and the transactions of the DISP Data store, src/compiler/src/data_store.rs:
  \<^verbatim>\<open>wal_records\<close>, \<^verbatim>\<open>encode_wal\<close>, \<^verbatim>\<open>apply_wal\<close>, \<^verbatim>\<open>recover_wal\<close>, \<^verbatim>\<open>load\<close>, \<^verbatim>\<open>current_generation\<close> and \<^verbatim>\<open>commit\<close>.

  The operating system is an explicit state: the files by path, every disk content the run passed
  through (the points at which a crash can stop it, down to each written byte), and a schedule of
  faults that decides which calls fail and after how many bytes. The advisory lock is the value the
  caller holds; its acquisition (\<^verbatim>\<open>flock\<close>, \<^verbatim>\<open>CreateFileW\<close>) is not modelled.
\<close>

section \<open>Paths and the disk\<close>

record store_path =
  parent_dir :: string
  file_name :: "string option"

type_synonym disk = "store_path \<Rightarrow> byte list option"

definition suffix :: "store_path \<Rightarrow> string \<Rightarrow> (io_error, store_path) outcome" where
  "suffix p s =
     bindO (ok_or (file_name p) (invalid ''DISP Data path has no valid UTF-8 file name'')) (\<lambda>n.
       Ok (p\<lparr>file_name := Some (n @ s)\<rparr>))"

record lock =
  lock_path :: store_path

definition protects :: "lock \<Rightarrow> store_path \<Rightarrow> (io_error, bool) outcome" where
  "protects l p = bindO (suffix p ''.lock'') (\<lambda>q. Ok (lock_path l = q))"

text \<open>
  A run: the disk, the disks it passed through (latest first), the fault of each coming call
  (\<^term>\<open>Some k\<close>: it fails, a write after \<open>k\<close> bytes), and the counter \<^verbatim>\<open>NEXT_TEMPORARY\<close>.
\<close>

record io_state =
  disk :: disk
  history :: "disk list"
  faults :: "nat option list"
  next_temporary :: nat

type_synonym 'a io = "io_state \<Rightarrow> (io_error, 'a) outcome \<times> io_state"

definition bindIO :: "'a io \<Rightarrow> ('a \<Rightarrow> 'b io) \<Rightarrow> 'b io" where
  "bindIO m f st =
     (case m st of (Ok x, st') \<Rightarrow> f x st' | (Err e, st') \<Rightarrow> (Err e, st') | (Panic, st') \<Rightarrow> (Panic, st'))"

definition liftIO :: "(io_error, 'a) outcome \<Rightarrow> 'a io" where
  "liftIO m st = (m, st)"

definition returnIO :: "'a \<Rightarrow> 'a io" where
  "returnIO x st = (Ok x, st)"

text \<open>\<^verbatim>\<open>match r { Ok(x) => .., Err(e) => .. }\<close> on the result of a call.\<close>

definition catchIO :: "'a io \<Rightarrow> (io_error \<Rightarrow> 'a io) \<Rightarrow> 'a io" where
  "catchIO m h st = (case m st of (Err e, st') \<Rightarrow> h e st' | r \<Rightarrow> r)"

section \<open>Calls of the operating system\<close>

definition io_fault :: io_error where
  "io_fault = OtherIo ''input/output error''"

definition pop_fault :: "io_state \<Rightarrow> nat option \<times> io_state" where
  "pop_fault st = (case faults st of [] \<Rightarrow> (None, st) | f # fs \<Rightarrow> (f, st\<lparr>faults := fs\<rparr>))"

definition put_disk :: "disk \<Rightarrow> io_state \<Rightarrow> io_state" where
  "put_disk d st = st\<lparr>disk := d, history := d # history st\<rparr>"

text \<open>A call that succeeds or fails as a whole: \<open>f\<close> gives its result and the new disk.\<close>

definition os_call :: "(disk \<Rightarrow> (io_error, 'a \<times> disk) outcome) \<Rightarrow> 'a io" where
  "os_call f st =
     (let (flt, st1) = pop_fault st in
      if flt \<noteq> None then (Err io_fault, st1)
      else case f (disk st1) of
        Ok (x, d) \<Rightarrow> (Ok x, put_disk d st1)
      | Err e \<Rightarrow> (Err e, st1)
      | Panic \<Rightarrow> (Panic, st1))"

definition os_get :: "store_path \<Rightarrow> byte list io" where
  "os_get p = os_call (\<lambda>d. bindO (ok_or (d p) NotFound) (\<lambda>bs. Ok (bs, d)))"

definition os_remove :: "store_path \<Rightarrow> unit io" where
  "os_remove p = os_call (\<lambda>d. bindO (ok_or (d p) NotFound) (\<lambda>_. Ok ((), d(p := None))))"

definition os_rename :: "store_path \<Rightarrow> store_path \<Rightarrow> unit io" where
  "os_rename p q = os_call (\<lambda>d. bindO (ok_or (d p) NotFound) (\<lambda>bs. Ok ((), d(p := None, q := Some bs))))"

definition os_is_file :: "store_path \<Rightarrow> io_state \<Rightarrow> bool" where
  "os_is_file p st = (disk st p \<noteq> None)"

definition os_create_new :: "store_path \<Rightarrow> unit io" where
  "os_create_new p = os_call (\<lambda>d. if d p \<noteq> None then Err (OtherIo ''file exists'') else Ok ((), d(p := Some [])))"

definition os_open_create :: "store_path \<Rightarrow> unit io" where
  "os_open_create p = os_call (\<lambda>d. Ok ((), d(p := Some (case d p of None \<Rightarrow> [] | Some bs \<Rightarrow> bs))))"

text \<open>\<^verbatim>\<open>set_len\<close> cuts a file or extends it with zeros; a write past the end leaves zeros before it.\<close>

definition resize :: "byte list \<Rightarrow> nat \<Rightarrow> byte list" where
  "resize bs n = take n bs @ replicate (n - length bs) 0"

definition write_at :: "byte list \<Rightarrow> nat \<Rightarrow> byte list \<Rightarrow> byte list" where
  "write_at bs off ys = resize bs off @ ys @ drop (off + length ys) bs"

definition on_file :: "store_path \<Rightarrow> (byte list \<Rightarrow> byte list) \<Rightarrow> disk \<Rightarrow> disk" where
  "on_file p f d = d(p := map_option f (d p))"

definition os_set_len :: "store_path \<Rightarrow> nat \<Rightarrow> unit io" where
  "os_set_len p n = os_call (\<lambda>d. Ok ((), on_file p (\<lambda>bs. resize bs n) d))"

text \<open>Calls with no effect on the contents of files: \<^verbatim>\<open>sync_all\<close>, \<^verbatim>\<open>seek\<close>, \<^verbatim>\<open>create_dir_all\<close>.\<close>

definition os_nop :: "unit io" where
  "os_nop = os_call (\<lambda>d. Ok ((), d))"

text \<open>\<^verbatim>\<open>write_all\<close> puts the bytes on the disk from the first to the last and may stop anywhere.\<close>

definition os_write_all :: "store_path \<Rightarrow> nat \<Rightarrow> byte list \<Rightarrow> unit io" where
  "os_write_all p off ys st =
     (let (flt, st1) = pop_fault st;
          n = (case flt of None \<Rightarrow> length ys | Some k \<Rightarrow> min k (length ys));
          st2 = fold (\<lambda>k. put_disk (on_file p (\<lambda>bs. write_at bs off (take k ys)) (disk st1))) [0..<Suc n] st1 in
      (if flt = None then Ok () else Err io_fault, st2))"

definition read_bytes :: "store_path \<Rightarrow> nat \<Rightarrow> byte list io" where
  "read_bytes p limit =
     bindIO (os_get p) (\<lambda>bs.
       if length bs > limit then liftIO (Err (invalid ''DISP Data file exceeds its storage limit''))
       else returnIO bs)"

definition read_snapshot :: "store_path \<Rightarrow> snapshot io" where
  "read_snapshot p = bindIO (read_bytes p MAX_FILE_BYTES) (\<lambda>bs. liftIO (decode bs))"

section \<open>The log\<close>

definition WAL_MAGIC :: "byte list" where
  "WAL_MAGIC = as_bytes ''DISPWAL'' @ [0x0a]"

definition WAL_HEADER_SIZE :: nat where "WAL_HEADER_SIZE = 64"
definition WAL_RECORD_SIZE :: nat where "WAL_RECORD_SIZE = 8 + PAGE_SIZE"
definition MAX_WAL_BYTES :: nat where "MAX_WAL_BYTES = WAL_HEADER_SIZE + MAX_PAGES * WAL_RECORD_SIZE"

definition chunks_exact :: "nat \<Rightarrow> 'a list \<Rightarrow> 'a list list" where
  "chunks_exact n xs = map (\<lambda>k. slice xs (k * n) (k * n + n)) [0..<length xs div n]"

definition wal_records :: "byte list \<Rightarrow> byte list \<Rightarrow> (nat \<times> byte list) list" where
  "wal_records old new =
     filter (\<lambda>(page, bs). get_range old (page * PAGE_SIZE) (page * PAGE_SIZE + PAGE_SIZE) \<noteq> Some bs)
       (enumerate 0 (chunks_exact PAGE_SIZE new))"

definition encode_wal :: "byte list \<Rightarrow> byte list \<Rightarrow> nat \<Rightarrow> (io_error, byte list) outcome" where
  "encode_wal old new generation =
     (let records = wal_records old new in
      bindO (ok_or (case usize_checked_add WAL_HEADER_SIZE (length records * WAL_RECORD_SIZE) of
               None \<Rightarrow> None | Some len \<Rightarrow> if len \<le> MAX_WAL_BYTES then Some len else None)
        (invalid ''DISP Data write-ahead log exceeds its storage limit'')) (\<lambda>_.
      let output = WAL_MAGIC @ le_bytes 4 1 @ le_bytes 4 PAGE_SIZE @ le_bytes 8 generation
            @ le_bytes 8 (length new div PAGE_SIZE) @ le_bytes 8 (length records)
            @ le_bytes 8 0 @ le_bytes 8 0 @ le_bytes 8 0
            @ concat (map (\<lambda>(page, bs). le_bytes 8 page @ bs) records) in
      bindO (index_range output WAL_HEADER_SIZE (length output)) (\<lambda>body.
      bindO (copy_at output 40 (le_bytes 8 (unat (fnv1a body)))) (\<lambda>o1.
      bindO (index_range o1 0 56) (\<lambda>h.
      copy_at o1 56 (le_bytes 8 (unat (fnv1a h))))))))"

definition current_generation :: "byte list \<Rightarrow> (io_error, nat) outcome" where
  "current_generation bs =
     (if length bs \<ge> PAGE_SIZE \<and> take 8 bs = MAGIC
      then bindO (read_u32 bs 8) (\<lambda>v. if v = VERSION then read_u64 bs 16 else Ok 0)
      else Ok 0)"

text \<open>The loop over the records of a log: the page numbers seen and the records.\<close>

definition parse_record ::
  "byte list \<Rightarrow> nat \<Rightarrow> nat \<Rightarrow> nat set \<times> (nat \<times> byte list) list \<Rightarrow> (io_error, nat set \<times> (nat \<times> byte list) list) outcome" where
  "parse_record bs page_count record = (\<lambda>(seen, records).
     let st = WAL_HEADER_SIZE + record * WAL_RECORD_SIZE in
     bindO (read_u64 bs st) (\<lambda>n.
     bindO (usize_try_from n ''DISP Data WAL page identity does not fit this target'') (\<lambda>page.
     if page \<ge> page_count \<or> page \<in> seen
     then Err (invalid ''DISP Data WAL contains an invalid page identity'')
     else bindO (index_range bs (st + 8) (st + WAL_RECORD_SIZE)) (\<lambda>data.
       Ok (insert page seen, records @ [(page, data)])))))"

definition parse_wal :: "byte list \<Rightarrow> (io_error, nat \<times> (nat \<times> byte list) list) outcome" where
  "parse_wal bs =
     (if length bs < WAL_HEADER_SIZE \<or> length bs > MAX_WAL_BYTES
      then Err (invalid ''DISP Data write-ahead log header is truncated'')
      else bindO (index_range bs 0 8) (\<lambda>magic. bindO (read_u32 bs 8) (\<lambda>v. bindO (read_u32 bs 12) (\<lambda>ps.
      bindO (read_u64 bs 48) (\<lambda>flags. bindO (index_range bs 0 56) (\<lambda>h. bindO (read_u64 bs 56) (\<lambda>hsum.
      if magic \<noteq> WAL_MAGIC \<or> v \<noteq> 1 \<or> ps \<noteq> PAGE_SIZE \<or> flags \<noteq> 0 \<or> unat (fnv1a h) \<noteq> hsum
      then Err (invalid ''DISP Data write-ahead log header is invalid'')
      else bindO (read_u64 bs 24) (\<lambda>n.
      bindO (usize_try_from n ''DISP Data WAL page count does not fit this target'') (\<lambda>page_count.
      bindO (read_u64 bs 32) (\<lambda>m.
      bindO (usize_try_from m ''DISP Data WAL record count does not fit this target'') (\<lambda>record_count.
      bindO (ok_or (usize_checked_add WAL_HEADER_SIZE (usize_saturating_mul record_count WAL_RECORD_SIZE))
               (invalid ''DISP Data WAL length overflow'')) (\<lambda>expected_length.
      bindO (index_range bs WAL_HEADER_SIZE (length bs)) (\<lambda>body. bindO (read_u64 bs 40) (\<lambda>sum.
      if \<not> (2 \<le> page_count \<and> page_count \<le> MAX_PAGES) \<or> expected_length \<noteq> length bs \<or> unat (fnv1a body) \<noteq> sum
      then Err (invalid ''DISP Data write-ahead log is inconsistent'')
      else bindO (foldO (parse_record bs page_count) [0..<record_count] ({}, [])) (\<lambda>(seen, records).
      if 0 \<notin> seen then Err (invalid ''DISP Data WAL does not contain its commit page'')
      else Ok (page_count, records))))))))))))))))"

text \<open>The text of an error inside another error's message.\<close>

definition io_message :: "io_error \<Rightarrow> string" where
  "io_message e = (case e of NotFound \<Rightarrow> ''entity not found'' | InvalidData m \<Rightarrow> m | OtherIo m \<Rightarrow> m)"

text \<open>The image a log commits on top of the current contents of the data file.\<close>

definition copy_record :: "nat \<times> byte list \<Rightarrow> byte list \<Rightarrow> (io_error, byte list) outcome" where
  "copy_record = (\<lambda>(page, data) committed. copy_at committed (page * PAGE_SIZE) data)"

definition committed_image ::
  "byte list \<Rightarrow> nat \<Rightarrow> (nat \<times> byte list) list \<Rightarrow> byte list \<Rightarrow> (io_error, byte list) outcome" where
  "committed_image bs page_count records cur =
     (let final_length = page_count * PAGE_SIZE; copied = min (length cur) final_length in
      bindO (copy_at (replicate final_length 0) 0 (take copied cur)) (\<lambda>base.
      bindO (foldO copy_record records base) (\<lambda>committed.
      bindO (current_generation committed) (\<lambda>g.
      bindO (read_u64 bs 16) (\<lambda>wg.
      if g \<noteq> wg then Err (invalid ''DISP Data WAL generation does not match its commit page'')
      else bindO (map_errO (\<lambda>e. invalid (''DISP Data WAL committed image is invalid: '' @ io_message e)) (decode committed)) (\<lambda>_.
        Ok committed))))))"

definition write_record :: "store_path \<Rightarrow> nat \<times> byte list \<Rightarrow> unit io" where
  "write_record p = (\<lambda>(page, data). bindIO os_nop (\<lambda>_. os_write_all p (page * PAGE_SIZE) data))"

primrec write_records :: "store_path \<Rightarrow> (nat \<times> byte list) list \<Rightarrow> unit io" where
  "write_records p [] = returnIO ()"
| "write_records p (r # rs) = bindIO (write_record p r) (\<lambda>_. write_records p rs)"

definition apply_wal :: "store_path \<Rightarrow> byte list \<Rightarrow> unit io" where
  "apply_wal p bs =
     bindIO (liftIO (parse_wal bs)) (\<lambda>(page_count, records).
     bindIO (catchIO (read_bytes p MAX_FILE_BYTES)
              (\<lambda>e. if e = NotFound then returnIO [] else liftIO (Err e))) (\<lambda>cur.
     bindIO (liftIO (committed_image bs page_count records cur)) (\<lambda>_.
     bindIO (os_open_create p) (\<lambda>_.
     bindIO (write_records p records) (\<lambda>_.
     bindIO (os_set_len p (page_count * PAGE_SIZE)) (\<lambda>_.
     os_nop))))))"

section \<open>Transactions\<close>

definition recover_wal :: "store_path \<Rightarrow> unit io" where
  "recover_wal p =
     bindIO (liftIO (suffix p ''.wal'')) (\<lambda>wal.
     bindIO (catchIO (bindIO (read_bytes wal MAX_WAL_BYTES) (\<lambda>bs. returnIO (Some bs)))
              (\<lambda>e. if e = NotFound then returnIO None else liftIO (Err e))) (\<lambda>w.
     case w of
       None \<Rightarrow> returnIO ()
     | Some bs \<Rightarrow> bindIO (apply_wal p bs) (\<lambda>_. os_remove wal)))"

definition load :: "store_path \<Rightarrow> lock \<Rightarrow> snapshot io" where
  "load p l =
     bindIO (liftIO (protects l p)) (\<lambda>ok.
     if \<not> ok then liftIO (Err (invalid ''DISP Data lock does not protect this store''))
     else bindIO (recover_wal p) (\<lambda>_.
     bindIO (liftIO (suffix p ''.backup'')) (\<lambda>backup.
     catchIO (read_snapshot p) (\<lambda>e st.
       if e = NotFound \<and> os_is_file backup st then
         bindIO (catchIO (read_snapshot backup)
                  (\<lambda>b. liftIO (Err (invalid (''DISP Data snapshot and recovery backup are unavailable: ''
                    @ io_message e @ ''; '' @ io_message b))))) (\<lambda>s.
         bindIO (os_rename backup p) (\<lambda>_. returnIO s)) st
       else if e = NotFound then (Ok snapshot_empty, st)
       else (Err e, st)))))"

definition fetch_temporary :: "nat io" where
  "fetch_temporary st = (Ok (next_temporary st), st\<lparr>next_temporary := (next_temporary st + 1) mod 2 ^ 64\<rparr>)"

text \<open>The closure of \<^verbatim>\<open>commit\<close>: write and publish the log, then apply it as far as possible.\<close>

definition ignoreIO :: "'a io \<Rightarrow> unit io" where
  "ignoreIO m st = (case m st of (Panic, st') \<Rightarrow> (Panic, st') | (_, st') \<Rightarrow> (Ok (), st'))"

definition is_okIO :: "'a io \<Rightarrow> bool io" where
  "is_okIO m st = (case m st of (Panic, st') \<Rightarrow> (Panic, st') | (Ok _, st') \<Rightarrow> (Ok True, st') | (Err _, st') \<Rightarrow> (Ok False, st'))"

definition publish :: "store_path \<Rightarrow> store_path \<Rightarrow> store_path \<Rightarrow> byte list \<Rightarrow> unit io" where
  "publish p temporary wal wal_bytes =
     bindIO (os_create_new temporary) (\<lambda>_.
     bindIO (os_write_all temporary 0 wal_bytes) (\<lambda>_.
     bindIO os_nop (\<lambda>_.
     bindIO (os_rename temporary wal) (\<lambda>_.
     bindIO (ignoreIO os_nop) (\<lambda>_.
     bindIO (is_okIO (apply_wal p wal_bytes)) (\<lambda>ok.
     if ok
     then bindIO (os_remove wal) (\<lambda>_.
          bindIO (liftIO (suffix p ''.backup'')) (\<lambda>backup.
          ignoreIO (os_remove backup)))
     else returnIO ()))))))"

definition commit :: "nat \<Rightarrow> store_path \<Rightarrow> snapshot \<Rightarrow> lock \<Rightarrow> unit io" where
  "commit pid p s l =
     bindIO (liftIO (protects l p)) (\<lambda>ok.
     if \<not> ok then liftIO (Err (invalid ''DISP Data lock does not protect this store''))
     else bindIO (recover_wal p) (\<lambda>_.
     bindIO os_nop (\<lambda>_.
     bindIO (catchIO (read_bytes p MAX_FILE_BYTES)
              (\<lambda>e. if e = NotFound then returnIO [] else liftIO (Err e))) (\<lambda>old.
     bindIO (liftIO (current_generation old)) (\<lambda>g.
     bindIO (liftIO (if g + 1 < 2 ^ 64 then Ok (g + 1)
                     else Err (invalid ''DISP Data generation counter is exhausted''))) (\<lambda>generation.
     bindIO (liftIO (encode_pages s generation)) (\<lambda>new.
     bindIO (liftIO (encode_wal old new generation)) (\<lambda>wal_bytes.
     bindIO fetch_temporary (\<lambda>n.
     bindIO (liftIO (suffix p (''.wal.tmp-'' @ show_nat pid @ ''-'' @ show_nat n))) (\<lambda>temporary.
     bindIO (liftIO (suffix p ''.wal'')) (\<lambda>wal.
     catchIO (publish p temporary wal wal_bytes)
       (\<lambda>e. bindIO (ignoreIO (os_remove temporary)) (\<lambda>_. liftIO (Err e))))))))))))))"

end
