(* ===== verification/DataPages_Correct.thy ===== *)
theory DataPages_Correct
  imports DataPages
begin

unbundle bit_operations_syntax

text \<open>
  Correctness of the page file of the DISP Data store, src/compiler/src/data_store.rs. \<open>has_at\<close> says
  what bytes stand at an offset; in these terms the writer produces the closed form \<open>page_file\<close> and
  \<^verbatim>\<open>decode_pages\<close> accepts exactly the closed forms. From that follow the round trip, the invariant of
  decoded snapshots, the absence of panics on arbitrary bytes, and that damage to any one byte of a
  stored file is detected, which rests on \<^verbatim>\<open>fnv1a\<close> being injective in every single byte.
\<close>

section \<open>Bytes at an offset\<close>

definition has_at :: "byte list \<Rightarrow> nat \<Rightarrow> byte list \<Rightarrow> bool" where
  "has_at bs a xs \<longleftrightarrow> a + length xs \<le> length bs \<and> take (length xs) (drop a bs) = xs"

lemma has_at_append:
  "has_at bs a (xs @ ys) \<longleftrightarrow> has_at bs a xs \<and> has_at bs (a + length xs) ys"
proof (cases "a + length xs + length ys \<le> length bs")
  case True
  then have "take (length xs + length ys) (drop a bs) = xs @ ys \<longleftrightarrow>
      take (length xs) (drop a bs) = xs \<and> take (length ys) (drop (a + length xs) bs) = ys"
    by (simp add: take_add append_eq_append_conv add.commute)
  with True show ?thesis by (simp add: has_at_def add.assoc)
next
  case False
  then show ?thesis by (auto simp: has_at_def)
qed

lemma has_at_unique: "has_at bs a xs \<Longrightarrow> has_at bs a ys \<Longrightarrow> length xs = length ys \<Longrightarrow> xs = ys"
  by (metis has_at_def)

lemma has_at_whole: "length bs = length xs \<Longrightarrow> has_at bs 0 xs \<longleftrightarrow> bs = xs"
  by (auto simp: has_at_def)

lemma has_at_Nil [simp]: "has_at bs a [] \<longleftrightarrow> a \<le> length bs"
  by (simp add: has_at_def)

lemma has_at_length: "has_at bs a xs \<Longrightarrow> a + length xs \<le> length bs"
  by (simp add: has_at_def)

lemma index_range_has:
  "index_range bs a b = Ok xs \<longleftrightarrow> a \<le> b \<and> length xs = b - a \<and> has_at bs a xs"
  by (auto simp: outcome_simps has_at_def slice_def)

lemma index_range_hasI: "has_at bs a xs \<Longrightarrow> b = a + length xs \<Longrightarrow> index_range bs a b = Ok xs"
  by (simp add: index_range_has)

lemma index_at_has: "index_at bs a = Ok x \<longleftrightarrow> has_at bs a [x]"
  by (auto simp: index_at_def has_at_def take_Suc_conv_app_nth hd_drop_conv_nth take_Suc Cons_nth_drop_Suc [symmetric])

lemma read_u32_has: "read_u32 bs a = Ok n \<longleftrightarrow> n < 2 ^ 32 \<and> has_at bs a (le_bytes 4 n)"
proof
  assume "read_u32 bs a = Ok n"
  then obtain v where v: "length v = 4" "has_at bs a v" "n = from_le_bytes v"
    by (auto simp: read_u32_def bindO_Ok_iff index_range_has to_array_iff)
  have "le_bytes 4 n = v" using le_bytes_from_le_bytes [of v] v by simp
  then show "n < 2 ^ 32 \<and> has_at bs a (le_bytes 4 n)" using v from_le_bytes_less [of v] by simp
next
  assume "n < 2 ^ 32 \<and> has_at bs a (le_bytes 4 n)"
  then show "read_u32 bs a = Ok n" by (simp add: read_u32_def to_array_def index_range_hasI [of bs a "le_bytes 4 n"])
qed

lemma read_u64_has: "read_u64 bs a = Ok n \<longleftrightarrow> n < 2 ^ 64 \<and> has_at bs a (le_bytes 8 n)"
proof
  assume "read_u64 bs a = Ok n"
  then obtain v where v: "length v = 8" "has_at bs a v" "n = from_le_bytes v"
    by (auto simp: read_u64_def bindO_Ok_iff index_range_has to_array_iff)
  have "le_bytes 8 n = v" using le_bytes_from_le_bytes [of v] v by simp
  then show "n < 2 ^ 64 \<and> has_at bs a (le_bytes 8 n)" using v from_le_bytes_less [of v] by simp
next
  assume "n < 2 ^ 64 \<and> has_at bs a (le_bytes 8 n)"
  then show "read_u64 bs a = Ok n" by (simp add: read_u64_def to_array_def index_range_hasI [of bs a "le_bytes 8 n"])
qed

lemma index_range_np: "a \<le> b \<Longrightarrow> b \<le> length bs \<Longrightarrow> no_panic (index_range bs a b)"
  by simp

lemma read_u32_np: "a + 4 \<le> length bs \<Longrightarrow> no_panic (read_u32 bs a)"
  by (simp add: read_u32_def to_array_def)

lemma read_u64_np: "a + 8 \<le> length bs \<Longrightarrow> no_panic (read_u64 bs a)"
  by (simp add: read_u64_def to_array_def)

lemma zeros_iff: "\<not> list_ex (\<lambda>b. b \<noteq> 0) xs \<longleftrightarrow> xs = replicate (length xs) (0 :: byte)"
  by (induction xs) auto

lemma usize_try_from_iff [outcome_simps]: "usize_try_from n m = Ok k \<longleftrightarrow> n \<le> USIZE_MAX \<and> k = n"
  by (auto simp: usize_try_from_def)

lemma usize_try_from_np [simp]: "no_panic (usize_try_from n m)"
  by (simp add: usize_try_from_def)

lemma unat_u64 [simp]: "unat (w :: u64) < 18446744073709551616"
  using unsigned_less [of w] by simp

section \<open>The closed form of a page file\<close>

definition page_data :: "byte list \<Rightarrow> nat \<Rightarrow> byte list" where
  "page_data payload k = take PAGE_PAYLOAD_SIZE (drop (k * PAGE_PAYLOAD_SIZE) payload)"

definition page_bytes :: "nat \<Rightarrow> nat \<Rightarrow> byte list \<Rightarrow> byte list" where
  "page_bytes n k data = [1] @ [0, 0, 0] @ le_bytes 4 k @ le_bytes 4 (length data)
     @ le_bytes 4 (if k + 1 = n then 0 else k + 1) @ le_bytes 8 (unat (fnv1a data)) @ le_bytes 8 0
     @ data @ replicate (PAGE_PAYLOAD_SIZE - length data) 0"

definition header_prefix :: "byte list \<Rightarrow> nat \<Rightarrow> nat \<Rightarrow> byte list \<Rightarrow> nat \<Rightarrow> byte list" where
  "header_prefix magic version generation payload n = magic @ le_bytes 4 version @ le_bytes 4 PAGE_SIZE
     @ le_bytes 8 generation @ le_bytes 8 (length payload) @ le_bytes 8 n
     @ le_bytes 8 (unat (fnv1a payload)) @ le_bytes 8 0"

definition header_bytes :: "byte list \<Rightarrow> nat \<Rightarrow> nat \<Rightarrow> byte list \<Rightarrow> nat \<Rightarrow> byte list" where
  "header_bytes magic version generation payload n =
     header_prefix magic version generation payload n
     @ le_bytes 8 (unat (fnv1a (header_prefix magic version generation payload n)))
     @ replicate (PAGE_SIZE - 64) 0"

definition page_file :: "byte list \<Rightarrow> nat \<Rightarrow> nat \<Rightarrow> byte list \<Rightarrow> nat \<Rightarrow> byte list" where
  "page_file magic version generation payload n =
     header_bytes magic version generation payload n
     @ concat (map (\<lambda>k. page_bytes n k (page_data payload (k - 1))) [1..<n])"

lemma length_page_data: "length (page_data payload k) \<le> PAGE_PAYLOAD_SIZE"
  by (simp add: page_data_def)

lemma length_page_bytes [simp]: "length data \<le> PAGE_PAYLOAD_SIZE \<Longrightarrow> length (page_bytes n k data) = PAGE_SIZE"
  by (simp add: page_bytes_def data_limits)

lemma length_header_prefix [simp]: "length magic = 8 \<Longrightarrow> length (header_prefix magic v g p n) = 56"
  by (simp add: header_prefix_def)

lemma length_header_bytes [simp]: "length magic = 8 \<Longrightarrow> length (header_bytes magic v g p n) = PAGE_SIZE"
  by (simp add: header_bytes_def PAGE_SIZE_def)

lemma length_concat_pages:
  "(\<And>k. length (f k) = PAGE_SIZE) \<Longrightarrow> length (concat (map f [i..<j])) = (j - i) * PAGE_SIZE"
  by (induction j) (auto simp: Suc_diff_le)

lemma length_page_file [simp]: "length magic = 8 \<Longrightarrow> 1 \<le> n \<Longrightarrow> length (page_file magic v g p n) = n * PAGE_SIZE"
  using length_concat_pages [of "\<lambda>k. page_bytes n k (page_data p (k - 1))" 1 n]
  by (simp add: page_file_def length_page_data mult_eq_if)

lemma has_at_pages:
  assumes len: "\<And>k. length (f k) = PAGE_SIZE" and i: "i \<le> j" "i * PAGE_SIZE \<le> length bs"
  shows "has_at bs (i * PAGE_SIZE) (concat (map f [i..<j])) \<longleftrightarrow> (\<forall>k \<in> {i..<j}. has_at bs (k * PAGE_SIZE) (f k))"
  using i(1)
proof (induction j rule: dec_induct)
  case base
  then show ?case using i by simp
next
  case (step j)
  have "i * PAGE_SIZE + (j - i) * PAGE_SIZE = j * PAGE_SIZE"
    using step.hyps by (simp add: add_mult_distrib [symmetric])
  then show ?case
    using step by (auto simp: has_at_append length_concat_pages [of f, OF len] less_Suc_eq)
qed

lemma page_file_has:
  assumes m: "length magic = 8" and n: "1 \<le> n" and len: "length bs = n * PAGE_SIZE"
  shows "bs = page_file magic v g p n \<longleftrightarrow> has_at bs 0 (header_bytes magic v g p n)
    \<and> (\<forall>k \<in> {1..<n}. has_at bs (k * PAGE_SIZE) (page_bytes n k (page_data p (k - 1))))"
proof -
  have "bs = page_file magic v g p n \<longleftrightarrow> has_at bs 0 (page_file magic v g p n)"
    using m n len by (simp add: has_at_whole)
  also have "\<dots> \<longleftrightarrow> has_at bs 0 (header_bytes magic v g p n)
      \<and> has_at bs (1 * PAGE_SIZE) (concat (map (\<lambda>k. page_bytes n k (page_data p (k - 1))) [1..<n]))"
    using m by (simp add: page_file_def has_at_append)
  also have "\<dots> \<longleftrightarrow> has_at bs 0 (header_bytes magic v g p n)
      \<and> (\<forall>k \<in> {1..<n}. has_at bs (k * PAGE_SIZE) (page_bytes n k (page_data p (k - 1))))"
    using n len by (subst has_at_pages) (auto simp: length_page_data)
  finally show ?thesis .
qed

section \<open>The writer produces the closed form\<close>

lemma copy_at_zeros:
  assumes "length pre \<le> a" "a + length ys \<le> length pre + m"
  shows "copy_at (pre @ replicate m 0) a ys
    = Ok ((pre @ replicate (a - length pre) 0 @ ys) @ replicate (length pre + m - a - length ys) 0)"
proof -
  have "take a (pre @ replicate m 0) = pre @ replicate (a - length pre) 0" using assms by simp
  moreover have "drop (a + length ys) (pre @ replicate m 0) = replicate (length pre + m - a - length ys) (0 :: byte)"
    using assms by simp
  ultimately show ?thesis using assms(2) by (simp add: copy_at_def overwrite_def)
qed

lemma copy_at_next:
  assumes "a = length pre" "length ys \<le> m"
  shows "copy_at (pre @ replicate m 0) a ys = Ok ((pre @ ys) @ replicate (m - length ys) 0)"
  using copy_at_zeros [of pre a ys m] assms by simp

lemma length_MAGIC [simp]: "length MAGIC = 8"
  by (simp add: MAGIC_def)

lemma encode_header_closed:
  assumes "64 \<le> m"
  shows "encode_header (replicate m 0) v g payload n =
    Ok ((header_prefix MAGIC v g payload n @ le_bytes 8 (unat (fnv1a (header_prefix MAGIC v g payload n))))
       @ replicate (m - 64) 0)"
proof -
  let ?h = "header_prefix MAGIC v g payload n"
  have h: "(((((((MAGIC @ le_bytes 4 v) @ le_bytes 4 PAGE_SIZE) @ le_bytes 8 g) @ le_bytes 8 (length payload)) @ le_bytes 8 n)
     @ le_bytes 8 (unat (fnv1a payload))) @ le_bytes 8 0) = ?h"
    by (simp add: header_prefix_def)
  have sl: "index_range (?h @ replicate k 0) 0 56 = Ok ?h" for k
    by (simp add: slice_def)
  have first: "copy_at (replicate m 0) 0 MAGIC = Ok (MAGIC @ replicate (m - 8) 0)"
    using copy_at_next [of 0 "[]" MAGIC m] assms by simp
  show ?thesis
    using assms unfolding encode_header_def
    by (simp only: first bindO.simps)
       (simp add: copy_at_next h sl [simplified] del: append_assoc)
qed

lemma page_data_slice:
  "k * PAGE_PAYLOAD_SIZE \<le> length payload \<Longrightarrow>
     index_range payload (k * PAGE_PAYLOAD_SIZE) (min (k * PAGE_PAYLOAD_SIZE + PAGE_PAYLOAD_SIZE) (length payload))
       = Ok (page_data payload k)"
  by (auto simp: slice_def page_data_def min_def)

lemma page_offsets [simp]:
  "PAGE_SIZE = 4096" "PAGE_HEADER_SIZE = 32" "PAGE_PAYLOAD_SIZE = 4064"
  by (simp_all add: data_limits)

lemma encode_page_closed:
  assumes pre: "length pre = (k + 1) * PAGE_SIZE" and m: "PAGE_SIZE \<le> m"
    and k: "k * PAGE_PAYLOAD_SIZE \<le> length payload"
  shows "encode_page payload d k (pre @ replicate m 0) =
    Ok ((pre @ page_bytes (d + 1) (k + 1) (page_data payload k)) @ replicate (m - PAGE_SIZE) 0)"
proof -
  let ?data = "page_data payload k" and ?st = "(k + 1) * PAGE_SIZE"
  have len: "length ?data \<le> 4064" using length_page_data [of payload k] by simp
  let ?nxt = "if k + 1 = d then 0 else k + 2"
  let ?p1 = "pre @ [1]" and ?p2 = "pre @ [1, 0, 0, 0] @ le_bytes 4 (k + 1)"
  let ?p3 = "?p2 @ le_bytes 4 (length ?data)"
  let ?p4 = "?p3 @ le_bytes 4 ?nxt"
  let ?p5 = "?p4 @ le_bytes 8 (unat (fnv1a ?data))"
  let ?p6 = "?p5 @ replicate 8 0 @ ?data"
  have three: "replicate 3 (0 :: byte) = [0, 0, 0]" by (simp add: numeral_eq_Suc)
  have s1: "copy_at (pre @ replicate m 0) ?st [1] = Ok (?p1 @ replicate (m - 1) 0)"
    using pre m by (subst copy_at_next) simp_all
  have s2: "copy_at (?p1 @ replicate (m - 1) 0) (?st + 4) (le_bytes 4 (k + 1)) = Ok (?p2 @ replicate (m - 8) 0)"
    using pre m by (subst copy_at_zeros) (simp_all add: three)
  have s3: "copy_at (?p2 @ replicate (m - 8) 0) (?st + 8) (le_bytes 4 (length ?data)) = Ok (?p3 @ replicate (m - 12) 0)"
    using pre m by (subst copy_at_next) simp_all
  have s4: "copy_at (?p3 @ replicate (m - 12) 0) (?st + 12) (le_bytes 4 ?nxt) = Ok (?p4 @ replicate (m - 16) 0)"
    using pre m by (subst copy_at_next) simp_all
  have s5: "copy_at (?p4 @ replicate (m - 16) 0) (?st + 16) (le_bytes 8 (unat (fnv1a ?data))) = Ok (?p5 @ replicate (m - 24) 0)"
    using pre m by (subst copy_at_next) simp_all
  have s6: "copy_at (?p5 @ replicate (m - 24) 0) (?st + PAGE_HEADER_SIZE) ?data = Ok (?p6 @ replicate (m - 32 - length ?data) 0)"
    using pre m len by (subst copy_at_zeros) simp_all
  have z: "le_bytes 8 0 = replicate 8 0" by (rule le_bytes_zero)
  have r: "replicate (m - (32 + length ?data)) (0 :: byte) = replicate (4064 - length ?data) 0 @ replicate (m - 4096) 0"
    using m len by (simp flip: replicate_add)
  show ?thesis
    unfolding encode_page_def Let_def page_data_slice [OF k] bindO.simps s1 s2 s3 s4 s5 s6
    by (simp add: page_bytes_def z r)
qed

lemma encode_pages_loop:
  assumes "j \<le> d" "length payload \<le> d * PAGE_PAYLOAD_SIZE" "(d - 1) * PAGE_PAYLOAD_SIZE \<le> length payload"
    and "length pre = PAGE_SIZE"
  shows "foldO (encode_page payload d) [0..<j] (pre @ replicate (d * PAGE_SIZE) 0) =
    Ok ((pre @ concat (map (\<lambda>k. page_bytes (d + 1) k (page_data payload (k - 1))) [1..<Suc j])) @ replicate ((d - j) * PAGE_SIZE) 0)"
  using assms(1)
proof (induction j)
  case 0
  then show ?case by simp
next
  case (Suc j)
  let ?pages = "\<lambda>j. concat (map (\<lambda>k. page_bytes (d + 1) k (page_data payload (k - 1))) [1..<Suc j])"
  have len: "length (pre @ ?pages j) = (j + 1) * PAGE_SIZE"
    using assms(4) length_concat_pages [of "\<lambda>k. page_bytes (d + 1) k (page_data payload (k - 1))" 1 "Suc j"]
    by (simp add: length_page_data [simplified])
  have k: "j * PAGE_PAYLOAD_SIZE \<le> length payload"
    using Suc.prems assms(3) by (intro le_trans [OF mult_le_mono1 assms(3)]) simp
  have m: "PAGE_SIZE \<le> (d - j) * PAGE_SIZE" using Suc.prems by simp
  have "foldO (encode_page payload d) [0..<Suc j] (pre @ replicate (d * PAGE_SIZE) 0) =
      encode_page payload d j ((pre @ ?pages j) @ replicate ((d - j) * PAGE_SIZE) 0)"
    using Suc.IH Suc.prems by (simp add: foldO_snoc del: upt_Suc) (simp add: upt_Suc_append foldO_snoc)
  also have "\<dots> = Ok (((pre @ ?pages j) @ page_bytes (d + 1) (j + 1) (page_data payload j))
      @ replicate ((d - j) * PAGE_SIZE - PAGE_SIZE) 0)"
    by (rule encode_page_closed [OF len m k])
  also have "(d - j) * PAGE_SIZE - PAGE_SIZE = (d - Suc j) * PAGE_SIZE"
    using Suc.prems by (simp add: algebra_simps)
  finally show ?case by simp
qed

lemma encode_pages_version_closed:
  assumes e: "encode_pages_version s g v sc = Ok img"
  obtains payload n where "encode_payload_with_constraints s sc = Ok payload" "2 \<le> n" "n \<le> MAX_PAGES"
    "length payload \<le> (n - 1) * PAGE_PAYLOAD_SIZE" "img = page_file MAGIC v g payload n"
proof -
  from e obtain payload n img0 where p: "encode_payload_with_constraints s sc = Ok payload"
    and n: "n = max (div_ceil (length payload) PAGE_PAYLOAD_SIZE) 1 + 1" "n \<le> MAX_PAGES"
    and h: "encode_header (replicate (n * PAGE_SIZE) 0) v g payload n = Ok img0"
    and l: "foldO (encode_page payload (n - 1)) [0..<n - 1] img0 = Ok img"
    by (auto simp: encode_pages_version_def Let_def usize_checked_add_def outcome_simps
        split: if_splits option.splits)
  let ?d = "n - 1"
  have d: "1 \<le> ?d" "?d = max ((length payload + 4063) div 4064) 1" using n(1) by (auto simp: div_ceil_def)
  have up: "length payload \<le> ?d * PAGE_PAYLOAD_SIZE" using d(2) by (auto simp: max_def split: if_splits)
  have lo: "(?d - 1) * PAGE_PAYLOAD_SIZE \<le> length payload" using d(2) by (auto simp: max_def)
  let ?pre = "header_prefix MAGIC v g payload n @ le_bytes 8 (unat (fnv1a (header_prefix MAGIC v g payload n)))"
  have "img0 = ?pre @ replicate (n * PAGE_SIZE - 64) 0" using h n(1) by (simp add: encode_header_closed)
  also have "n * PAGE_SIZE - 64 = (PAGE_SIZE - 64) + ?d * PAGE_SIZE" using n(1) by simp
  finally have "img0 = header_bytes MAGIC v g payload n @ replicate (?d * PAGE_SIZE) 0"
    by (simp add: header_bytes_def replicate_add)
  then have "img = page_file MAGIC v g payload n"
    using l encode_pages_loop [of ?d ?d payload "header_bytes MAGIC v g payload n"] up lo n(1)
    by (simp add: page_file_def)
  then show thesis using that [OF p _ n(2) up] n(1) by simp
qed

section \<open>The reader accepts exactly the closed form\<close>

lemma page_bytes_has:
  "has_at bs st (page_bytes n k data) \<longleftrightarrow>
    has_at bs st [1] \<and> has_at bs (st + 1) [0, 0, 0] \<and> has_at bs (st + 4) (le_bytes 4 k)
    \<and> has_at bs (st + 8) (le_bytes 4 (length data))
    \<and> has_at bs (st + 12) (le_bytes 4 (if k + 1 = n then 0 else k + 1))
    \<and> has_at bs (st + 16) (le_bytes 8 (unat (fnv1a data))) \<and> has_at bs (st + 24) (le_bytes 8 0)
    \<and> has_at bs (st + 32) data \<and> has_at bs (st + 32 + length data) (replicate (PAGE_PAYLOAD_SIZE - length data) 0)"
proof -
  have l: "length [1 :: byte] = 1" "length [0, 0, 0 :: byte] = 3" by simp_all
  have a: "st + 1 + 3 = st + 4" "st + 4 + 4 = st + 8" "st + 8 + 4 = st + 12" "st + 12 + 4 = st + 16"
    "st + 16 + 8 = st + 24" "st + 24 + 8 = st + 32" by simp_all
  show ?thesis unfolding page_bytes_def has_at_append l length_le_bytes a ..
qed

lemma decode_page_sound:
  assumes d: "decode_page bs n plen k p = Ok p'"
  shows "\<exists>data. p' = p @ data \<and> length p \<le> plen \<and> length data = min (plen - length p) PAGE_PAYLOAD_SIZE
    \<and> has_at bs (k * PAGE_SIZE) (page_bytes n k data)"
proof -
  let ?st = "k * PAGE_SIZE"
  from d obtain ty fl ident used nxt reserved data sum unused
    where "index_at bs ?st = (Ok ty :: (io_error, _) outcome)" "index_range bs (?st + 1) (?st + 4) = (Ok fl :: (io_error, _) outcome)" "\<not> (ty \<noteq> 1 \<or> fl \<noteq> [0, 0, 0])"
      and "read_u32 bs (?st + 4) = Ok ident" "\<not> ident \<noteq> k" "read_u32 bs (?st + 8) = Ok used"
      and pl: "\<not> plen < length p" and "\<not> used \<noteq> min (plen - length p) PAGE_PAYLOAD_SIZE"
      and "read_u32 bs (?st + 12) = Ok nxt" "read_u64 bs (?st + 24) = Ok reserved"
      and "\<not> (nxt \<noteq> (if k + 1 = n then 0 else k + 1) \<or> reserved \<noteq> 0)"
      and "index_range bs (?st + PAGE_HEADER_SIZE) (?st + PAGE_HEADER_SIZE + used) = (Ok data :: (io_error, _) outcome)"
      and "read_u64 bs (?st + 16) = Ok sum" "\<not> unat (fnv1a data) \<noteq> sum"
      and "index_range bs (?st + PAGE_HEADER_SIZE + used) (?st + PAGE_SIZE) = (Ok unused :: (io_error, _) outcome)"
      and "\<not> list_ex (\<lambda>b. b \<noteq> 0) unused" and e: "Ok (p @ data) = (Ok p' :: (io_error, _) outcome)"
    unfolding decode_page_def Let_def by (elim outcome_elims) (rule that)
  then have len: "length data = min (plen - length p) PAGE_PAYLOAD_SIZE"
    and has: "has_at bs ?st [1]" "has_at bs (?st + 1) [0, 0, 0]" "has_at bs (?st + 4) (le_bytes 4 k)"
      "has_at bs (?st + 8) (le_bytes 4 (length data))" "has_at bs (?st + 12) (le_bytes 4 (if k + 1 = n then 0 else k + 1))"
      "has_at bs (?st + 16) (le_bytes 8 (unat (fnv1a data)))" "has_at bs (?st + 24) (le_bytes 8 0)" "has_at bs (?st + 32) data"
      "has_at bs (?st + 32 + length data) (replicate (PAGE_PAYLOAD_SIZE - length data) 0)"
    by (simp_all add: index_at_has index_range_has read_u32_has read_u64_has zeros_iff add.assoc)
  have "has_at bs ?st (page_bytes n k data)" using has len by (subst page_bytes_has) simp_all
  then show ?thesis using e len pl by auto
qed

lemma decode_page_complete:
  assumes data: "length p \<le> plen" "length data = min (plen - length p) PAGE_PAYLOAD_SIZE"
    and k: "k + 1 < 2 ^ 32" and has: "has_at bs (k * PAGE_SIZE) (page_bytes n k data)"
  shows "decode_page bs n plen k p = Ok (p @ data)"
proof -
  let ?st = "k * PAGE_SIZE"
  have len: "length data \<le> PAGE_PAYLOAD_SIZE" using data by simp
  note h = has [unfolded page_bytes_has]
  have r: "index_at bs ?st = Ok 1" "index_range bs (?st + 1) (?st + 4) = Ok [0, 0, 0]"
      "read_u32 bs (?st + 4) = Ok k" "read_u32 bs (?st + 8) = Ok (length data)"
      "read_u32 bs (?st + 12) = Ok (if k + 1 = n then 0 else k + 1)" "read_u64 bs (?st + 24) = Ok 0"
      "index_range bs (?st + PAGE_HEADER_SIZE) (?st + PAGE_HEADER_SIZE + length data) = Ok data"
      "read_u64 bs (?st + 16) = Ok (unat (fnv1a data))"
      "index_range bs (?st + PAGE_HEADER_SIZE + length data) (?st + PAGE_SIZE) = Ok (replicate (PAGE_PAYLOAD_SIZE - length data) 0)"
    using h k len by (auto simp: index_at_has index_range_has read_u32_has read_u64_has add.assoc)
  have z: "\<not> list_ex (\<lambda>b. b \<noteq> 0) (replicate (PAGE_PAYLOAD_SIZE - length data) (0 :: byte))"
    by (simp add: zeros_iff)
  show ?thesis
    unfolding decode_page_def Let_def r bindO.simps using data z by simp
qed

lemma decode_pages_loop_sound:
  "foldO (decode_page bs n plen) [i..<n] p = Ok p' \<Longrightarrow> 1 \<le> i \<Longrightarrow> i \<le> n \<Longrightarrow>
   length p = min plen ((i - 1) * PAGE_PAYLOAD_SIZE) \<Longrightarrow>
   (\<exists>r. p' = p @ r) \<and> length p' = min plen ((n - 1) * PAGE_PAYLOAD_SIZE)
     \<and> (\<forall>k \<in> {i..<n}. has_at bs (k * PAGE_SIZE) (page_bytes n k (page_data p' (k - 1))))"
proof (induction "n - i" arbitrary: i p)
  case 0
  then show ?case by simp
next
  case (Suc m)
  then have i: "i < n" and step: "[i..<n] = i # [Suc i..<n]" by (auto simp: upt_conv_Cons)
  from Suc.prems(1) obtain q where q: "decode_page bs n plen i p = Ok q" "foldO (decode_page bs n plen) [Suc i..<n] q = Ok p'"
    by (auto simp: step outcome_simps)
  obtain data where d: "q = p @ data" "length p \<le> plen" "length data = min (plen - length p) PAGE_PAYLOAD_SIZE"
      "has_at bs (i * PAGE_SIZE) (page_bytes n i data)"
    using decode_page_sound [OF q(1)] by blast
  have i1: "i = Suc (i - 1)" using Suc.prems(2) by simp
  have sz: "i * PAGE_PAYLOAD_SIZE = (i - 1) * PAGE_PAYLOAD_SIZE + PAGE_PAYLOAD_SIZE" by (subst i1) simp
  have lq: "length q = min plen ((Suc i - 1) * PAGE_PAYLOAD_SIZE)"
    using d Suc.prems(4) sz by (auto simp: min_def split: if_splits)
  obtain r where r: "p' = q @ r" and len: "length p' = min plen ((n - 1) * PAGE_PAYLOAD_SIZE)"
    and pages: "\<forall>k \<in> {Suc i..<n}. has_at bs (k * PAGE_SIZE) (page_bytes n k (page_data p' (k - 1)))"
  proof -
    have "m = n - Suc i" "1 \<le> Suc i" "Suc i \<le> n" using Suc.hyps(2) i by auto
    from Suc.hyps(1) [OF this(1) q(2) this(2,3) lq] that show thesis by blast
  qed
  have "page_data p' (i - 1) = data"
  proof (cases "plen < (i - 1) * PAGE_PAYLOAD_SIZE")
    case True
    then have "data = []" "length p' \<le> (i - 1) * PAGE_PAYLOAD_SIZE" using d Suc.prems(4) len by auto
    then show ?thesis by (simp add: page_data_def)
  next
    case False
    then have lp: "length p = (i - 1) * PAGE_PAYLOAD_SIZE" using Suc.prems(4) by simp
    show ?thesis
    proof (cases "length data = PAGE_PAYLOAD_SIZE")
      case True
      then show ?thesis using lp r d by (simp add: page_data_def)
    next
      case False
      then have "length p' \<le> length q" using d lp len Suc.prems(4) by auto
      then have "r = []" using r by simp
      then show ?thesis using lp r d by (simp add: page_data_def)
    qed
  qed
  then have "has_at bs (i * PAGE_SIZE) (page_bytes n i (page_data p' (i - 1)))" using d(4) by simp
  moreover have "k \<in> {i..<n} \<longleftrightarrow> k = i \<or> k \<in> {Suc i..<n}" for k using i by auto
  ultimately show ?case using r d(1) len pages by auto
qed

lemma decode_pages_loop_complete:
  assumes n: "n < 2 ^ 32" and pages: "\<forall>k \<in> {1..<n}. has_at bs (k * PAGE_SIZE) (page_bytes n k (page_data P (k - 1)))"
    and P: "length P \<le> (n - 1) * PAGE_PAYLOAD_SIZE"
  shows "1 \<le> i \<Longrightarrow> i \<le> n \<Longrightarrow>
    foldO (decode_page bs n (length P)) [i..<n] (take ((i - 1) * PAGE_PAYLOAD_SIZE) P) = Ok P"
proof (induction "n - i" arbitrary: i)
  case 0
  then have "i = n" by simp
  then show ?case using P by simp
next
  case (Suc m)
  then have i: "i < n" and step: "[i..<n] = i # [Suc i..<n]" by (auto simp: upt_conv_Cons)
  let ?p = "take ((i - 1) * PAGE_PAYLOAD_SIZE) P" and ?d = "page_data P (i - 1)"
  have i1: "i = Suc (i - 1)" using Suc.prems(1) by simp
  have sz: "i * PAGE_PAYLOAD_SIZE = (i - 1) * PAGE_PAYLOAD_SIZE + PAGE_PAYLOAD_SIZE" by (subst i1) simp
  have "decode_page bs n (length P) i ?p = Ok (?p @ ?d)"
    using pages i Suc.prems(1) n by (intro decode_page_complete) (auto simp: page_data_def min_def)
  also have "?p @ ?d = take ((Suc i - 1) * PAGE_PAYLOAD_SIZE) P"
    using sz by (simp add: page_data_def take_add)
  finally show ?case using Suc.hyps(1) [of "Suc i"] Suc.hyps(2) i by (simp add: step)
qed

definition page_file_ok :: "byte list \<Rightarrow> nat \<Rightarrow> nat \<Rightarrow> byte list \<Rightarrow> nat \<Rightarrow> bool" where
  "page_file_ok magic v g P n \<longleftrightarrow> length magic = 8 \<and> v < 2 ^ 32 \<and> g < 2 ^ 64
     \<and> 2 \<le> n \<and> n \<le> MAX_PAGES \<and> length P \<le> (n - 1) * PAGE_PAYLOAD_SIZE"

lemma header_bytes_has:
  assumes "length magic = 8"
  shows "has_at bs 0 (header_bytes magic v g P n) \<longleftrightarrow> has_at bs 0 magic \<and> has_at bs 8 (le_bytes 4 v)
    \<and> has_at bs 12 (le_bytes 4 PAGE_SIZE) \<and> has_at bs 16 (le_bytes 8 g) \<and> has_at bs 24 (le_bytes 8 (length P))
    \<and> has_at bs 32 (le_bytes 8 n) \<and> has_at bs 40 (le_bytes 8 (unat (fnv1a P))) \<and> has_at bs 48 (le_bytes 8 0)
    \<and> has_at bs 56 (le_bytes 8 (unat (fnv1a (header_prefix magic v g P n)))) \<and> has_at bs 64 (replicate (PAGE_SIZE - 64) 0)"
proof -
  have p: "has_at bs 0 (header_prefix magic v g P n) \<longleftrightarrow> has_at bs 0 magic \<and> has_at bs 8 (le_bytes 4 v)
    \<and> has_at bs 12 (le_bytes 4 PAGE_SIZE) \<and> has_at bs 16 (le_bytes 8 g) \<and> has_at bs 24 (le_bytes 8 (length P))
    \<and> has_at bs 32 (le_bytes 8 n) \<and> has_at bs 40 (le_bytes 8 (unat (fnv1a P))) \<and> has_at bs 48 (le_bytes 8 0)"
    unfolding header_prefix_def has_at_append length_le_bytes assms by simp
  show ?thesis
    unfolding header_bytes_def has_at_append length_le_bytes length_header_prefix [OF assms] p by simp
qed

lemma MAX_PAGES_eq: "MAX_PAGES = 16384"
  by (simp add: data_limits)

lemma page_payload_small: "n \<le> MAX_PAGES \<Longrightarrow> length P \<le> (n - 1) * PAGE_PAYLOAD_SIZE \<Longrightarrow> length P < 2 ^ 64"
  by (simp add: MAX_PAGES_eq)

lemma decode_pages_iff:
  "decode_pages bs a sc = Ok s \<longleftrightarrow>
     (\<exists>magic v g P n. page_file_ok magic v g P n \<and> bs = page_file magic v g P n \<and> decode_payload P a sc = Ok s)"
proof
  assume "decode_pages bs a sc = Ok s"
  then obtain ps fl h hsum tail N plen c n P sum
    where t: "\<not> length bs < PAGE_SIZE" "read_u32 bs 12 = Ok ps" "\<not> ps \<noteq> PAGE_SIZE" "read_u64 bs 48 = Ok fl" "\<not> fl \<noteq> 0"
      "index_range bs 0 56 = (Ok h :: (io_error, _) outcome)" "read_u64 bs 56 = Ok hsum" "\<not> unat (fnv1a h) \<noteq> hsum"
      "index_range bs 64 PAGE_SIZE = (Ok tail :: (io_error, _) outcome)" "\<not> list_ex (\<lambda>b. b \<noteq> 0) tail"
      "read_u64 bs 24 = Ok N" "usize_try_from N ''DISP Data payload length does not fit this target'' = Ok plen"
      "read_u64 bs 32 = Ok c" "usize_try_from c ''DISP Data page count does not fit this target'' = Ok n"
      and n: "\<not> (\<not> (2 \<le> n \<and> n \<le> MAX_PAGES) \<or> length bs \<noteq> n * PAGE_SIZE)" "\<not> plen > (n - 1) * PAGE_PAYLOAD_SIZE"
      and l: "foldO (decode_page bs n plen) [1..<n] [] = Ok P"
      and u: "read_u64 bs 40 = Ok sum" "\<not> unat (fnv1a P) \<noteq> sum" and d: "decode_payload P a sc = Ok s"
    unfolding decode_pages_def by (elim outcome_elims) (rule that)
  have n': "2 \<le> n" "n \<le> MAX_PAGES" "length bs = n * PAGE_SIZE" using n(1) by auto
  from decode_pages_loop_sound [OF l] n' n(2)
  have P: "length P = plen" "\<forall>k \<in> {1..<n}. has_at bs (k * PAGE_SIZE) (page_bytes n k (page_data P (k - 1)))"
    by simp_all
  define magic where "magic = take 8 bs"
  define v where "v = from_le_bytes (take 4 (drop 8 bs))"
  define g where "g = from_le_bytes (take 8 (drop 16 bs))"
  have lb: "64 \<le> length bs" using n' by simp
  have m: "length magic = 8" "has_at bs 0 magic" using lb by (simp_all add: magic_def has_at_def)
  have v: "v < 2 ^ 32" "has_at bs 8 (le_bytes 4 v)"
    using lb from_le_bytes_less [of "take 4 (drop 8 bs)"] le_bytes_from_le_bytes [of "take 4 (drop 8 bs)"]
    by (simp_all add: v_def has_at_def)
  have g: "g < 2 ^ 64" "has_at bs 16 (le_bytes 8 g)"
    using lb from_le_bytes_less [of "take 8 (drop 16 bs)"] le_bytes_from_le_bytes [of "take 8 (drop 16 bs)"]
    by (simp_all add: g_def has_at_def)
  have f: "has_at bs 12 (le_bytes 4 PAGE_SIZE)" "has_at bs 24 (le_bytes 8 (length P))" "has_at bs 32 (le_bytes 8 n)"
      "has_at bs 40 (le_bytes 8 (unat (fnv1a P)))" "has_at bs 48 (le_bytes 8 0)"
      "has_at bs 64 (replicate (PAGE_SIZE - 64) 0)"
    using t(2-5,9-14) u P(1) by (simp_all add: read_u32_has read_u64_has index_range_has zeros_iff outcome_simps)
  have "has_at bs 0 (header_prefix magic v g P n)"
    unfolding header_prefix_def has_at_append length_le_bytes m(1) using m(2) v(2) g(2) f by simp
  then have h: "h = header_prefix magic v g P n"
    using t(6) m(1) by (auto simp: index_range_has intro: has_at_unique)
  then have "has_at bs 56 (le_bytes 8 (unat (fnv1a (header_prefix magic v g P n))))"
    using t(7,8) by (simp add: read_u64_has)
  then have "has_at bs 0 (header_bytes magic v g P n)" using header_bytes_has [OF m(1)] m(2) v(2) g(2) f by simp
  then have "bs = page_file magic v g P n" using page_file_has [OF m(1) _ n'(3)] n'(1) P(2) by simp
  moreover have "page_file_ok magic v g P n" using m(1) v(1) g(1) n' n(2) P(1) by (simp add: page_file_ok_def)
  ultimately show "\<exists>magic v g P n. page_file_ok magic v g P n \<and> bs = page_file magic v g P n \<and> decode_payload P a sc = Ok s"
    using d by blast
next
  assume "\<exists>magic v g P n. page_file_ok magic v g P n \<and> bs = page_file magic v g P n \<and> decode_payload P a sc = Ok s"
  then obtain magic v g P n where ok: "page_file_ok magic v g P n" and bs: "bs = page_file magic v g P n"
    and d: "decode_payload P a sc = Ok s" by blast
  have m: "length magic = 8" and n: "2 \<le> n" "n \<le> MAX_PAGES" "length P \<le> (n - 1) * PAGE_PAYLOAD_SIZE"
    using ok by (simp_all add: page_file_ok_def)
  have len: "length bs = n * PAGE_SIZE" using bs m n by simp
  have has: "has_at bs 0 (header_bytes magic v g P n)"
      "\<forall>k \<in> {1..<n}. has_at bs (k * PAGE_SIZE) (page_bytes n k (page_data P (k - 1)))"
    using iffD1 [OF page_file_has [OF m _ len] bs] n(1) by simp_all
  have pre: "has_at bs 0 (header_prefix magic v g P n)" using has(1) by (simp add: header_bytes_def has_at_append)
  note f = has(1) [unfolded header_bytes_has [OF m]]
  have n32: "n < 2 ^ 32" using n by (simp add: MAX_PAGES_eq)
  have P64: "length P < 2 ^ 64" using page_payload_small [OF n(2,3)] .
  have r: "read_u32 bs 12 = Ok PAGE_SIZE" "read_u64 bs 48 = Ok 0" "index_range bs 0 56 = (Ok (header_prefix magic v g P n) :: (io_error, _) outcome)"
      "read_u64 bs 56 = Ok (unat (fnv1a (header_prefix magic v g P n)))"
      "index_range bs 64 PAGE_SIZE = (Ok (replicate (PAGE_SIZE - 64) 0) :: (io_error, _) outcome)"
      "read_u64 bs 24 = Ok (length P)" "read_u64 bs 32 = Ok n" "read_u64 bs 40 = Ok (unat (fnv1a P))"
    using f pre m n32 P64 by (auto simp: read_u32_has read_u64_has index_range_has)
  have us: "usize_try_from (length P) x = Ok (length P)" "usize_try_from n x = Ok n" for x
    using P64 n32 by (simp_all add: usize_try_from_def USIZE_MAX_def)
  have l: "foldO (decode_page bs n (length P)) [1..<n] [] = Ok P"
    using decode_pages_loop_complete [OF n32 has(2) n(3), of 1] n by simp
  show "decode_pages bs a sc = Ok s"
    unfolding decode_pages_def r us bindO.simps
    using len n d l by (simp add: zeros_iff)
qed

section \<open>No panic\<close>

lemma decode_page_np:
  assumes "(k + 1) * PAGE_SIZE \<le> length bs" "length p \<le> plen"
  shows "no_panic (decode_page bs n plen k p)"
  using assms
  by (auto simp: decode_page_def Let_def index_at_def intro!: no_panic_bindO read_u32_np read_u64_np index_range_np)

lemma decode_pages_np: "no_panic (decode_pages bs a sc)"
proof -
  have loop: "no_panic (foldO (decode_page bs n plen) [1..<n] [])" if n: "length bs = n * PAGE_SIZE" for n plen
  proof (rule no_panic_foldO_invariant [where I = "\<lambda>p. length p \<le> plen"])
    show "no_panic (decode_page bs n plen k p)" if "k \<in> set [1..<n]" "length p \<le> plen" for k p
      using that n by (intro decode_page_np) auto
    show "length q \<le> plen" if "decode_page bs n plen k p = Ok q" for k p q
      using decode_page_sound [OF that] by auto
  qed simp
  show ?thesis
    by (auto simp: decode_pages_def intro!: no_panic_bindO read_u32_np read_u64_np loop [simplified] decode_payload_np)
qed

lemma decode_np: "no_panic (decode bs)"
  by (auto simp: decode_def decode_legacy_def LEGACY_HEADER_SIZE_def Let_def
      intro!: no_panic_bindO read_u32_np read_u64_np decode_pages_np decode_payload_np)

section \<open>Round trip\<close>

lemma decode_page_file:
  assumes ok: "page_file_ok MAGIC VERSION g P n" and d: "decode_payload P 15 True = Ok s"
  shows "decode (page_file MAGIC VERSION g P n) = Ok s"
proof -
  let ?bs = "page_file MAGIC VERSION g P n"
  have n: "2 \<le> n" "n \<le> MAX_PAGES" using ok by (simp_all add: page_file_ok_def)
  have len: "length ?bs = n * PAGE_SIZE" using n by simp
  have "has_at ?bs 0 (header_bytes MAGIC VERSION g P n)"
    using iffD1 [OF page_file_has [OF length_MAGIC _ len] refl] n by simp
  then have h: "has_at ?bs 0 MAGIC" "has_at ?bs 8 (le_bytes 4 VERSION)"
    by (simp_all add: header_bytes_has)
  have r: "index_range ?bs 0 8 = (Ok MAGIC :: (io_error, _) outcome)" "read_u32 ?bs 8 = Ok VERSION"
    using h by (auto simp: index_range_has read_u32_has VERSION_def)
  have "decode_pages ?bs 15 True = Ok s"
    using ok d decode_pages_iff by blast
  then show ?thesis
    using n unfolding decode_def r bindO.simps len
    by (simp add: MAX_PAGES_eq MAX_FILE_BYTES_def VERSION_def LEGACY_VERSION_def PAGE_VERSION_def UNIQUE_VERSION_def INDEX_VERSION_def)
qed

lemma encode_pages_closed:
  assumes "encode_pages s g = Ok img" "snapshot_admits 15 s" "g < 2 ^ 64"
  obtains P n where "page_file_ok MAGIC VERSION g P n" "img = page_file MAGIC VERSION g P n"
    "decode_payload P 15 True = Ok (sorted_snapshot s)"
proof -
  obtain P n where P: "encode_payload_with_constraints s True = Ok P" and n: "2 \<le> n" "n \<le> MAX_PAGES"
      "length P \<le> (n - 1) * PAGE_PAYLOAD_SIZE" and img: "img = page_file MAGIC VERSION g P n"
    using encode_pages_version_closed [of s g VERSION True img] assms(1) unfolding encode_pages_def by blast
  have ok: "page_file_ok MAGIC VERSION g P n" using n assms(3) by (simp add: page_file_ok_def VERSION_def)
  have "length P \<le> USIZE_MAX" using page_payload_small [OF n(2,3)] by (simp add: USIZE_MAX_def)
  from decode_payload_iff [OF this, of 15 True "sorted_snapshot s"] encode_payload_sound [OF P assms(2)]
  have "decode_payload P 15 True = Ok (sorted_snapshot s)" by simp
  then show thesis using that [OF ok img] by blast
qed

lemma decode_encode_pages:
  assumes "encode_pages s g = Ok img" "snapshot_admits 15 s" "g < 2 ^ 64"
  shows "decode img = Ok (sorted_snapshot s)"
  using encode_pages_closed [OF assms] decode_page_file by metis

text \<open>What \<^verbatim>\<open>decode\<close> returns satisfies the invariant of snapshots, whatever the version of the file.\<close>

lemma decode_payload_ok:
  assumes "decode_payload p a sc = Ok s" "a = a AND 15" "length p \<le> USIZE_MAX"
  shows "snapshot_ok s"
  using assms decode_payload_iff [of p a sc s] snapshot_fits_ok by metis

lemma decode_pages_ok: "decode_pages bs a sc = Ok s \<Longrightarrow> a = a AND 15 \<Longrightarrow> snapshot_ok s"
  using decode_payload_ok page_payload_small
  by (fastforce simp: decode_pages_iff page_file_ok_def USIZE_MAX_def)

lemma decode_legacy_ok: "decode_legacy bs = Ok s \<Longrightarrow> length bs \<le> MAX_FILE_BYTES \<Longrightarrow> snapshot_ok s"
  unfolding decode_legacy_def
  by (elim outcome_elims) (erule decode_payload_ok, auto simp: index_range_has MAX_FILE_BYTES_def USIZE_MAX_def)

lemma decode_cases:
  assumes "decode bs = Ok s"
  obtains "decode_legacy bs = Ok s" "length bs \<le> MAX_FILE_BYTES" "read_u32 bs 8 = Ok LEGACY_VERSION"
    | a sc where "decode_pages bs a sc = Ok s" "a = a AND 15"
proof -
  from assms obtain v where v: "read_u32 bs 8 = Ok v" "\<not> length bs > MAX_FILE_BYTES"
    and r: "(if v = LEGACY_VERSION then decode_legacy bs
      else if v = PAGE_VERSION then decode_pages bs 3 False
      else if v = UNIQUE_VERSION then decode_pages bs 7 False
      else if v = INDEX_VERSION then decode_pages bs 15 False
      else if v = VERSION then decode_pages bs 15 True
      else Err (invalid (''unsupported DISP Data snapshot version '' @ show_nat v))) = Ok s"
    unfolding decode_def by (elim outcome_elims) (rule that)
  have "(3 :: byte) = 3 AND 15" "(7 :: byte) = 7 AND 15" "(15 :: byte) = 15 AND 15" by simp_all
  then show thesis using r v that by (auto split: if_splits)
qed

lemma decode_ok: "decode bs = Ok s \<Longrightarrow> snapshot_ok s"
  by (elim decode_cases) (blast intro: decode_legacy_ok decode_pages_ok)+

section \<open>Detection of damaged bytes\<close>

lemma fnv_prime_inverse: "(x * 0x100000001b3) * 0xce965057aff6957b = (x :: u64)"
proof -
  have "(x * 0x100000001b3) * 0xce965057aff6957b = x * (0x100000001b3 * 0xce965057aff6957b :: u64)"
    by (simp only: mult.assoc)
  also have "(0x100000001b3 * 0xce965057aff6957b :: u64) = 1" by simp
  finally show ?thesis by simp
qed

lemma xor_cancel: "(a :: u64) XOR b = a XOR c \<longleftrightarrow> b = c" "b XOR a = c XOR a \<longleftrightarrow> b = c"
  by (auto simp: bit_eq_iff bit_simps)

lemma fnv_step_inj: "fnv_step h b = fnv_step h' b \<longleftrightarrow> h = h'" "fnv_step h b = fnv_step h b' \<longleftrightarrow> b = b'"
proof -
  have "x * 0x100000001b3 = y * 0x100000001b3 \<longleftrightarrow> x = y" for x y :: u64
    by (metis fnv_prime_inverse)
  moreover have "ucast b = (ucast b' :: u64) \<longleftrightarrow> b = b'" for b b' :: byte
  proof -
    have "unat (ucast c :: u64) = unat c" for c :: byte
    proof -
      have "unat c < 2 ^ 64" by (rule less_trans [OF unat_byte_less]) simp
      then show ?thesis by (simp add: unsigned_ucast_eq take_bit_nat_eq_self)
    qed
    then show ?thesis by (metis word_unat_eq_iff)
  qed
  ultimately show "fnv_step h b = fnv_step h' b \<longleftrightarrow> h = h'" "fnv_step h b = fnv_step h b' \<longleftrightarrow> b = b'"
    by (simp_all add: fnv_step_def xor_cancel)
qed

lemma fnv_foldl_inj: "foldl fnv_step h xs = foldl fnv_step h' xs \<longleftrightarrow> h = h'"
  by (induction xs arbitrary: h h') (simp_all add: fnv_step_inj)

lemma fnv1a_update:
  assumes "i < length xs" "fnv1a (xs[i := b]) = fnv1a xs"
  shows "b = xs ! i"
proof -
  have "fnv1a xs = fnv1a (take i xs @ xs ! i # drop (Suc i) xs)"
    by (rule arg_cong [OF id_take_nth_drop [OF assms(1)]])
  moreover have "fnv1a (xs[i := b]) = fnv1a (take i xs @ b # drop (Suc i) xs)"
    by (rule arg_cong [OF upd_conv_take_nth_drop [OF assms(1)]])
  ultimately have "fnv1a (take i xs @ b # drop (Suc i) xs) = fnv1a (take i xs @ xs ! i # drop (Suc i) xs)"
    using assms(2) by simp
  then show ?thesis unfolding fnv1a_def foldl_append foldl_Cons fnv_foldl_inj fnv_step_inj(2) .
qed

lemma has_at_nth:
  assumes "has_at bs a xs" "a \<le> i" "i < a + length xs"
  shows "bs ! i = xs ! (i - a)"
proof -
  have "take (length xs) (drop a bs) ! (i - a) = bs ! i"
    using assms(2,3) has_at_length [OF assms(1)] by simp
  then show ?thesis using assms(1) by (simp add: has_at_def)
qed

lemma has_at_outside:
  "i < a \<or> a + length xs \<le> i \<Longrightarrow> has_at (bs[i := b]) a xs \<longleftrightarrow> has_at bs a xs"
  by (auto simp: has_at_def take_update_cancel drop_update_swap)

text \<open>A segment that both files fix, and a segment under a checksum, cannot hold the damaged byte.\<close>

lemma fixed_segment:
  assumes "has_at bs a xs" "has_at (bs[i := b]) a xs" "a \<le> i" "i < a + length xs"
  shows "b = bs ! i"
  using has_at_nth [OF assms(1,3,4)] has_at_nth [OF assms(2,3,4)] assms(1,4)
  by (simp add: has_at_def)

lemma checked_segment:
  assumes x: "has_at bs a xs" and y: "has_at (bs[i := b]) a ys" and len: "length xs = length ys"
    and sum: "fnv1a xs = fnv1a ys" and i: "a \<le> i" "i < a + length xs"
  shows "b = bs ! i"
proof -
  have "ys = xs[i - a := b]"
    using x y len i by (simp add: has_at_def take_update_swap drop_update_swap)
  then have "fnv1a (xs[i - a := b]) = fnv1a xs" using sum by simp
  from fnv1a_update [OF _ this] have "b = xs ! (i - a)" using i by simp
  then show ?thesis using has_at_nth [OF x i] by simp
qed

lemma checksum_eq: "le_bytes 8 (unat x) = le_bytes 8 (unat y) \<longleftrightarrow> x = (y :: u64)"
proof
  assume "le_bytes 8 (unat x) = le_bytes 8 (unat y)"
  then have "from_le_bytes (le_bytes 8 (unat x)) = from_le_bytes (le_bytes 8 (unat y))" by simp
  then show "x = y" by (simp add: word_unat_eq_iff)
qed simp

lemma le_bytes_inj: "le_bytes k m = le_bytes k n \<Longrightarrow> m < 256 ^ k \<Longrightarrow> n < 256 ^ k \<Longrightarrow> m = n"
  by (metis from_le_bytes_le_bytes)

lemma header_damage:
  assumes m: "length m = 8" "length m' = 8"
    and h: "has_at bs 0 (header_bytes m v g P n)" "has_at (bs[i := b]) 0 (header_bytes m' v' g' P' n')"
    and i: "i < PAGE_SIZE"
  shows "b = bs ! i"
proof -
  let ?h = "header_prefix m v g P n" and ?h' = "header_prefix m' v' g' P' n'"
  have p: "has_at bs 0 ?h" "has_at (bs[i := b]) 0 ?h'" "has_at bs 56 (le_bytes 8 (unat (fnv1a ?h)))"
      "has_at (bs[i := b]) 56 (le_bytes 8 (unat (fnv1a ?h')))" "has_at bs 64 (replicate (PAGE_SIZE - 64) 0)"
      "has_at (bs[i := b]) 64 (replicate (PAGE_SIZE - 64) 0)"
    using h m by (simp_all add: header_bytes_def has_at_append)
  consider "i < 56" | "56 \<le> i" "i < 64" | "64 \<le> i" by linarith
  then show ?thesis
  proof cases
    case 1
    then have "has_at bs 56 (le_bytes 8 (unat (fnv1a ?h')))" using p(4) by (simp add: has_at_outside)
    then have "le_bytes 8 (unat (fnv1a ?h)) = le_bytes 8 (unat (fnv1a ?h'))" by (rule has_at_unique [OF p(3)]) simp
    then have "fnv1a ?h = fnv1a ?h'" by (simp only: checksum_eq)
    then show ?thesis using checked_segment [OF p(1,2)] 1 m by simp
  next
    case 2
    then have "has_at bs 0 ?h'" using p(2) m by (simp add: has_at_outside)
    then have "?h = ?h'" by (rule has_at_unique [OF p(1)]) (simp add: m)
    then show ?thesis using fixed_segment [OF p(3)] p(4) 2 by simp
  next
    case 3
    then show ?thesis using fixed_segment [OF p(5,6)] i by simp
  qed
qed

lemma page_damage:
  assumes len: "length d = length d'" "length d \<le> PAGE_PAYLOAD_SIZE"
    and h: "has_at bs st (page_bytes n k d)" "has_at (bs[i := b]) st (page_bytes n k d')"
    and i: "st \<le> i" "i < st + PAGE_SIZE"
  shows "b = bs ! i"
proof -
  note p = h(1) [unfolded page_bytes_has] and q = h(2) [unfolded page_bytes_has]
  let ?pre = "[1] @ [0, 0, 0] @ le_bytes 4 k @ le_bytes 4 (length d) @ le_bytes 4 (if k + 1 = n then 0 else k + 1)"
  have pre: "has_at bs st ?pre" "has_at (bs[i := b]) st ?pre"
  proof -
    have "\<exists>r. page_bytes n k d = ?pre @ r" "\<exists>r. page_bytes n k d' = ?pre @ r"
      using len(1) by (auto simp: page_bytes_def)
    then show "has_at bs st ?pre" "has_at (bs[i := b]) st ?pre" using h by (metis has_at_append)+
  qed
  consider "i < st + 16" | "st + 16 \<le> i" "i < st + 24" | "st + 24 \<le> i" "i < st + 32"
    | "st + 32 \<le> i" "i < st + 32 + length d" | "st + 32 + length d \<le> i" by linarith
  then show ?thesis
  proof cases
    case 1
    then show ?thesis using fixed_segment [OF pre] i by simp
  next
    case 2
    then have "has_at bs (st + 32) d'" using q by (simp add: has_at_outside)
    then have "d = d'" using has_at_unique [of bs "st + 32" d d'] p len by simp
    then show ?thesis using fixed_segment [of bs "st + 16" "le_bytes 8 (unat (fnv1a d))"] p q 2 by simp
  next
    case 3
    then show ?thesis using fixed_segment [of bs "st + 24" "le_bytes 8 0"] p q by simp
  next
    case 4
    then have "has_at bs (st + 16) (le_bytes 8 (unat (fnv1a d')))" using q by (simp add: has_at_outside)
    then have "fnv1a d = fnv1a d'"
      using has_at_unique [of bs "st + 16" "le_bytes 8 (unat (fnv1a d))" "le_bytes 8 (unat (fnv1a d'))"] p
      by (simp add: checksum_eq)
    then show ?thesis using checked_segment [of bs "st + 32" d i b d'] p q len 4 by simp
  next
    case 5
    then show ?thesis
      using fixed_segment [of bs "st + 32 + length d" "replicate (PAGE_PAYLOAD_SIZE - length d) 0"] p q len i by simp
  qed
qed

lemma page_file_damage:
  assumes ok: "page_file_ok m v g P n" "page_file_ok m' v' g' P' n'"
    and eq: "(page_file m v g P n)[i := b] = page_file m' v' g' P' n'" and i: "i < length (page_file m v g P n)"
  shows "b = page_file m v g P n ! i"
proof -
  let ?f = "page_file m v g P n"
  have m: "length m = 8" "length m' = 8" and n: "2 \<le> n" "2 \<le> n'" and P: "length P < 2 ^ 64" "length P' < 2 ^ 64"
    using ok page_payload_small by (auto simp: page_file_ok_def)
  have lens: "length ?f = n * PAGE_SIZE" "length (?f[i := b]) = n' * PAGE_SIZE" using m n eq by simp_all
  then have nn: "n' = n" by simp
  have f: "has_at ?f 0 (header_bytes m v g P n)"
      "\<forall>k \<in> {1..<n}. has_at ?f (k * PAGE_SIZE) (page_bytes n k (page_data P (k - 1)))"
    using iffD1 [OF page_file_has [OF m(1) _ lens(1)] refl] n by simp_all
  have f': "has_at (?f[i := b]) 0 (header_bytes m' v' g' P' n)"
      "\<forall>k \<in> {1..<n}. has_at (?f[i := b]) (k * PAGE_SIZE) (page_bytes n k (page_data P' (k - 1)))"
    using iffD1 [OF page_file_has [OF m(2) _ lens(2)] eq] n by (simp_all add: nn)
  show ?thesis
  proof (cases "i < PAGE_SIZE")
    case True
    then show ?thesis using header_damage [OF m f(1) f'(1)] by simp
  next
    case False
    let ?k = "i div PAGE_SIZE"
    have k: "?k \<in> {1..<n}" "?k * PAGE_SIZE \<le> i" "i < ?k * PAGE_SIZE + PAGE_SIZE"
      using False i lens(1) by (auto simp: less_mult_imp_div_less intro: dividend_less_div_times)
    have "has_at ?f 24 (le_bytes 8 (length P))" "has_at ?f 24 (le_bytes 8 (length P'))"
      using f(1) f'(1) False m by (simp_all add: header_bytes_has has_at_outside)
    then have "le_bytes 8 (length P) = le_bytes 8 (length P')" using has_at_unique by simp
    then have "length P = length P'" using P by (intro le_bytes_inj [of 8]) simp_all
    then have "length (page_data P (?k - 1)) = length (page_data P' (?k - 1))" by (simp add: page_data_def)
    then show ?thesis
      using page_damage [OF _ length_page_data, of P "?k - 1" "page_data P' (?k - 1)" ?f "?k * PAGE_SIZE" n ?k i b] f(2) f'(2) k
      by blast
  qed
qed

lemma decode_damaged:
  assumes ok: "page_file_ok m v g P n" and v: "v \<noteq> LEGACY_VERSION" and i: "i < length (page_file m v g P n)"
    and b: "b \<noteq> page_file m v g P n ! i"
  shows "\<exists>e. decode ((page_file m v g P n)[i := b]) = Err e"
proof -
  let ?f = "page_file m v g P n"
  have False if d: "decode (?f[i := b]) = Ok s" for s
    using d
  proof (cases rule: decode_cases)
    case 1
    have m: "length m = 8" and n: "2 \<le> n" using ok by (simp_all add: page_file_ok_def)
    have lens: "length ?f = n * PAGE_SIZE" using m n by simp
    have h: "has_at ?f 12 (le_bytes 4 PAGE_SIZE)" "has_at ?f 8 (le_bytes 4 v)"
      using iffD1 [OF page_file_has [OF m _ lens] refl] n by (simp_all add: header_bytes_has m)
    have z: "has_at (?f[i := b]) 12 (le_bytes 4 0)"
      using 1(1) unfolding decode_legacy_def by (elim outcome_elims) (simp add: read_u32_has)
    have w: "has_at (?f[i := b]) 8 (le_bytes 4 LEGACY_VERSION)" using 1(3) by (simp add: read_u32_has)
    show False
    proof (cases "8 \<le> i \<and> i < 12")
      case True
      then have "le_bytes 4 PAGE_SIZE = le_bytes 4 0"
        using z h(1) has_at_unique by (simp add: has_at_outside)
      then have "PAGE_SIZE = 0" by (rule le_bytes_inj) simp_all
      then show False by simp
    next
      case False
      then have "le_bytes 4 v = le_bytes 4 LEGACY_VERSION"
        using w h(2) has_at_unique by (auto simp: has_at_outside)
      moreover have "v < 256 ^ 4" using ok by (simp add: page_file_ok_def)
      ultimately have "v = LEGACY_VERSION" by (intro le_bytes_inj [of 4]) (simp_all add: LEGACY_VERSION_def)
      then show False using v by simp
    qed
  next
    case (2 a sc)
    then obtain m' v' g' P' n' where "page_file_ok m' v' g' P' n'" "?f[i := b] = page_file m' v' g' P' n'"
      by (auto simp: decode_pages_iff)
    then show False using page_file_damage [OF ok _ _ i] b by blast
  qed
  then show ?thesis using decode_np [of "?f[i := b]"] by (cases "decode (?f[i := b])") auto
qed

section \<open>Properties\<close>

lemma encode_pages_total:
  assumes P: "encode_payload_with_constraints s True = Ok P" and len: "length P \<le> (MAX_PAGES - 1) * PAGE_PAYLOAD_SIZE"
  shows "\<exists>img. encode_pages s g = Ok img"
proof -
  let ?d = "max (div_ceil (length P) PAGE_PAYLOAD_SIZE) 1"
  have "(length P + 4063) div 4064 \<le> 16383" using len by (simp add: MAX_PAGES_eq)
  then have d: "?d + 1 \<le> MAX_PAGES" by (simp add: MAX_PAGES_eq div_ceil_def)
  then have c: "(case usize_checked_add ?d 1 of None \<Rightarrow> None | Some c \<Rightarrow> if c \<le> MAX_PAGES then Some c else None) = Some (?d + 1)"
    by (simp add: usize_checked_add_def USIZE_MAX_def MAX_PAGES_eq)
  have up: "length P \<le> ?d * PAGE_PAYLOAD_SIZE" and lo: "(?d - 1) * PAGE_PAYLOAD_SIZE \<le> length P"
    by (auto simp: div_ceil_def max_def)
  let ?h = "header_bytes MAGIC VERSION g P (?d + 1)"
  have r: "replicate ((?d + 1) * PAGE_SIZE - 64) (0 :: byte) = replicate (PAGE_SIZE - 64) 0 @ replicate (?d * PAGE_SIZE) 0"
    by (simp flip: replicate_add)
  have "encode_header (replicate ((?d + 1) * PAGE_SIZE) 0) VERSION g P (?d + 1) = Ok (?h @ replicate (?d * PAGE_SIZE) 0)"
    by (subst encode_header_closed) (simp, simp only: r, simp add: header_bytes_def)
  then have "encode_pages s g = foldO (encode_page P ?d) [0..<?d] (?h @ replicate (?d * PAGE_SIZE) 0)"
    unfolding encode_pages_def encode_pages_version_def P bindO.simps Let_def c ok_or_simps by simp
  then show ?thesis using encode_pages_loop [of ?d ?d P ?h] up lo by simp
qed

text \<open>A store with one table, used to instantiate the properties.\<close>

definition demo_field :: "string \<Rightarrow> bool \<Rightarrow> field" where
  "demo_field n p = \<lparr>field_name = n, storage = ''int'', optional = \<not> p, primary = p, unique = False, indexed = p\<rparr>"

definition demo :: snapshot where
  "demo = \<lparr>tables = [\<lparr>table_name = ''t'', table_fields = [demo_field ''id'' True, demo_field ''v'' False],
     constraints = [\<lparr>constraint_name = ''c'', constraint_unique = True, constraint_fields = [''v'', ''id'']\<rparr>],
     rows = [[1, 2], []]\<rparr>]\<rparr>"

lemmas demo_defs = demo_def demo_field_def

lemma demo_admits: "snapshot_admits 15 demo"
  by (simp add: demo_defs snapshot_admits_def table_admits_def field_admits_def constraint_admits_def
      utf8_valid_def field_flags_def MAX_FIELDS_def)

lemma demo_sorted: "sorted_snapshot demo = demo"
  by (simp add: demo_defs sorted_snapshot_def)

lemma demo_payload: "\<exists>P. encode_payload_with_constraints demo True = Ok P \<and> length P < 200"
  by (simp add: demo_defs encode_payload_with_constraints_def encode_table_def encode_field_def encode_constraint_def
      encode_constrained_def encode_row_def push_bytes_def push_u32_def push_u64_def data_limits Let_def
      cong: bindO_weak_cong)

lemma demo_pages: "\<exists>img. encode_pages demo 1 = Ok img"
proof -
  obtain P where "encode_payload_with_constraints demo True = Ok P" "length P < 200" using demo_payload by blast
  then show ?thesis using encode_pages_total [of demo P 1] by (simp add: MAX_PAGES_eq)
qed

text \<open>C21: \<^verbatim>\<open>decode_payload\<close> accepts a byte string exactly when it is the canonical encoding of a
  well-formed snapshot, and then returns that snapshot: no two payloads decode to the same
  snapshot, and nothing is accepted that the encoder could not have written.\<close>

theorem decode_payload_canonical:
  assumes "length p \<le> USIZE_MAX"
  shows "decode_payload p 15 True = Ok s \<longleftrightarrow> snapshot_fits 15 True s \<and> p = payload_bytes True s"
  using decode_payload_iff [OF assms, of 15 True s] by simp

theorem decode_payload_canonical_witness:
  "\<exists>p. length p \<le> USIZE_MAX \<and> decode_payload p 15 True = Ok demo \<and> p = payload_bytes True demo"
proof -
  obtain P where P: "encode_payload_with_constraints demo True = Ok P" "length P < 200" using demo_payload by blast
  then have len: "length P \<le> USIZE_MAX" by (simp add: USIZE_MAX_def)
  show ?thesis
    using encode_payload_sound [OF P(1) demo_admits] decode_payload_canonical [OF len, of demo] len
    by (auto simp: demo_sorted)
qed

text \<open>C20: a page image that \<^verbatim>\<open>encode_pages\<close> writes decodes to the snapshot with its tables in name order.
  The hypotheses are that every \<^verbatim>\<open>String\<close> is UTF-8, that no table has more than 4096 constraints,
  and that the generation is a 64-bit number.\<close>

theorem encode_decode_roundtrip:
  assumes "encode_pages s g = Ok img" "snapshot_admits 15 s" "g < 2 ^ 64"
  shows "decode img = Ok (sorted_snapshot s)"
  using decode_encode_pages [OF assms] .

theorem encode_decode_roundtrip_witness:
  "\<exists>img. encode_pages demo 1 = Ok img \<and> decode img = Ok demo"
  using demo_pages encode_decode_roundtrip [of demo 1, OF _ demo_admits] demo_sorted by auto

text \<open>C23: \<^verbatim>\<open>decode\<close> returns a snapshot or an error on every byte string of every version; it never indexes
  outside the file and never underflows.\<close>

theorem decode_no_panic: "no_panic (decode bs)"
  by (rule decode_np)

text \<open>C22: whatever the bytes and the format version, a snapshot that \<^verbatim>\<open>decode\<close> returns is well formed: table,
  field and constraint names are unique and bounded, every table has exactly one primary field, and
  every constraint names at least two different fields of its table.\<close>

theorem decode_invariant:
  assumes "decode bs = Ok s"
  shows "snapshot_ok s"
  using decode_ok [OF assms] .

theorem decode_invariant_witness: "\<exists>bs. decode bs = Ok demo \<and> snapshot_ok demo"
proof -
  obtain img where "encode_pages demo 1 = Ok img" using demo_pages by blast
  then have "decode img = Ok demo" using decode_encode_pages [of demo 1 img] demo_admits demo_sorted by simp
  then show ?thesis using decode_invariant [of img demo] by blast
qed

text \<open>C19: changing any one byte of a stored image, in the header, in a page header, in the data or in the
  padding, makes \<^verbatim>\<open>decode\<close> fail; a single damaged byte is never read as a different store.\<close>

theorem damage_detected:
  assumes "encode_pages s g = Ok img" "g < 2 ^ 64" "i < length img" "b \<noteq> img ! i"
  shows "\<exists>e. decode (img[i := b]) = Err e"
proof -
  obtain P n where n: "2 \<le> n" "n \<le> MAX_PAGES" "length P \<le> (n - 1) * PAGE_PAYLOAD_SIZE"
    and img: "img = page_file MAGIC VERSION g P n"
    using encode_pages_version_closed [of s g VERSION True img] assms(1) unfolding encode_pages_def by blast
  have "page_file_ok MAGIC VERSION g P n" using n assms(2) by (simp add: page_file_ok_def VERSION_def)
  then show ?thesis
    using decode_damaged [of MAGIC VERSION g P n i b] assms(3,4) img by (simp add: VERSION_def LEGACY_VERSION_def)
qed

theorem damage_detected_witness:
  "\<exists>img. encode_pages demo 1 = Ok img \<and> (\<exists>e. decode (img[0 := img ! 0 + 1]) = Err e)"
proof -
  obtain img where img: "encode_pages demo 1 = Ok img" using demo_pages by blast
  then have "0 < length img"
    by (elim encode_pages_version_closed [of demo 1 VERSION True img, folded encode_pages_def]) simp
  then show ?thesis using img damage_detected [OF img, of 0 "img ! 0 + 1"] by auto
qed

end
