(* ===== verification/DataImage.thy ===== *)
theory DataImage
  imports DataWal DataPages_Correct
begin

text \<open>
  The write-ahead log as a function on file images: which bytes applying the records of a log
  decides, the closed form of the log that \<^verbatim>\<open>encode_wal\<close> writes, that \<^verbatim>\<open>apply_wal\<close>'s parser reads it
  back, and that the log of a commit, laid over the old file, gives the new one. \<open>agree\<close> is the
  relation that makes replay idempotent: two files that differ only in bytes covered by a record.
\<close>

section \<open>Files as padded images\<close>

definition view :: "byte list \<Rightarrow> nat \<Rightarrow> byte" where
  "view bs i = (if i < length bs then bs ! i else 0)"

lemma length_resize [simp]: "length (resize bs n) = n"
  by (simp add: resize_def)

lemma nth_resize: "i < n \<Longrightarrow> resize bs n ! i = view bs i"
  by (auto simp: resize_def view_def nth_append)

lemma view_resize: "view (resize bs n) i = (if i < n then view bs i else 0)"
  by (auto simp: view_def nth_resize)

lemma resize_eqI: "(\<And>i. i < n \<Longrightarrow> view a i = view b i) \<Longrightarrow> resize a n = resize b n"
  by (rule nth_equalityI) (auto simp: nth_resize)

lemma length_write_at [simp]: "length (write_at bs off ys) = max (length bs) (off + length ys)"
  by (simp add: write_at_def)

lemma view_write_at:
  "view (write_at bs off ys) i = (if off \<le> i \<and> i < off + length ys then ys ! (i - off) else view bs i)"
proof -
  consider "i < off" | "off \<le> i" "i < off + length ys" | "off + length ys \<le> i" by linarith
  then show ?thesis
  proof cases
    case 1
    then show ?thesis by (simp add: view_def write_at_def nth_append nth_resize)
  next
    case 2
    then have "i - off < length ys" by simp
    then show ?thesis using 2 by (auto simp: view_def write_at_def nth_append)
  next
    case 3
    then show ?thesis by (auto simp: view_def write_at_def nth_append)
  qed
qed

lemma nth_overwrite:
  assumes "a + length ys \<le> length xs" "i < length xs"
  shows "overwrite xs a ys ! i = (if a \<le> i \<and> i < a + length ys then ys ! (i - a) else xs ! i)"
  using assms by (auto simp: overwrite_def nth_append)

lemma resize_write_at:
  assumes "off + length ys \<le> n"
  shows "resize (write_at bs off ys) n = overwrite (resize bs n) off ys"
proof (rule nth_equalityI)
  fix i assume "i < length (resize (write_at bs off ys) n)"
  then show "resize (write_at bs off ys) n ! i = overwrite (resize bs n) off ys ! i"
    using assms by (simp add: nth_resize nth_overwrite view_write_at)
qed (use assms in simp)

section \<open>The records of a log over an image\<close>

definition covered :: "(nat \<times> byte list) list \<Rightarrow> nat \<Rightarrow> bool" where
  "covered rs i \<longleftrightarrow> (\<exists>(p, d) \<in> set rs. p * PAGE_SIZE \<le> i \<and> i < p * PAGE_SIZE + length d)"

definition overlay :: "(nat \<times> byte list) list \<Rightarrow> byte list \<Rightarrow> byte list" where
  "overlay rs x = fold (\<lambda>(p, d) x. overwrite x (p * PAGE_SIZE) d) rs x"

definition in_image :: "nat \<Rightarrow> nat \<times> byte list \<Rightarrow> bool" where
  "in_image n = (\<lambda>(p, d). p < n \<and> length d = PAGE_SIZE)"

lemma in_image_end: "in_image n (p, d) \<Longrightarrow> p * PAGE_SIZE + length d \<le> n * PAGE_SIZE"
proof -
  assume "in_image n (p, d)"
  then have "Suc p * PAGE_SIZE \<le> n * PAGE_SIZE" "length d = PAGE_SIZE"
    unfolding in_image_def by (auto intro!: mult_le_mono1)
  then show ?thesis by simp
qed

lemma overlay_cong:
  "length x = n * PAGE_SIZE \<Longrightarrow> length y = n * PAGE_SIZE \<Longrightarrow> list_all (in_image n) rs \<Longrightarrow>
   (\<And>i. i < n * PAGE_SIZE \<Longrightarrow> \<not> covered rs i \<Longrightarrow> x ! i = y ! i) \<Longrightarrow> overlay rs x = overlay rs y"
proof (induction rs arbitrary: x y)
  case Nil
  then show ?case by (auto simp: overlay_def covered_def intro: nth_equalityI)
next
  case (Cons r rs)
  obtain p d where r: "r = (p, d)" by (cases r)
  have e: "p * PAGE_SIZE + length d \<le> n * PAGE_SIZE" using Cons.prems(3) r in_image_end by simp
  have "overlay rs (overwrite x (p * PAGE_SIZE) d) = overlay rs (overwrite y (p * PAGE_SIZE) d)"
  proof (rule Cons.IH)
    fix i assume i: "i < n * PAGE_SIZE" "\<not> covered rs i"
    have "x ! i = y ! i" if "\<not> (p * PAGE_SIZE \<le> i \<and> i < p * PAGE_SIZE + length d)"
      using that i by (intro Cons.prems(4)) (auto simp: covered_def r)
    then show "overwrite x (p * PAGE_SIZE) d ! i = overwrite y (p * PAGE_SIZE) d ! i"
      using i(1) e Cons.prems(1,2) by (simp add: nth_overwrite)
  qed (use Cons.prems e in simp_all)
  then show ?case by (simp add: overlay_def r)
qed

lemma copy_records_overlay:
  "length x = n * PAGE_SIZE \<Longrightarrow> list_all (in_image n) rs \<Longrightarrow> foldO copy_record rs x = Ok (overlay rs x)"
proof (induction rs arbitrary: x)
  case (Cons r rs)
  obtain p d where r: "r = (p, d)" by (cases r)
  have e: "p * PAGE_SIZE + length d \<le> length x" using Cons.prems r in_image_end [of n p d] by simp
  then have "copy_record r x = Ok (overwrite x (p * PAGE_SIZE) d)" by (simp add: copy_record_def copy_at_def r)
  moreover have "foldO copy_record rs (overwrite x (p * PAGE_SIZE) d) = Ok (overlay rs (overwrite x (p * PAGE_SIZE) d))"
    using Cons e by simp
  ultimately show ?case by (simp add: overlay_def r)
qed (simp add: overlay_def)

lemma length_overlay: "length x = n * PAGE_SIZE \<Longrightarrow> list_all (in_image n) rs \<Longrightarrow> length (overlay rs x) = n * PAGE_SIZE"
proof (induction rs arbitrary: x)
  case (Cons r rs)
  obtain p d where r: "r = (p, d)" by (cases r)
  have "p * PAGE_SIZE + length d \<le> length x" using Cons.prems r in_image_end [of n p d] by simp
  then show ?case using Cons by (simp add: overlay_def r)
qed (simp add: overlay_def)

definition agree :: "nat \<Rightarrow> (nat \<times> byte list) list \<Rightarrow> byte list \<Rightarrow> byte list \<Rightarrow> bool" where
  "agree n rs a b \<longleftrightarrow> (\<forall>i. i < n * PAGE_SIZE \<longrightarrow> covered rs i \<or> view a i = view b i)"

lemma agree_refl [simp]: "agree n rs a a"
  by (simp add: agree_def)

lemma base_resize:
  "copy_at (replicate n 0) 0 (take (min (length cur) n) cur) = Ok (resize cur n)"
  by (auto simp: copy_at_def overwrite_def resize_def min_def)

lemma committed_image_closed:
  assumes "list_all (in_image n) rs"
  shows "committed_image w n rs cur =
    (let committed = overlay rs (resize cur (n * PAGE_SIZE)) in
     bindO (current_generation committed) (\<lambda>g.
     bindO (read_u64 w 16) (\<lambda>wg.
      if g \<noteq> wg then Err (invalid ''DISP Data WAL generation does not match its commit page'')
      else bindO (map_errO (\<lambda>e. invalid (''DISP Data WAL committed image is invalid: '' @ io_message e)) (decode committed)) (\<lambda>_.
        Ok committed))))"
  unfolding committed_image_def Let_def base_resize bindO.simps copy_records_overlay [OF length_resize assms] ..

lemma committed_image_agree:
  assumes "list_all (in_image n) rs" "agree n rs a b"
  shows "committed_image w n rs a = committed_image w n rs b"
proof -
  have "overlay rs (resize a (n * PAGE_SIZE)) = overlay rs (resize b (n * PAGE_SIZE))"
    using assms by (intro overlay_cong) (auto simp: nth_resize agree_def)
  then show ?thesis by (simp only: committed_image_closed [OF assms(1)])
qed

lemma committed_image_Ok:
  assumes "list_all (in_image n) rs" "committed_image w n rs a = Ok M"
  shows "M = overlay rs (resize a (n * PAGE_SIZE)) \<and> length M = n * PAGE_SIZE \<and> (\<exists>s. decode M = Ok s)"
  using assms(2) length_overlay [OF length_resize assms(1)]
  unfolding committed_image_closed [OF assms(1)] Let_def
  by (elim outcome_elims) (auto simp: outcome_simps)

text \<open>Writing the records to the file and setting its length gives the committed image.\<close>

lemma write_records_overlay:
  "list_all (in_image n) rs \<Longrightarrow>
     resize (fold (\<lambda>(p, d) x. write_at x (p * PAGE_SIZE) d) rs x) (n * PAGE_SIZE) = overlay rs (resize x (n * PAGE_SIZE))"
proof (induction rs arbitrary: x)
  case (Cons r rs)
  obtain p d where r: "r = (p, d)" by (cases r)
  have "p * PAGE_SIZE + length d \<le> n * PAGE_SIZE" using Cons.prems r in_image_end [of n p d] by simp
  then show ?case
    using Cons by (simp add: overlay_def r resize_write_at)
qed (simp add: overlay_def)

lemma agree_write_at:
  assumes "(p, d) \<in> set rs" "agree n rs a b"
  shows "agree n rs a (write_at b (p * PAGE_SIZE) (take k d))"
  unfolding agree_def
proof (intro allI impI)
  fix i assume i: "i < n * PAGE_SIZE"
  show "covered rs i \<or> view a i = view (write_at b (p * PAGE_SIZE) (take k d)) i"
  proof (cases "p * PAGE_SIZE \<le> i \<and> i < p * PAGE_SIZE + length d")
    case True
    then have "covered rs i" using assms(1) by (auto simp: covered_def)
    then show ?thesis ..
  next
    case False
    then show ?thesis using assms(2) i by (auto simp: agree_def view_write_at)
  qed
qed

lemma agree_resize: "agree n rs a b \<Longrightarrow> agree n rs a (resize b (n * PAGE_SIZE))"
  by (auto simp: agree_def view_resize)

section \<open>Parsing a log\<close>

lemma parse_record_sound:
  assumes "parse_record w n i (seen, rs) = Ok (seen', rs')"
  shows "\<exists>p d. p < n \<and> p \<notin> seen \<and> length d = PAGE_SIZE \<and> seen' = insert p seen \<and> rs' = rs @ [(p, d)]"
  using assms unfolding parse_record_def prod.case Let_def
  by (elim outcome_elims) (auto simp: index_range_has WAL_RECORD_SIZE_def)

lemma parse_records_sound:
  "foldO (parse_record w n) is (seen, rs) = Ok (seen', rs') \<Longrightarrow> list_all (in_image n) rs \<Longrightarrow> seen = fst ` set rs \<Longrightarrow>
     list_all (in_image n) rs' \<and> seen' = fst ` set rs'"
proof (induction "is" arbitrary: seen rs)
  case (Cons i "is")
  then obtain seen1 rs1 where s: "parse_record w n i (seen, rs) = Ok (seen1, rs1)"
      "foldO (parse_record w n) is (seen1, rs1) = Ok (seen', rs')" by (auto simp: outcome_simps)
  obtain p d where "p < n" "length d = PAGE_SIZE" "seen1 = insert p seen" "rs1 = rs @ [(p, d)]"
    using parse_record_sound [OF s(1)] by blast
  then have "list_all (in_image n) rs1" "seen1 = fst ` set rs1" using Cons.prems(2,3) by (auto simp: in_image_def)
  from Cons.IH [OF s(2) this] show ?case .
qed simp

lemma parse_wal_sound:
  assumes "parse_wal w = Ok (n, rs)"
  shows "2 \<le> n \<and> n \<le> MAX_PAGES \<and> list_all (in_image n) rs \<and> length w \<le> MAX_WAL_BYTES"
  using assms unfolding parse_wal_def
  by (elim outcome_elims) (auto dest!: parse_records_sound)

definition wal_image :: "byte list \<Rightarrow> byte list \<Rightarrow> (io_error, byte list) outcome" where
  "wal_image w cur = bindO (parse_wal w) (\<lambda>(n, rs). committed_image w n rs cur)"

section \<open>The log that a commit writes\<close>

lemma current_generation_has:
  assumes "has_at bs 0 MAGIC" "has_at bs 8 (le_bytes 4 VERSION)" "has_at bs 16 (le_bytes 8 g)" "g < 2 ^ 64"
    "PAGE_SIZE \<le> length bs"
  shows "current_generation bs = Ok g"
proof -
  have "take 8 bs = MAGIC" using assms(1) by (simp add: has_at_def)
  moreover have "read_u32 bs 8 = Ok VERSION" using assms(2) by (simp add: read_u32_has VERSION_def)
  moreover have "read_u64 bs 16 = Ok g" using assms(3,4) by (simp add: read_u64_has)
  ultimately show ?thesis using assms(5) by (simp add: current_generation_def)
qed

lemma current_generation_np: "no_panic (current_generation bs)"
  by (auto simp: current_generation_def intro!: no_panic_bindO read_u32_np read_u64_np)

lemma current_generation_total: "\<exists>g. current_generation bs = Ok g \<and> g < 2 ^ 64"
proof (cases "PAGE_SIZE \<le> length bs \<and> take 8 bs = MAGIC")
  case True
  have *: "index_range bs a (a + k) = (Ok (slice bs a (a + k)) :: (io_error, _) outcome)" if "a + k \<le> length bs" for a k
    using that by simp
  have "read_u32 bs 8 = Ok (from_le_bytes (slice bs 8 12))" using True * [of 8 4] by (simp add: read_u32_def to_array_def)
  moreover have r: "read_u64 bs 16 = Ok (from_le_bytes (slice bs 16 24))" using True * [of 16 8] by (simp add: read_u64_def to_array_def)
  moreover from r have "from_le_bytes (slice bs 16 24) < 2 ^ 64" by (simp add: read_u64_has)
  ultimately show ?thesis using True by (simp add: current_generation_def)
next
  case False
  then have "current_generation bs = Ok 0" by (auto simp: current_generation_def)
  then show ?thesis by simp
qed

lemma page_file_header:
  assumes ok: "page_file_ok MAGIC v g P n"
  shows "has_at (page_file MAGIC v g P n) 0 MAGIC" "has_at (page_file MAGIC v g P n) 8 (le_bytes 4 v)"
    "has_at (page_file MAGIC v g P n) 16 (le_bytes 8 g)"
proof -
  have n: "1 \<le> n" using ok by (simp add: page_file_ok_def)
  have "has_at (page_file MAGIC v g P n) 0 (header_bytes MAGIC v g P n)"
    using iffD1 [OF page_file_has [OF length_MAGIC n] refl] n by simp
  then show "has_at (page_file MAGIC v g P n) 0 MAGIC" "has_at (page_file MAGIC v g P n) 8 (le_bytes 4 v)"
    "has_at (page_file MAGIC v g P n) 16 (le_bytes 8 g)"
    by (simp_all add: header_bytes_has)
qed

lemma page_file_generation:
  assumes ok: "page_file_ok MAGIC VERSION g P n"
  shows "current_generation (page_file MAGIC VERSION g P n) = Ok g"
  using page_file_header [OF ok] ok
  by (intro current_generation_has) (simp_all add: page_file_ok_def)

subsection \<open>Its closed form\<close>

definition wal_body :: "(nat \<times> byte list) list \<Rightarrow> byte list" where
  "wal_body rs = concat (map (\<lambda>(page, bs). le_bytes 8 page @ bs) rs)"

definition wal_prefix :: "nat \<Rightarrow> nat \<Rightarrow> (nat \<times> byte list) list \<Rightarrow> byte list" where
  "wal_prefix g n rs = WAL_MAGIC @ le_bytes 4 1 @ le_bytes 4 PAGE_SIZE @ le_bytes 8 g @ le_bytes 8 n
     @ le_bytes 8 (length rs) @ le_bytes 8 (unat (fnv1a (wal_body rs))) @ le_bytes 8 0"

definition wal_file :: "nat \<Rightarrow> nat \<Rightarrow> (nat \<times> byte list) list \<Rightarrow> byte list" where
  "wal_file g n rs = wal_prefix g n rs @ le_bytes 8 (unat (fnv1a (wal_prefix g n rs))) @ wal_body rs"

lemma length_WAL_MAGIC [simp]: "length WAL_MAGIC = 8"
  by (simp add: WAL_MAGIC_def)

lemma length_wal_prefix [simp]: "length (wal_prefix g n rs) = 56"
  by (simp add: wal_prefix_def)

lemma copy_at_mid:
  assumes "a = length x" "length y = length z"
  shows "copy_at (x @ y @ w) a z = Ok (x @ z @ w)"
  using assms by (simp add: copy_at_def overwrite_def)

lemma wal_body_Cons: "wal_body ((p, d) # rs) = le_bytes 8 p @ d @ wal_body rs"
  by (simp add: wal_body_def)

lemma length_wal_body: "list_all (in_image n) rs \<Longrightarrow> length (wal_body rs) = length rs * WAL_RECORD_SIZE"
  by (induction rs) (auto simp: wal_body_def in_image_def WAL_RECORD_SIZE_def)

subsection \<open>The records\<close>

lemma wal_records_mem:
  "(p, d) \<in> set (wal_records old new) \<longleftrightarrow> p < length new div PAGE_SIZE
     \<and> d = slice new (p * PAGE_SIZE) (p * PAGE_SIZE + PAGE_SIZE)
     \<and> get_range old (p * PAGE_SIZE) (p * PAGE_SIZE + PAGE_SIZE) \<noteq> Some d"
  by (auto simp: wal_records_def chunks_exact_def in_set_enumerate_eq)

lemma page_end: "p < length new div PAGE_SIZE \<Longrightarrow> p * PAGE_SIZE + PAGE_SIZE \<le> length new"
proof -
  assume "p < length new div PAGE_SIZE"
  then have "Suc p * PAGE_SIZE \<le> length new div PAGE_SIZE * PAGE_SIZE" by (intro mult_le_mono1) simp
  also have "\<dots> \<le> length new" by (rule div_times_less_eq_dividend)
  finally show ?thesis by simp
qed

lemma wal_records_in_image: "list_all (in_image (length new div PAGE_SIZE)) (wal_records old new)"
proof -
  have "in_image (length new div PAGE_SIZE) (p, d)" if "(p, d) \<in> set (wal_records old new)" for p d
    using that page_end [of p new] unfolding wal_records_mem in_image_def by (auto simp only: prod.case) simp
  then show ?thesis by (auto simp: list_all_iff)
qed

lemma wal_records_distinct: "distinct (map fst (wal_records old new))"
proof -
  have "distinct (map fst (enumerate 0 (chunks_exact PAGE_SIZE new)))" by simp
  then show ?thesis unfolding wal_records_def by (rule distinct_map_filter)
qed

lemma encode_wal_closed:
  assumes "encode_wal old new g = Ok w"
  shows "w = wal_file g (length new div PAGE_SIZE) (wal_records old new) \<and> length w \<le> MAX_WAL_BYTES"
proof -
  let ?rs = "wal_records old new" and ?n = "length new div PAGE_SIZE"
  let ?a = "WAL_MAGIC @ le_bytes 4 1 @ le_bytes 4 PAGE_SIZE @ le_bytes 8 g @ le_bytes 8 ?n @ le_bytes 8 (length ?rs)"
  let ?z = "le_bytes 8 0" and ?sum = "le_bytes 8 (unat (fnv1a (wal_body ?rs)))"
  let ?out = "?a @ ?z @ (?z @ ?z @ wal_body ?rs)"
  have out: "WAL_MAGIC @ le_bytes 4 1 @ le_bytes 4 PAGE_SIZE @ le_bytes 8 g @ le_bytes 8 ?n @ le_bytes 8 (length ?rs)
            @ ?z @ ?z @ ?z @ concat (map (\<lambda>(page, bs). le_bytes 8 page @ bs) ?rs) = ?out"
    by (simp add: wal_body_def)
  have a: "length ?a = 40" by simp
  have body: "index_range ?out WAL_HEADER_SIZE (length ?out) = (Ok (wal_body ?rs) :: (io_error, _) outcome)"
    by (simp add: WAL_HEADER_SIZE_def slice_def)
  have c1: "copy_at ?out 40 ?sum = Ok (?a @ ?sum @ (?z @ ?z @ wal_body ?rs))"
    by (rule copy_at_mid) (simp_all only: a length_le_bytes)
  have o1: "?a @ ?sum @ (?z @ ?z @ wal_body ?rs) = wal_prefix g ?n ?rs @ ?z @ wal_body ?rs"
    by (simp add: wal_prefix_def)
  have h: "index_range (wal_prefix g ?n ?rs @ ?z @ wal_body ?rs) 0 56 = (Ok (wal_prefix g ?n ?rs) :: (io_error, _) outcome)"
    by (simp add: slice_def)
  have c2: "copy_at (wal_prefix g ?n ?rs @ ?z @ wal_body ?rs) 56 (le_bytes 8 (unat (fnv1a (wal_prefix g ?n ?rs))))
      = Ok (wal_file g ?n ?rs)"
    unfolding wal_file_def by (rule copy_at_mid) simp_all
  from assms obtain len where len: "len = WAL_HEADER_SIZE + length ?rs * WAL_RECORD_SIZE" "len \<le> MAX_WAL_BYTES"
    and w: "w = wal_file g ?n ?rs"
    unfolding encode_wal_def Let_def out body c1 bindO.simps o1 h c2
    by (elim outcome_elims) (auto simp: usize_checked_add_def outcome_simps split: option.splits if_splits)
  have "list_all (in_image ?n) ?rs" by (rule wal_records_in_image)
  then show ?thesis using w len length_wal_body [of ?n ?rs] by (simp add: wal_file_def WAL_HEADER_SIZE_def)
qed

lemma parse_records_closed:
  assumes "list_all (in_image n) rs" "distinct (map fst rs)" "n \<le> MAX_PAGES"
    and "has_at w (WAL_HEADER_SIZE + i * WAL_RECORD_SIZE) (wal_body rs)"
    and "fst ` set rs \<inter> seen = {}"
  shows "foldO (parse_record w n) [i..<i + length rs] (seen, done) = Ok (seen \<union> fst ` set rs, done @ rs)"
  using assms
proof (induction rs arbitrary: i seen "done")
  case (Cons r rs)
  obtain p d where r: "r = (p, d)" by (cases r)
  let ?st = "WAL_HEADER_SIZE + i * WAL_RECORD_SIZE"
  have d: "p < n" "length d = PAGE_SIZE" "p \<notin> seen" using Cons.prems by (auto simp: r in_image_def)
  have h: "has_at w ?st (le_bytes 8 p)" "has_at w (?st + 8) d" "has_at w (WAL_HEADER_SIZE + Suc i * WAL_RECORD_SIZE) (wal_body rs)"
    using Cons.prems(4) d(2) by (simp_all add: r wal_body_Cons has_at_append WAL_RECORD_SIZE_def add.assoc add.commute add.left_commute)
  have p: "p < 2 ^ 64" using d(1) Cons.prems(3) by (simp add: MAX_PAGES_eq)
  have "read_u64 w ?st = Ok p" using h(1) p by (simp add: read_u64_has)
  moreover have "index_range w (?st + 8) (?st + WAL_RECORD_SIZE) = (Ok d :: (io_error, _) outcome)"
    using h(2) d(2) by (simp add: index_range_has WAL_RECORD_SIZE_def)
  moreover have "usize_try_from p m = Ok p" for m using p by (simp add: usize_try_from_def USIZE_MAX_def)
  ultimately have step: "parse_record w n i (seen, done) = Ok (insert p seen, done @ [(p, d)])"
    using d by (simp add: parse_record_def Let_def)
  have "foldO (parse_record w n) [Suc i..<Suc i + length rs] (insert p seen, done @ [(p, d)])
      = Ok (insert p seen \<union> fst ` set rs, (done @ [(p, d)]) @ rs)"
    using Cons.prems h(3) by (intro Cons.IH) (auto simp: r)
  then show ?case using step by (simp add: r upt_conv_Cons del: upt_Suc)
qed simp

lemma parse_wal_file:
  assumes rs: "list_all (in_image n) rs" "distinct (map fst rs)" "0 \<in> fst ` set rs"
    and n: "2 \<le> n" "n \<le> MAX_PAGES" and g: "g < 2 ^ 64" and len: "length (wal_file g n rs) \<le> MAX_WAL_BYTES"
  shows "parse_wal (wal_file g n rs) = Ok (n, rs) \<and> read_u64 (wal_file g n rs) 16 = Ok g"
proof -
  let ?w = "wal_file g n rs"
  have "has_at ?w 0 ?w" by (simp add: has_at_whole)
  then have h: "has_at ?w 0 (wal_prefix g n rs)" "has_at ?w 56 (le_bytes 8 (unat (fnv1a (wal_prefix g n rs))))"
      "has_at ?w 64 (wal_body rs)"
    unfolding wal_file_def [of g n rs] has_at_append by simp_all
  have f: "has_at ?w 0 WAL_MAGIC" "has_at ?w 8 (le_bytes 4 1)" "has_at ?w 12 (le_bytes 4 PAGE_SIZE)" "has_at ?w 16 (le_bytes 8 g)"
      "has_at ?w 24 (le_bytes 8 n)" "has_at ?w 32 (le_bytes 8 (length rs))"
      "has_at ?w 40 (le_bytes 8 (unat (fnv1a (wal_body rs))))" "has_at ?w 48 (le_bytes 8 0)"
    using h(1) unfolding wal_prefix_def has_at_append length_le_bytes length_WAL_MAGIC by simp_all
  have lw: "length ?w = WAL_HEADER_SIZE + length rs * WAL_RECORD_SIZE"
    using length_wal_body [OF rs(1)] by (simp add: wal_file_def WAL_HEADER_SIZE_def)
  have small: "length rs * WAL_RECORD_SIZE + WAL_HEADER_SIZE \<le> USIZE_MAX" "length rs < 2 ^ 64" "n < 2 ^ 64"
    using len lw n by (simp_all add: MAX_WAL_BYTES_def WAL_HEADER_SIZE_def WAL_RECORD_SIZE_def MAX_PAGES_eq USIZE_MAX_def)
  have r: "index_range ?w 0 8 = (Ok WAL_MAGIC :: (io_error, _) outcome)" "read_u32 ?w 8 = Ok 1" "read_u32 ?w 12 = Ok PAGE_SIZE"
      "read_u64 ?w 48 = Ok 0" "index_range ?w 0 56 = (Ok (wal_prefix g n rs) :: (io_error, _) outcome)"
      "read_u64 ?w 56 = Ok (unat (fnv1a (wal_prefix g n rs)))" "read_u64 ?w 24 = Ok n" "read_u64 ?w 32 = Ok (length rs)"
      "index_range ?w WAL_HEADER_SIZE (length ?w) = (Ok (wal_body rs) :: (io_error, _) outcome)"
      "read_u64 ?w 40 = Ok (unat (fnv1a (wal_body rs)))" "read_u64 ?w 16 = Ok g"
    using f h small g length_wal_body [OF rs(1)] lw
    by (simp_all add: index_range_has read_u32_has read_u64_has WAL_HEADER_SIZE_def del: index_range_Ok)
  have u: "usize_try_from n m = Ok n" "usize_try_from (length rs) m = Ok (length rs)" for m
    using small by (simp_all add: usize_try_from_def USIZE_MAX_def)
  have c: "usize_checked_add WAL_HEADER_SIZE (usize_saturating_mul (length rs) WAL_RECORD_SIZE) = Some (length ?w)"
    using small lw by (simp add: usize_checked_add_def usize_saturating_mul_def)
  have fold: "foldO (parse_record ?w n) [0..<length rs] ({}, []) = Ok (fst ` set rs, rs)"
    using parse_records_closed [OF rs(1,2) n(2), of ?w 0 "{}" "[]"] h(3) by (simp add: WAL_HEADER_SIZE_def)
  have lens: "\<not> (length ?w < WAL_HEADER_SIZE \<or> length ?w > MAX_WAL_BYTES)" using len lw by simp
  show ?thesis
    using r(11) lens n rs(3)
    unfolding parse_wal_def r(1-10) u c bindO.simps ok_or_simps fold
    by (simp add: u fold)
qed

lemma overwrite_self:
  assumes "a + k \<le> length x"
  shows "overwrite x a (slice x a (a + k)) = x"
  using assms by (simp add: overwrite_def slice_def) (metis append_take_drop_id drop_drop add.commute)

lemma overlay_self:
  "length x = n * PAGE_SIZE \<Longrightarrow> (\<And>p d. (p, d) \<in> set rs \<Longrightarrow> p < n \<and> d = slice x (p * PAGE_SIZE) (p * PAGE_SIZE + PAGE_SIZE)) \<Longrightarrow>
     overlay rs x = x"
proof (induction rs)
  case (Cons r rs)
  obtain p d where r: "r = (p, d)" by (cases r)
  have p: "p < n" "d = slice x (p * PAGE_SIZE) (p * PAGE_SIZE + PAGE_SIZE)" using Cons.prems(2) [of p d] by (simp_all add: r)
  have "Suc p * PAGE_SIZE \<le> n * PAGE_SIZE" using p(1) by (intro mult_le_mono1) simp
  then have "overwrite x (p * PAGE_SIZE) d = x"
    using overwrite_self [of "p * PAGE_SIZE" PAGE_SIZE x] Cons.prems(1) p(2) by simp
  moreover have "overlay rs x = x" using Cons.prems by (intro Cons.IH) auto
  ultimately show ?case by (simp add: overlay_def r)
qed (simp add: overlay_def)

lemma slice_nth: "a \<le> i \<Longrightarrow> i < b \<Longrightarrow> b \<le> length x \<Longrightarrow> slice x a b ! (i - a) = x ! i"
  by (simp add: slice_def)

lemma wal_records_overlay:
  assumes len: "length new = n * PAGE_SIZE"
  shows "overlay (wal_records old new) (resize old (n * PAGE_SIZE)) = new"
proof -
  let ?rs = "wal_records old new"
  have n: "length new div PAGE_SIZE = n" using len by simp
  have img: "list_all (in_image n) ?rs" using wal_records_in_image [of new old] n by simp
  have "overlay ?rs (resize old (n * PAGE_SIZE)) = overlay ?rs new"
  proof (rule overlay_cong [OF length_resize len img])
    fix i assume i: "i < n * PAGE_SIZE" "\<not> covered ?rs i"
    let ?p = "i div PAGE_SIZE" and ?d = "slice new (i div PAGE_SIZE * PAGE_SIZE) (i div PAGE_SIZE * PAGE_SIZE + PAGE_SIZE)"
    have p: "?p < n" using i(1) by (simp add: less_mult_imp_div_less)
    have b: "?p * PAGE_SIZE \<le> i" "i < ?p * PAGE_SIZE + PAGE_SIZE" by (simp_all add: dividend_less_div_times)
    have e: "?p * PAGE_SIZE + PAGE_SIZE \<le> length new" using page_end [of ?p new] p n by simp
    then have ld: "length ?d = PAGE_SIZE" by simp
    have "(?p, ?d) \<notin> set ?rs" using i(2) b ld by (auto simp: covered_def)
    then have "get_range old (?p * PAGE_SIZE) (?p * PAGE_SIZE + PAGE_SIZE) = Some ?d"
      using p n unfolding wal_records_mem by blast
    then have o: "?p * PAGE_SIZE + PAGE_SIZE \<le> length old" "slice old (?p * PAGE_SIZE) (?p * PAGE_SIZE + PAGE_SIZE) = ?d"
      by (auto simp: get_range_def split: if_splits)
    have "old ! i = new ! i" using slice_nth [OF b o(1)] slice_nth [OF b e] o(2) by simp
    then show "resize old (n * PAGE_SIZE) ! i = new ! i" using i(1) b o(1) by (simp add: nth_resize view_def)
  qed
  also have "\<dots> = new" using len n by (intro overlay_self) (auto simp: wal_records_mem)
  finally show ?thesis .
qed

lemma commit_page_recorded:
  assumes ok: "page_file_ok MAGIC VERSION g P n" and old: "current_generation old = Ok g'" "g = g' + 1"
  shows "0 \<in> fst ` set (wal_records old (page_file MAGIC VERSION g P n))"
proof (rule ccontr)
  let ?new = "page_file MAGIC VERSION g P n"
  have n: "2 \<le> n" using ok by (simp add: page_file_ok_def)
  assume "0 \<notin> fst ` set (wal_records old ?new)"
  then have "(0, slice ?new 0 PAGE_SIZE) \<notin> set (wal_records old ?new)" by force
  then have "get_range old 0 PAGE_SIZE = Some (slice ?new 0 PAGE_SIZE)"
    using n unfolding wal_records_mem by simp
  then have o: "PAGE_SIZE \<le> length old" "take PAGE_SIZE old = take PAGE_SIZE ?new"
    by (auto simp: get_range_def slice_def split: if_splits)
  have move: "has_at old a xs" if "has_at ?new a xs" "a + length xs \<le> PAGE_SIZE" for a xs
  proof -
    have t: "take (length xs) (drop a ys) = take (length xs) (drop a (take PAGE_SIZE ys))" for ys :: "byte list"
      using that(2) by (simp add: drop_take min_def)
    show ?thesis using that o by (simp add: has_at_def) (metis t page_offsets(1))
  qed
  have "current_generation old = Ok g"
    using page_file_header [OF ok] ok o(1)
    by (intro current_generation_has move) (simp_all add: page_file_ok_def)
  then show False using old by simp
qed

lemma wal_image_commit:
  assumes ok: "page_file_ok MAGIC VERSION g P n" and new: "new = page_file MAGIC VERSION g P n"
    and dec: "decode new = Ok s" and old: "current_generation old = Ok g'" "g = g' + 1"
    and w: "encode_wal old new g = Ok w"
  shows "wal_image w old = Ok new \<and> length w \<le> MAX_WAL_BYTES"
proof -
  let ?rs = "wal_records old new"
  have n: "2 \<le> n" "n \<le> MAX_PAGES" "g < 2 ^ 64" using ok by (simp_all add: page_file_ok_def)
  have len: "length new = n * PAGE_SIZE" and d: "length new div PAGE_SIZE = n" using new n by simp_all
  have wf: "w = wal_file g n ?rs" "length w \<le> MAX_WAL_BYTES" using encode_wal_closed [OF w, unfolded d] by blast+
  have img: "list_all (in_image n) ?rs" using wal_records_in_image [of new old] d by simp
  have p: "parse_wal w = Ok (n, ?rs)" "read_u64 w 16 = Ok g"
    using parse_wal_file [OF img wal_records_distinct _ n] commit_page_recorded [OF ok old] wf new by simp_all
  have "current_generation new = Ok g" using page_file_generation [OF ok] new by simp
  then have "committed_image w n ?rs old = Ok new"
    unfolding committed_image_closed [OF img] Let_def wal_records_overlay [OF len] p(2) using dec by simp
  then show ?thesis using p(1) wf(2) by (simp add: wal_image_def)
qed

lemma length_enumerate_filter: "length (wal_records old new) \<le> length new div PAGE_SIZE"
  unfolding wal_records_def by (rule le_trans [OF length_filter_le]) (simp add: chunks_exact_def)

lemma encode_wal_total:
  assumes "length new \<le> MAX_FILE_BYTES"
  shows "\<exists>w. encode_wal old new g = Ok w"
proof -
  have "length new div PAGE_SIZE \<le> MAX_PAGES" using assms by (simp add: data_limits)
  then have le: "length (wal_records old new) \<le> 16384" using length_enumerate_filter [of old new] by (simp add: MAX_PAGES_eq)
  show ?thesis
    using le
    by (simp add: encode_wal_def Let_def usize_checked_add_def USIZE_MAX_def MAX_WAL_BYTES_def WAL_HEADER_SIZE_def
        WAL_RECORD_SIZE_def MAX_PAGES_eq copy_at_def)
qed

end
