(* ===== verification/DataRuns.thy ===== *)
theory DataRuns
  imports DataImage
begin

text \<open>
  A program logic for the runs of the store on the disk of theory \<open>DataWal\<close>: an invariant of every
  disk passed through, and postconditions for results and for errors.
\<close>

section \<open>A program logic for runs\<close>

text \<open>
  \<open>runs flt I P m Q E\<close>: from every disk in \<open>P\<close> the run of \<open>m\<close> passes only through disks in \<open>I\<close>, does not
  panic, and ends with \<open>Q\<close> when it returns a value and \<open>E\<close> when it returns an error. Calls can fail only
  when \<open>flt\<close> is set.
\<close>

definition ends ::
  "bool \<Rightarrow> (disk \<Rightarrow> bool) \<Rightarrow> ('a \<Rightarrow> disk \<Rightarrow> bool) \<Rightarrow> (io_error \<Rightarrow> disk \<Rightarrow> bool)
     \<Rightarrow> disk list \<Rightarrow> (io_error, 'a) outcome \<times> io_state \<Rightarrow> bool" where
  "ends flt I Q E h0 = (\<lambda>(r, st'). (\<exists>hs. history st' = hs @ h0 \<and> list_all I hs) \<and> (flt \<or> faults st' = [])
     \<and> (case r of Ok x \<Rightarrow> Q x (disk st') | Err e \<Rightarrow> E e (disk st') | Panic \<Rightarrow> False))"

definition runs ::
  "bool \<Rightarrow> (disk \<Rightarrow> bool) \<Rightarrow> (disk \<Rightarrow> bool) \<Rightarrow> 'a io \<Rightarrow> ('a \<Rightarrow> disk \<Rightarrow> bool) \<Rightarrow> (io_error \<Rightarrow> disk \<Rightarrow> bool) \<Rightarrow> bool" where
  "runs flt I P m Q E \<longleftrightarrow>
     (\<forall>st. P (disk st) \<longrightarrow> flt \<or> faults st = [] \<longrightarrow> ends flt I Q E (history st) (m st))"

lemma runsI:
  "(\<And>st. P (disk st) \<Longrightarrow> flt \<or> faults st = [] \<Longrightarrow> ends flt I Q E (history st) (m st)) \<Longrightarrow> runs flt I P m Q E"
  by (simp add: runs_def)

lemma runsD: "runs flt I P m Q E \<Longrightarrow> P (disk st) \<Longrightarrow> flt \<or> faults st = [] \<Longrightarrow> ends flt I Q E (history st) (m st)"
  unfolding runs_def by blast

lemma ends_weaken:
  "ends flt I Q E h r \<Longrightarrow> (\<And>x d. Q x d \<Longrightarrow> Q' x d) \<Longrightarrow> (\<And>e d. E e d \<Longrightarrow> E' e d) \<Longrightarrow> ends flt I Q' E' h r"
  by (cases r) (auto simp: ends_def split: outcome.splits)

lemma ends_trans:
  "ends flt I Q E h1 r \<Longrightarrow> h1 = hs @ h0 \<Longrightarrow> list_all I hs \<Longrightarrow> ends flt I Q E h0 r"
  by (cases r) (auto simp: ends_def)

lemma runs_weaken:
  assumes "runs flt I P m Q E" and "\<And>d. P' d \<Longrightarrow> P d" and "\<And>x d. Q x d \<Longrightarrow> Q' x d" and "\<And>e d. E e d \<Longrightarrow> E' e d"
  shows "runs flt I P' m Q' E'"
  by (rule runsI) (blast intro: ends_weaken runsD [OF assms(1)] assms(2-4))

lemma runs_return: "(\<And>d. P d \<Longrightarrow> Q x d) \<Longrightarrow> runs flt I P (returnIO x) Q E"
  by (simp add: runs_def returnIO_def ends_def)

lemma runs_lift:
  assumes "\<And>x d. m = Ok x \<Longrightarrow> P d \<Longrightarrow> Q x d" and "\<And>e d. m = Err e \<Longrightarrow> P d \<Longrightarrow> E e d" and "no_panic m"
  shows "runs flt I P (liftIO m) Q E"
  using assms by (cases m) (simp_all add: runs_def liftIO_def ends_def)

lemma ends_cases:
  assumes "ends flt I Q E h r"
  obtains (ok) x st' hs where "r = (Ok x, st')" "Q x (disk st')" "history st' = hs @ h" "list_all I hs" "flt \<or> faults st' = []"
    | (err) e st' hs where "r = (Err e, st')" "E e (disk st')" "history st' = hs @ h" "list_all I hs" "flt \<or> faults st' = []"
  using assms by (cases r; cases "fst r") (auto simp: ends_def)

lemma endsI:
  "Q x (disk st') \<Longrightarrow> history st' = hs @ h \<Longrightarrow> list_all I hs \<Longrightarrow> flt \<or> faults st' = [] \<Longrightarrow> ends flt I Q E h (Ok x, st')"
  "E e (disk st') \<Longrightarrow> history st' = hs @ h \<Longrightarrow> list_all I hs \<Longrightarrow> flt \<or> faults st' = [] \<Longrightarrow> ends flt I Q E h (Err e, st')"
  by (auto simp: ends_def)

lemma runs_bind:
  assumes m: "runs flt I P m R E" and f: "\<And>x. runs flt I (R x) (f x) Q E"
  shows "runs flt I P (bindIO m f) Q E"
proof (rule runsI)
  fix st :: io_state assume st: "P (disk st)" "flt \<or> faults st = []"
  from runsD [OF m st] show "ends flt I Q E (history st) (bindIO m f st)"
  proof (cases rule: ends_cases)
    case (ok x st' hs)
    from runsD [OF f ok(2) ok(5)] have "ends flt I Q E (history st) (f x st')" using ok(3,4) by (rule ends_trans)
    then show ?thesis by (simp add: bindIO_def ok(1))
  next
    case (err e st' hs)
    then show ?thesis by (simp add: bindIO_def endsI(2))
  qed
qed

lemma runs_catch:
  assumes m: "runs flt I P m Q E'" and f: "\<And>e. runs flt I (E' e) (h e) Q E"
  shows "runs flt I P (catchIO m h) Q E"
proof (rule runsI)
  fix st :: io_state assume st: "P (disk st)" "flt \<or> faults st = []"
  from runsD [OF m st] show "ends flt I Q E (history st) (catchIO m h st)"
  proof (cases rule: ends_cases)
    case (ok x st' hs)
    then show ?thesis by (simp add: catchIO_def endsI(1))
  next
    case (err e st' hs)
    from runsD [OF f err(2) err(5)] have "ends flt I Q E (history st) (h e st')" using err(3,4) by (rule ends_trans)
    then show ?thesis by (simp add: catchIO_def err(1))
  qed
qed

lemma pop_fault_props:
  fixes st :: io_state
  assumes "pop_fault st = (f, st')"
  shows "disk st' = disk st" "history st' = history st" "flt \<or> faults st = [] \<Longrightarrow> flt \<or> faults st' = []"
    "flt \<or> faults st = [] \<Longrightarrow> f \<noteq> None \<Longrightarrow> flt"
  using assms by (auto simp: pop_fault_def split: list.splits)

lemma runs_os_call:
  assumes ok: "\<And>d x d'. P d \<Longrightarrow> f d = Ok (x, d') \<Longrightarrow> I d' \<and> Q x d'" and err: "\<And>d e. P d \<Longrightarrow> f d = Err e \<Longrightarrow> E e d"
    and np: "\<And>d. P d \<Longrightarrow> no_panic (f d)" and flt: "\<And>d. flt \<Longrightarrow> P d \<Longrightarrow> E io_fault d"
  shows "runs flt I P (os_call f) Q E"
proof (rule runsI)
  fix st :: io_state assume st: "P (disk st)" "flt \<or> faults st = []"
  obtain g st1 where p: "pop_fault st = (g, st1)" by (cases "pop_fault st")
  note q = pop_fault_props [OF p]
  show "ends flt I Q E (history st) (os_call f st)"
  proof (cases "g = None")
    case False
    then have "flt" using q(4) st(2) by blast
    then show ?thesis using False p q(1,2) st flt by (simp add: os_call_def endsI(2) [where hs = "[]"])
  next
    case True
    show ?thesis
    proof (cases "f (disk st)")
      case (Ok r)
      then obtain x d where f: "f (disk st) = Ok (x, d)" by (cases r) auto
      have c: "os_call f st = (Ok x, put_disk d st1)" using True p q(1) f by (simp add: os_call_def)
      have d: "I d" "Q x d" using ok [OF st(1) f] by simp_all
      show ?thesis unfolding c
        by (rule endsI(1) [where hs = "[d]"]) (use d q(2) q(3) [OF st(2)] in \<open>simp_all add: put_disk_def\<close>)
    next
      case (Err e)
      then have c: "os_call f st = (Err e, st1)" using True p q(1) by (simp add: os_call_def)
      show ?thesis unfolding c
        by (rule endsI(2) [where hs = "[]"]) (use err [OF st(1) Err] q(1,2) q(3) [OF st(2)] in simp_all)
    next
      case Panic
      then show ?thesis using np [OF st(1)] by simp
    qed
  qed
qed

lemma put_disks:
  fixes st :: io_state
  shows "disk (fold (\<lambda>k. put_disk (g k)) ks st) = (if ks = [] then disk st else g (last ks))"
  "history (fold (\<lambda>k. put_disk (g k)) ks st) = rev (map g ks) @ history st"
  "faults (fold (\<lambda>k. put_disk (g k)) ks st) = faults st"
  by (induction ks arbitrary: st) (auto simp: put_disk_def)

lemma runs_write_all:
  assumes I: "\<And>d k. P d \<Longrightarrow> k \<le> length ys \<Longrightarrow> I (on_file p (\<lambda>bs. write_at bs off (take k ys)) d)"
    and Q: "\<And>d. P d \<Longrightarrow> Q () (on_file p (\<lambda>bs. write_at bs off ys) d)"
    and E: "\<And>d k. flt \<Longrightarrow> P d \<Longrightarrow> k \<le> length ys \<Longrightarrow> E io_fault (on_file p (\<lambda>bs. write_at bs off (take k ys)) d)"
  shows "runs flt I P (os_write_all p off ys) Q E"
proof (rule runsI)
  fix st :: io_state assume st: "P (disk st)" "flt \<or> faults st = []"
  obtain g st1 where p: "pop_fault st = (g, st1)" by (cases "pop_fault st")
  note q = pop_fault_props [OF p]
  let ?n = "case g of None \<Rightarrow> length ys | Some k \<Rightarrow> min k (length ys)"
  let ?d = "\<lambda>k. on_file p (\<lambda>bs. write_at bs off (take k ys)) (disk st)"
  let ?st = "fold (\<lambda>k. put_disk (?d k)) [0..<Suc ?n] st1"
  have n: "?n \<le> length ys" by (simp split: option.split)
  have w: "os_write_all p off ys st = (if g = None then Ok () else Err io_fault, ?st)"
    by (simp add: os_write_all_def p q(1) del: upt_Suc)
  have hs: "list_all I (rev (map ?d [0..<Suc ?n]))" using I [OF st(1)] n by (auto simp: list_all_iff)
  have h: "history ?st = rev (map ?d [0..<Suc ?n]) @ history st" by (simp only: put_disks(2) q(2))
  have f: "flt \<or> faults ?st = []" using q(3) [OF st(2)] by (simp only: put_disks(3))
  have d: "disk ?st = ?d ?n" by (simp only: put_disks(1)) simp
  show "ends flt I Q E (history st) (os_write_all p off ys st)"
  proof (cases g)
    case None
    have "Q () (disk ?st)" unfolding d using Q [OF st(1)] None by simp
    then show ?thesis unfolding w using endsI(1) [OF _ h hs f] None by (simp del: upt_Suc)
  next
    case (Some k)
    have "flt" using q(4) [OF st(2)] Some by simp
    then have "E io_fault (disk ?st)" unfolding d by (rule E [OF _ st(1) n])
    then show ?thesis unfolding w using endsI(2) [OF _ h hs f] Some by (simp del: upt_Suc)
  qed
qed

lemma runs_ignore:
  assumes "runs flt I P m (\<lambda>_. Q ()) (\<lambda>_. Q ())"
  shows "runs flt I P (ignoreIO m) Q E"
proof (rule runsI)
  fix st :: io_state assume st: "P (disk st)" "flt \<or> faults st = []"
  from runsD [OF assms st] show "ends flt I Q E (history st) (ignoreIO m st)"
    by (cases rule: ends_cases) (simp_all add: ignoreIO_def endsI(1))
qed

lemma runs_is_ok:
  assumes "runs flt I P m (\<lambda>_. Q True) (\<lambda>_. Q False)"
  shows "runs flt I P (is_okIO m) Q E"
proof (rule runsI)
  fix st :: io_state assume st: "P (disk st)" "flt \<or> faults st = []"
  from runsD [OF assms st] show "ends flt I Q E (history st) (is_okIO m st)"
    by (cases rule: ends_cases) (simp_all add: is_okIO_def endsI(1))
qed

end
