(* ===== verification/DataWal_Correct.thy ===== *)
theory DataWal_Correct
  imports DataRuns
begin

text \<open>
  Correctness of recovery and transactions: what a store holds (\<open>store_contents\<close>) and that
  \<^verbatim>\<open>apply_wal\<close>, \<^verbatim>\<open>recover_wal\<close>, \<^verbatim>\<open>load\<close> and \<^verbatim>\<open>commit\<close> change it only as one atomic step, on every disk a run
  passes through and whatever calls fail.
\<close>

section \<open>The contents of a store\<close>

definition file_of :: "disk \<Rightarrow> store_path \<Rightarrow> byte list" where
  "file_of d p = (case d p of None \<Rightarrow> [] | Some bs \<Rightarrow> bs)"

definition wal_path :: "store_path \<Rightarrow> store_path" where
  "wal_path p = p\<lparr>file_name := Some (the (file_name p) @ ''.wal'')\<rparr>"

definition backup_path :: "store_path \<Rightarrow> store_path" where
  "backup_path p = p\<lparr>file_name := Some (the (file_name p) @ ''.backup'')\<rparr>"

definition read_limited :: "nat \<Rightarrow> byte list \<Rightarrow> (io_error, byte list) outcome" where
  "read_limited limit bs =
     (if length bs > limit then Err (invalid ''DISP Data file exceeds its storage limit'') else Ok bs)"

text \<open>
  What a store holds, as a function of its files: the image that a pending log commits, or else the
  data file, or else the backup, or nothing yet.
\<close>

definition store_contents :: "store_path \<Rightarrow> disk \<Rightarrow> (io_error, snapshot) outcome" where
  "store_contents p d =
     (case d (wal_path p) of
        Some w \<Rightarrow>
          bindO (read_limited MAX_WAL_BYTES w) (\<lambda>w.
          bindO (read_limited MAX_FILE_BYTES (file_of d p)) (\<lambda>cur.
          bindO (wal_image w cur) decode))
      | None \<Rightarrow>
          (case d p of
             Some bs \<Rightarrow> bindO (read_limited MAX_FILE_BYTES bs) decode
           | None \<Rightarrow>
              (case d (backup_path p) of
                 Some bs \<Rightarrow> bindO (read_limited MAX_FILE_BYTES bs) decode
               | None \<Rightarrow> Ok snapshot_empty)))"

lemma read_limited_iff [outcome_simps]: "read_limited n bs = Ok x \<longleftrightarrow> length bs \<le> n \<and> x = bs"
  by (auto simp: read_limited_def)

lemma paths_distinct [simp]:
  assumes "file_name p = Some nm"
  shows "wal_path p \<noteq> p" "backup_path p \<noteq> p" "wal_path p \<noteq> backup_path p" "p \<noteq> wal_path p" "p \<noteq> backup_path p"
proof -
  have "file_name (wal_path p) = Some (nm @ ''.wal'')" "file_name (backup_path p) = Some (nm @ ''.backup'')"
    using assms by (simp_all add: wal_path_def backup_path_def)
  then show "wal_path p \<noteq> p" "backup_path p \<noteq> p" "wal_path p \<noteq> backup_path p" "p \<noteq> wal_path p" "p \<noteq> backup_path p"
    using assms by auto
qed

lemma suffix_paths:
  assumes "file_name p = Some nm"
  shows "suffix p ''.wal'' = Ok (wal_path p)" "suffix p ''.backup'' = Ok (backup_path p)"
  using assms by (simp_all add: suffix_def wal_path_def backup_path_def)

section \<open>Applying a log\<close>

text \<open>How far the application of a log may have got: other files are untouched, and the data file
  differs at most where the log has a record.\<close>

definition progress :: "store_path \<Rightarrow> nat \<Rightarrow> (nat \<times> byte list) list \<Rightarrow> disk \<Rightarrow> disk \<Rightarrow> bool" where
  "progress p n rs d0 d \<longleftrightarrow> (\<forall>q. q \<noteq> p \<longrightarrow> d q = d0 q) \<and> agree n rs (file_of d0 p) (file_of d p)
     \<and> length (file_of d p) \<le> MAX_FILE_BYTES"

lemma progress_refl: "length (file_of d p) \<le> MAX_FILE_BYTES \<Longrightarrow> progress p n rs d d"
  by (simp add: progress_def)

lemma progress_file:
  "progress p n rs d0 (d0(p := Some x)) \<longleftrightarrow> agree n rs (file_of d0 p) x \<and> length x \<le> MAX_FILE_BYTES"
  by (simp add: progress_def file_of_def)

lemma runs_False: "runs flt I (\<lambda>d. False) m Q E"
  by (simp add: runs_def)

lemma runs_lift_Ok: "m = Ok x \<Longrightarrow> (\<And>d. P d \<Longrightarrow> Q x d) \<Longrightarrow> runs flt I P (liftIO m) Q E"
  by (rule runs_lift) auto

lemma io_fault_found [simp]: "io_fault \<noteq> NotFound" "NotFound \<noteq> io_fault"
  by (simp_all add: io_fault_def)

lemma runs_nop: "(\<And>d. P d \<Longrightarrow> I d \<and> Q () d) \<Longrightarrow> (\<And>d. flt \<Longrightarrow> P d \<Longrightarrow> E io_fault d) \<Longrightarrow> runs flt I P os_nop Q E"
  unfolding os_nop_def by (rule runs_os_call) auto

lemma runs_read_bytes:
  assumes "\<And>d. P d \<Longrightarrow> I d"
    and "\<And>d bs. P d \<Longrightarrow> d p = Some bs \<Longrightarrow> length bs \<le> limit \<Longrightarrow> Q bs d"
    and "\<And>d bs. P d \<Longrightarrow> d p = Some bs \<Longrightarrow> length bs > limit \<Longrightarrow> E (invalid ''DISP Data file exceeds its storage limit'') d"
    and "\<And>d. P d \<Longrightarrow> d p = None \<Longrightarrow> E NotFound d" and "\<And>d. flt \<Longrightarrow> P d \<Longrightarrow> E io_fault d"
  shows "runs flt I P (read_bytes p limit) Q E"
  unfolding read_bytes_def
proof (rule runs_bind)
  show "runs flt I P (os_get p) (\<lambda>bs d. P d \<and> d p = Some bs) E"
    unfolding os_get_def using assms
    by (intro runs_os_call) (auto simp: outcome_simps ok_or_def split: option.splits)
  show "runs flt I (\<lambda>d. P d \<and> d p = Some bs)
      (if length bs > limit then liftIO (Err (invalid ''DISP Data file exceeds its storage limit'')) else returnIO bs) Q E" for bs
    using assms by (auto intro!: runs_lift runs_return)
qed

lemma runs_write_records:
  assumes img: "list_all (in_image n) rs" "n \<le> MAX_PAGES" and sub: "set rs' \<subseteq> set rs"
    and x: "agree n rs (file_of d0 p) x" "length x \<le> MAX_FILE_BYTES"
    and I: "\<And>d. progress p n rs d0 d \<Longrightarrow> I d" and E: "\<And>d. flt \<Longrightarrow> progress p n rs d0 d \<Longrightarrow> E io_fault d"
  shows "runs flt I ((=) (d0(p := Some x))) (write_records p rs')
    (\<lambda>_ d. \<exists>y. d = d0(p := Some y) \<and> y = fold (\<lambda>(p, d) x. write_at x (p * PAGE_SIZE) d) rs' x
       \<and> agree n rs (file_of d0 p) y \<and> length y \<le> MAX_FILE_BYTES) E"
  using sub x
proof (induction rs' arbitrary: x)
  case Nil
  then show ?case by (auto intro!: runs_return)
next
  case (Cons r rs')
  obtain q ys where r: "r = (q, ys)" by (cases r)
  have mem: "(q, ys) \<in> set rs" using Cons.prems r by auto
  have len: "q * PAGE_SIZE + length ys \<le> MAX_FILE_BYTES"
  proof -
    have "in_image n (q, ys)" using img(1) mem by (auto simp: list_all_iff)
    then have "q * PAGE_SIZE + length ys \<le> n * PAGE_SIZE" by (rule in_image_end)
    also have "\<dots> \<le> MAX_PAGES * PAGE_SIZE" using img(2) by simp
    finally show ?thesis by (simp add: MAX_PAGES_eq MAX_FILE_BYTES_def)
  qed
  have part: "agree n rs (file_of d0 p) (write_at x (q * PAGE_SIZE) (take k ys))"
      "length (write_at x (q * PAGE_SIZE) (take k ys)) \<le> MAX_FILE_BYTES" for k
    using agree_write_at [OF mem Cons.prems(2)] Cons.prems(3) len by simp_all
  have full: "agree n rs (file_of d0 p) (write_at x (q * PAGE_SIZE) ys)" "length (write_at x (q * PAGE_SIZE) ys) \<le> MAX_FILE_BYTES"
    using part [of "length ys"] by simp_all
  have on: "on_file p f (d0(p := Some x)) = d0(p := Some (f x))" for f by (simp add: on_file_def)
  have w: "runs flt I ((=) (d0(p := Some x))) (write_record p r) (\<lambda>_ d. (d0(p := Some (write_at x (q * PAGE_SIZE) ys))) = d) E"
    unfolding write_record_def r prod.case
  proof (rule runs_bind)
    show "runs flt I ((=) (d0(p := Some x))) os_nop (\<lambda>_ d. d0(p := Some x) = d) E"
      using Cons.prems by (intro runs_nop) (auto intro!: I E simp: progress_file)
    show "runs flt I ((=) (d0(p := Some x))) (os_write_all p (q * PAGE_SIZE) ys)
        (\<lambda>_ d. (d0(p := Some (write_at x (q * PAGE_SIZE) ys))) = d) E"
      using Cons.prems(3) len
      by (intro runs_write_all) (auto intro!: I E simp: on progress_file part simp del: page_offsets)
  qed
  show ?case unfolding write_records.simps fold.simps
    by (rule runs_bind [OF w]) (rule runs_weaken [OF Cons.IH [OF _ full]], use Cons.prems(1) r in auto)
qed

lemma runs_apply_wal:
  assumes p: "parse_wal w = Ok (n, rs)" and c: "committed_image w n rs (file_of d0 p) = Ok M"
    and len: "length (file_of d0 p) \<le> MAX_FILE_BYTES"
    and I: "\<And>d. progress p n rs d0 d \<Longrightarrow> I d" and E: "\<And>d. flt \<Longrightarrow> progress p n rs d0 d \<Longrightarrow> E io_fault d"
  shows "runs flt I ((=) d0) (apply_wal p w) (\<lambda>_ d. d = d0(p := Some M) \<and> progress p n rs d0 d) E"
proof -
  have n: "n \<le> MAX_PAGES" "list_all (in_image n) rs" using parse_wal_sound [OF p] by simp_all
  have M: "M = overlay rs (resize (file_of d0 p) (n * PAGE_SIZE))" using committed_image_Ok [OF n(2) c] by simp
  have nlen: "n * PAGE_SIZE \<le> MAX_FILE_BYTES" using n(1) by (simp add: MAX_PAGES_eq MAX_FILE_BYTES_def)
  have start: "progress p n rs d0 d0" using len by (rule progress_refl)
  let ?x = "file_of d0 p"
  let ?d1 = "d0(p := Some ?x)"
  let ?y = "fold (\<lambda>(p, d) x. write_at x (p * PAGE_SIZE) d) rs ?x"
  have fin: "resize ?y (n * PAGE_SIZE) = M" using write_records_overlay [OF n(2)] M by simp
  show ?thesis
    unfolding apply_wal_def
  proof (rule runs_bind)
    show "runs flt I ((=) d0) (liftIO (parse_wal w)) (\<lambda>x d. x = (n, rs) \<and> d0 = d) E"
      using p by (intro runs_lift) auto
    fix x
    show "runs flt I (\<lambda>d. x = (n, rs) \<and> d0 = d) (case x of (page_count, records) \<Rightarrow>
        bindIO (catchIO (read_bytes p MAX_FILE_BYTES) (\<lambda>e. if e = NotFound then returnIO [] else liftIO (Err e))) (\<lambda>cur.
        bindIO (liftIO (committed_image w page_count records cur)) (\<lambda>_.
        bindIO (os_open_create p) (\<lambda>_. bindIO (write_records p records) (\<lambda>_.
        bindIO (os_set_len p (page_count * PAGE_SIZE)) (\<lambda>_. os_nop))))))
        (\<lambda>_ d. d = d0(p := Some M) \<and> progress p n rs d0 d) E"
    proof (cases "x = (n, rs)")
      case True
      have s1: "runs flt I (\<lambda>d. x = (n, rs) \<and> d0 = d)
          (catchIO (read_bytes p MAX_FILE_BYTES) (\<lambda>e. if e = NotFound then returnIO [] else liftIO (Err e)))
          (\<lambda>cur d. cur = ?x \<and> d0 = d) E"
      proof (rule runs_catch)
        show "runs flt I (\<lambda>d. x = (n, rs) \<and> d0 = d) (read_bytes p MAX_FILE_BYTES) (\<lambda>cur d. cur = ?x \<and> d0 = d)
            (\<lambda>e d. d0 = d \<and> (e = NotFound \<and> d0 p = None \<or> flt \<and> e = io_fault))"
          using start len by (intro runs_read_bytes) (auto intro!: I simp: file_of_def)
        show "runs flt I (\<lambda>d. d0 = d \<and> (e = NotFound \<and> d0 p = None \<or> flt \<and> e = io_fault))
            (if e = NotFound then returnIO [] else liftIO (Err e)) (\<lambda>cur d. cur = ?x \<and> d0 = d) E" for e
          using start by (auto intro!: runs_return runs_lift E simp: file_of_def)
      qed
      have s2: "runs flt I (\<lambda>d. cur = ?x \<and> d0 = d) (liftIO (committed_image w n rs cur)) (\<lambda>_ d. d0 = d) E" for cur
        using c by (cases "cur = ?x") (auto intro: runs_lift_Ok runs_False)
      have s3: "runs flt I ((=) d0) (os_open_create p) (\<lambda>_ d. ?d1 = d) E"
        unfolding os_open_create_def using len start
        by (intro runs_os_call) (auto intro!: I E simp: file_of_def progress_def split: option.splits)
      have s4: "runs flt I ((=) ?d1) (write_records p rs) (\<lambda>_ d. d = d0(p := Some ?y)
          \<and> agree n rs ?x ?y \<and> length ?y \<le> MAX_FILE_BYTES) E"
        by (rule runs_weaken, rule runs_write_records [OF n(2,1) subset_refl agree_refl len]) (auto intro: I E)
      have agree_M: "agree n rs ?x M" if "agree n rs ?x ?y"
        using agree_resize [OF that] unfolding fin .
      have len_M: "length M \<le> MAX_FILE_BYTES" using nlen by (simp add: resize_def flip: fin del: page_offsets)
      have s5: "runs flt I (\<lambda>d. d = d0(p := Some ?y) \<and> agree n rs ?x ?y \<and> length ?y \<le> MAX_FILE_BYTES)
          (os_set_len p (n * PAGE_SIZE)) (\<lambda>_ d. d = d0(p := Some M) \<and> progress p n rs d0 d) E"
        unfolding os_set_len_def
        by (intro runs_os_call)
           (auto intro!: I E simp: on_file_def progress_file fin agree_M len_M simp del: page_offsets)
      have s6: "runs flt I (\<lambda>d. d = d0(p := Some M) \<and> progress p n rs d0 d) os_nop (\<lambda>_ d. d = d0(p := Some M) \<and> progress p n rs d0 d) E"
        by (intro runs_nop) (auto intro!: I E)
      show ?thesis unfolding True prod.case
        by (rule runs_bind [OF s1 [unfolded True]], rule runs_bind [OF s2], rule runs_bind [OF s3], rule runs_bind [OF s4],
            rule runs_bind [OF s5], rule s6)
    qed (simp add: runs_False)
  qed
qed

section \<open>The kind of the errors\<close>

definition only_invalid :: "(io_error, 'a) outcome \<Rightarrow> bool" where
  "only_invalid m \<longleftrightarrow> (\<forall>e. m = Err e \<longrightarrow> (\<exists>s. e = InvalidData s))"

lemma only_invalid_simps [simp]:
  "only_invalid (Ok x)" "only_invalid Panic" "only_invalid (Err (invalid s))"
  by (simp_all add: only_invalid_def invalid_def)

lemma only_invalid_bindO:
  "only_invalid m \<Longrightarrow> (\<And>x. m = Ok x \<Longrightarrow> only_invalid (f x)) \<Longrightarrow> only_invalid (bindO m f)"
  by (cases m) (auto simp: only_invalid_def)

lemma only_invalid_foldO: "(\<And>x s. only_invalid (f x s)) \<Longrightarrow> only_invalid (foldO f xs s)"
  by (induction xs arbitrary: s) (auto intro!: only_invalid_bindO)

lemma only_invalid_repeatO: "(\<And>s. only_invalid (f s)) \<Longrightarrow> only_invalid (repeatO n f s)"
  by (induction n arbitrary: s) (auto intro!: only_invalid_bindO)

lemma only_invalid_basic [simp]:
  "only_invalid (ok_or v (invalid s))" "only_invalid (index_range bs a b)" "only_invalid (index_at xs i)"
  "only_invalid (to_array k bs)" "only_invalid (usize_try_from n s)"
  by (auto simp: ok_or_def index_range_def index_at_def to_array_def usize_try_from_def expectO_def split: option.split)

lemma only_invalid_read [simp]: "only_invalid (read_u32 bs i)" "only_invalid (read_u64 bs i)"
  by (auto simp: read_u32_def read_u64_def intro!: only_invalid_bindO)

lemma only_invalid_reader [simp]:
  "only_invalid (reader_take n c r)" "only_invalid (reader_u8 c r)" "only_invalid (reader_u32 c r)" "only_invalid (reader_u64 c r)"
  by (auto simp: reader_take_def reader_u8_def reader_u32_def reader_u64_def intro!: only_invalid_bindO)

lemma only_invalid_texts [simp]: "only_invalid (reader_text l c r)" "only_invalid (reader_data l c r)"
  by (auto simp: reader_text_def reader_data_def intro!: only_invalid_bindO)

lemma only_invalid_items: "(\<And>s. only_invalid (get s)) \<Longrightarrow> only_invalid (read_items n get k r)"
  by (auto simp: read_items_def split: prod.splits intro!: only_invalid_repeatO only_invalid_bindO)

lemma only_invalid_field: "only_invalid (decode_field allowed s)"
  by (cases s) (auto simp: decode_field_def Let_def intro!: only_invalid_bindO)

lemma only_invalid_constrained: "only_invalid (decode_constrained names s)"
  by (cases s) (auto simp: decode_constrained_def intro!: only_invalid_bindO)

lemma only_invalid_constraint: "only_invalid (decode_constraint names n s)"
  by (cases s) (auto simp: decode_constraint_def intro!: only_invalid_bindO only_invalid_items only_invalid_constrained)

lemma only_invalid_row: "only_invalid (decode_row s)"
  by (cases s) (auto simp: decode_row_def intro!: only_invalid_bindO)

lemma only_invalid_table: "only_invalid (decode_table allowed sc s)"
  by (cases s)
     (auto simp: decode_table_def
       intro!: only_invalid_bindO only_invalid_items only_invalid_field only_invalid_constraint only_invalid_row)

lemma only_invalid_payload: "only_invalid (decode_payload p allowed sc)"
  by (auto simp: decode_payload_def Let_def intro!: only_invalid_bindO only_invalid_items only_invalid_table)

lemma only_invalid_page: "only_invalid (decode_page bs n plen k p)"
  by (auto simp: decode_page_def Let_def intro!: only_invalid_bindO)

lemma only_invalid_pages: "only_invalid (decode_pages bs a sc)"
  by (auto simp: decode_pages_def simp del: upt_Suc page_offsets
      intro!: only_invalid_bindO only_invalid_foldO only_invalid_page only_invalid_payload)

lemma only_invalid_decode: "only_invalid (decode bs)"
  by (auto simp: decode_def decode_legacy_def intro!: only_invalid_bindO only_invalid_pages only_invalid_payload)

lemma decode_found: "decode bs \<noteq> Err NotFound" "decode bs \<noteq> Panic"
  using only_invalid_decode [of bs] decode_np [of bs] by (auto simp: only_invalid_def)

section \<open>No log makes the store panic\<close>

lemma parse_record_np:
  "WAL_HEADER_SIZE + (k + 1) * WAL_RECORD_SIZE \<le> length bs \<Longrightarrow> no_panic (parse_record bs n k s)"
  by (cases s)
     (auto simp: parse_record_def Let_def WAL_HEADER_SIZE_def WAL_RECORD_SIZE_def
       intro!: no_panic_bindO read_u64_np index_range_np)

lemma parse_wal_np: "no_panic (parse_wal bs)"
proof -
  have loop: "no_panic (foldO (parse_record bs n) [0..<m] ({}, []))"
    if "usize_checked_add 64 (usize_saturating_mul m WAL_RECORD_SIZE) = Some (length bs)"
      "\<not> MAX_WAL_BYTES < length bs" for m n
  proof (rule no_panic_foldO)
    have le: "WAL_HEADER_SIZE + m * WAL_RECORD_SIZE = length bs"
      using that
      by (auto simp: usize_checked_add_def usize_saturating_mul_def min_def MAX_WAL_BYTES_def MAX_PAGES_eq
          WAL_HEADER_SIZE_def WAL_RECORD_SIZE_def USIZE_MAX_def split: if_splits)
    fix k s assume "k \<in> set [0..<m]"
    then have "(k + 1) * WAL_RECORD_SIZE \<le> m * WAL_RECORD_SIZE" by (intro mult_le_mono1) simp
    then show "no_panic (parse_record bs n k s)" using le by (intro parse_record_np) simp
  qed
  show ?thesis unfolding parse_wal_def
    by (auto simp: WAL_HEADER_SIZE_def intro!: no_panic_bindO read_u32_np read_u64_np index_range_np loop simp: ok_or_def split: option.splits)
qed

lemma committed_image_np:
  assumes "parse_wal w = Ok (n, rs)"
  shows "no_panic (committed_image w n rs cur)"
proof -
  have "list_all (in_image n) rs" "16 + 8 \<le> length w"
    using parse_wal_sound [OF assms] assms by (auto simp: parse_wal_def WAL_HEADER_SIZE_def split: if_splits)
  then show ?thesis
    unfolding committed_image_closed [OF \<open>list_all (in_image n) rs\<close>] Let_def
    by (auto intro!: no_panic_bindO current_generation_np read_u64_np decode_np)
qed

lemma wal_image_np: "no_panic (wal_image w cur)"
  unfolding wal_image_def by (auto intro!: no_panic_bindO parse_wal_np committed_image_np)

section \<open>Contents under the steps of a transaction\<close>

lemma contents_cong:
  "d p = d' p \<Longrightarrow> d (wal_path p) = d' (wal_path p) \<Longrightarrow> d (backup_path p) = d' (backup_path p) \<Longrightarrow>
     store_contents p d = store_contents p d'"
  unfolding store_contents_def file_of_def by (simp only:)

lemma contents_pending:
  assumes "d (wal_path p) = Some w" "length w \<le> MAX_WAL_BYTES" "length (file_of d p) \<le> MAX_FILE_BYTES"
    "wal_image w (file_of d p) = Ok M"
  shows "store_contents p d = decode M"
  using assms by (simp add: store_contents_def read_limited_def)

lemma contents_settled:
  assumes "d (wal_path p) = None" "d p = Some M" "length M \<le> MAX_FILE_BYTES"
  shows "store_contents p d = decode M"
  using assms by (simp add: store_contents_def read_limited_def)

lemma contents_pending_Ok:
  assumes "d (wal_path p) = Some w" "store_contents p d = Ok s"
  shows "length (file_of d p) \<le> MAX_FILE_BYTES" "\<exists>M. wal_image w (file_of d p) = Ok M"
  using assms by (auto simp: store_contents_def outcome_simps)

lemma wal_image_Ok:
  assumes "wal_image w cur = Ok M"
  obtains n rs s where "parse_wal w = Ok (n, rs)" "committed_image w n rs cur = Ok M" "n \<le> MAX_PAGES"
    "list_all (in_image n) rs" "decode M = Ok s" "length M \<le> MAX_FILE_BYTES"
proof -
  obtain n rs where 1: "parse_wal w = Ok (n, rs)" "committed_image w n rs cur = Ok M"
    using assms by (auto simp: wal_image_def outcome_simps)
  have 2: "n \<le> MAX_PAGES" "list_all (in_image n) rs" using parse_wal_sound [OF 1(1)] by simp_all
  have 3: "length M = n * PAGE_SIZE" "\<exists>s. decode M = Ok s" using committed_image_Ok [OF 2(2) 1(2)] by blast+
  have "length M \<le> MAX_FILE_BYTES" using 2(1) 3(1) by (simp add: MAX_PAGES_eq MAX_FILE_BYTES_def)
  then show thesis using 1 2 3 that by blast
qed

lemma contents_progress:
  assumes fn: "file_name p = Some nm" and w: "d0 (wal_path p) = Some w" "length w \<le> MAX_WAL_BYTES"
    and pr: "parse_wal w = Ok (n, rs)" and c: "committed_image w n rs (file_of d0 p) = Ok M"
    and d: "progress p n rs d0 d"
  shows "store_contents p d = decode M \<and> d (wal_path p) = Some w"
proof -
  have wd: "d (wal_path p) = Some w" using d fn w by (simp add: progress_def)
  have "committed_image w n rs (file_of d p) = Ok M"
    using c d parse_wal_sound [OF pr] committed_image_agree [of n rs "file_of d0 p" "file_of d p" w] by (simp add: progress_def)
  then have "wal_image w (file_of d p) = Ok M" using pr by (simp add: wal_image_def)
  then show ?thesis using wd w d by (auto simp: progress_def intro: contents_pending)
qed

lemma runs_each: "(\<And>d0. P d0 \<Longrightarrow> runs flt I ((=) d0) m Q E) \<Longrightarrow> runs flt I P m Q E"
  by (auto simp: runs_def)

lemma runs_read_or_empty:
  assumes "\<And>d. P d \<Longrightarrow> I d"
    and "\<And>d. P d \<Longrightarrow> length (file_of d p) \<le> limit \<Longrightarrow> Q (file_of d p) d"
    and "\<And>d. P d \<Longrightarrow> length (file_of d p) > limit \<Longrightarrow> E (invalid ''DISP Data file exceeds its storage limit'') d"
    and "\<And>d. flt \<Longrightarrow> P d \<Longrightarrow> E io_fault d"
  shows "runs flt I P (catchIO (read_bytes p limit) (\<lambda>e. if e = NotFound then returnIO [] else liftIO (Err e))) Q E"
proof (rule runs_catch)
  show "runs flt I P (read_bytes p limit) Q
      (\<lambda>e d. (e = NotFound \<and> P d \<and> d p = None) \<or> (e \<noteq> NotFound \<and> E e d))"
    using assms by (intro runs_read_bytes) (fastforce simp: file_of_def invalid_def)+
  show "runs flt I (\<lambda>d. (e = NotFound \<and> P d \<and> d p = None) \<or> (e \<noteq> NotFound \<and> E e d))
      (if e = NotFound then returnIO [] else liftIO (Err e)) Q E" for e
    using assms(2) by (cases "e = NotFound") (fastforce simp: file_of_def intro!: runs_return runs_lift)+
qed

text \<open>The bytes of the data file once a pending log has been applied.\<close>

definition settled_image :: "store_path \<Rightarrow> disk \<Rightarrow> byte list" where
  "settled_image p d =
     (case d (wal_path p) of
        None \<Rightarrow> file_of d p
      | Some w \<Rightarrow> (case wal_image w (file_of d p) of Ok M \<Rightarrow> M | _ \<Rightarrow> file_of d p))"

text \<open>Applying the pending log never changes what the store holds, wherever it stops.\<close>

lemma runs_apply_pending:
  assumes fn: "file_name p = Some nm" and w: "d0 (wal_path p) = Some w" "length w \<le> MAX_WAL_BYTES"
    and c: "c = store_contents p d0"
  shows "runs flt (\<lambda>d. store_contents p d = c) ((=) d0) (apply_wal p w)
    (\<lambda>_ d. \<exists>M. wal_image w (file_of d0 p) = Ok M \<and> d = d0(p := Some M) \<and> length M \<le> MAX_FILE_BYTES \<and> decode M = c \<and> store_contents p d = c)
    (\<lambda>e d. store_contents p d = c \<and> (flt \<or> (\<forall>s. c \<noteq> Ok s)))"
proof (cases "length (file_of d0 p) \<le> MAX_FILE_BYTES \<and> (\<exists>M. wal_image w (file_of d0 p) = Ok M)")
  case True
  then obtain M where len: "length (file_of d0 p) \<le> MAX_FILE_BYTES" and M: "wal_image w (file_of d0 p) = Ok M" by blast
  from M obtain n rs s where *: "parse_wal w = Ok (n, rs)" "committed_image w n rs (file_of d0 p) = Ok M"
      "n \<le> MAX_PAGES" "list_all (in_image n) rs" "decode M = Ok s" "length M \<le> MAX_FILE_BYTES"
    by (rule wal_image_Ok)
  have cM: "c = decode M" unfolding c using w len M by (intro contents_pending)
  note prog = contents_progress [OF fn w *(1,2)]
  show ?thesis
    by (rule runs_weaken, rule runs_apply_wal [OF *(1,2) len, where E = "\<lambda>e d. flt \<and> progress p n rs d0 d"])
       (use prog * cM M in auto)
next
  case False
  have bad: "c \<noteq> Ok s" for s using False contents_pending_Ok [of d0 p w, OF w(1)] unfolding c by blast
  let ?I = "\<lambda>d. store_contents p d = c" and ?E = "\<lambda>e d. store_contents p d = c \<and> (flt \<or> (\<forall>s. c \<noteq> Ok s))"
  have s1: "runs flt ?I ((=) d0) (liftIO (parse_wal w)) (\<lambda>x d. parse_wal w = Ok x \<and> d0 = d) ?E"
    using bad c by (intro runs_lift parse_wal_np) auto
  have s2: "runs flt ?I (\<lambda>d. parse_wal w = Ok (n, rs) \<and> d0 = d)
      (catchIO (read_bytes p MAX_FILE_BYTES) (\<lambda>e. if e = NotFound then returnIO [] else liftIO (Err e)))
      (\<lambda>cur d. parse_wal w = Ok (n, rs) \<and> cur = file_of d0 p \<and> length cur \<le> MAX_FILE_BYTES \<and> d0 = d) ?E" for n rs
    using bad c by (intro runs_read_or_empty) auto
  have s3: "runs flt ?I (\<lambda>d. parse_wal w = Ok (n, rs) \<and> cur = file_of d0 p \<and> length cur \<le> MAX_FILE_BYTES \<and> d0 = d)
      (liftIO (committed_image w n rs cur)) (\<lambda>_ d. False) ?E" for n rs cur
    using False bad c
    by (cases "parse_wal w = Ok (n, rs)") (auto intro!: runs_lift runs_False committed_image_np simp: wal_image_def)
  show ?thesis unfolding apply_wal_def
    by (rule runs_bind [OF s1], split prod.split, intro allI impI, simp only:)
       (rule runs_bind [OF s2], rule runs_bind [OF s3], rule runs_False)
qed

lemma runs_bind_lift: "m = Ok x \<Longrightarrow> runs flt I P (f x) Q E \<Longrightarrow> runs flt I P (bindIO (liftIO m) f) Q E"
  by (simp add: runs_def bindIO_def liftIO_def)

section \<open>Recovery and loading\<close>

lemma runs_recover:
  assumes fn: "file_name p = Some nm" and c: "c = store_contents p d0"
  shows "runs flt (\<lambda>d. store_contents p d = c) ((=) d0) (recover_wal p)
    (\<lambda>_ d. store_contents p d = c \<and> d (wal_path p) = None \<and> file_of d p = settled_image p d0
       \<and> (\<forall>q. q \<noteq> p \<and> q \<noteq> wal_path p \<longrightarrow> d q = d0 q))
    (\<lambda>e d. store_contents p d = c \<and> (flt \<or> (\<forall>s. c \<noteq> Ok s)))"
proof -
  let ?I = "\<lambda>d. store_contents p d = c" and ?E = "\<lambda>e d. store_contents p d = c \<and> (flt \<or> (\<forall>s. c \<noteq> Ok s))"
  let ?Q = "\<lambda>_ d. store_contents p d = c \<and> d (wal_path p) = None \<and> file_of d p = settled_image p d0
       \<and> (\<forall>q. q \<noteq> p \<and> q \<noteq> wal_path p \<longrightarrow> d q = d0 q)"
  have bad: "c \<noteq> Ok s" if "d0 (wal_path p) = Some w" "length w > MAX_WAL_BYTES" for w s
    using that unfolding c by (simp add: store_contents_def read_limited_def)
  have s1: "runs flt ?I ((=) d0) (bindIO (read_bytes (wal_path p) MAX_WAL_BYTES) (\<lambda>bs. returnIO (Some bs)))
      (\<lambda>w d. d0 (wal_path p) = w \<and> (\<forall>bs. w = Some bs \<longrightarrow> length bs \<le> MAX_WAL_BYTES) \<and> d0 = d)
      (\<lambda>e d. d0 = d \<and> (e = NotFound \<and> d0 (wal_path p) = None \<or> e \<noteq> NotFound \<and> ?E e d))"
    by (rule runs_bind [OF runs_read_bytes [where Q = "\<lambda>bs d. d0 (wal_path p) = Some bs \<and> length bs \<le> MAX_WAL_BYTES \<and> d0 = d"]])
       (use bad c in \<open>auto intro!: runs_return simp: invalid_def\<close>)
  have s2: "runs flt ?I ((=) d0)
      (catchIO (bindIO (read_bytes (wal_path p) MAX_WAL_BYTES) (\<lambda>bs. returnIO (Some bs)))
        (\<lambda>e. if e = NotFound then returnIO None else liftIO (Err e)))
      (\<lambda>w d. d0 (wal_path p) = w \<and> (\<forall>bs. w = Some bs \<longrightarrow> length bs \<le> MAX_WAL_BYTES) \<and> d0 = d) ?E"
  proof (rule runs_catch [OF s1])
    show "runs flt ?I (\<lambda>d. d0 = d \<and> (e = NotFound \<and> d0 (wal_path p) = None \<or> e \<noteq> NotFound \<and> ?E e d))
        (if e = NotFound then returnIO None else liftIO (Err e))
        (\<lambda>w d. d0 (wal_path p) = w \<and> (\<forall>bs. w = Some bs \<longrightarrow> length bs \<le> MAX_WAL_BYTES) \<and> d0 = d) ?E" for e
      by (cases "e = NotFound") (auto intro!: runs_return runs_lift)
  qed
  have s3: "runs flt ?I (\<lambda>d. d0 (wal_path p) = w \<and> (\<forall>bs. w = Some bs \<longrightarrow> length bs \<le> MAX_WAL_BYTES) \<and> d0 = d)
      (case w of None \<Rightarrow> returnIO () | Some bs \<Rightarrow> bindIO (apply_wal p bs) (\<lambda>_. os_remove (wal_path p)))
      ?Q ?E" for w
  proof (cases w)
    case None
    then show ?thesis using c by (auto intro!: runs_return simp: settled_image_def)
  next
    case (Some bs)
    show ?thesis
    proof (cases "d0 (wal_path p) = Some bs \<and> length bs \<le> MAX_WAL_BYTES")
      case True
      note apl = runs_apply_pending [OF fn conjunct1 [OF True] conjunct2 [OF True] c, where flt = flt]
      have rm: "runs flt ?I (\<lambda>d. \<exists>M. wal_image bs (file_of d0 p) = Ok M \<and> d = d0(p := Some M) \<and> length M \<le> MAX_FILE_BYTES \<and> decode M = c \<and> store_contents p d = c)
          (os_remove (wal_path p)) ?Q ?E"
        unfolding os_remove_def using fn True
        by (intro runs_os_call)
           (auto simp: outcome_simps ok_or_def settled_image_def file_of_def intro!: contents_settled [THEN trans])
      show ?thesis unfolding Some option.case
        by (rule runs_weaken [OF runs_bind [OF apl rm]]) auto
    qed (auto simp: Some intro: runs_False [THEN runs_weaken])
  qed
  show ?thesis unfolding recover_wal_def
    by (rule runs_bind_lift [OF suffix_paths(1) [OF fn]]) (rule runs_bind [OF s2 s3])
qed

lemma protects_name: "protects l p = Ok b \<Longrightarrow> \<exists>nm. file_name p = Some nm"
  by (auto simp: protects_def suffix_def outcome_simps ok_or_def split: option.splits)

lemma protects_np [simp]: "no_panic (protects l p)"
  by (auto simp: protects_def suffix_def intro!: no_panic_bindO)



section \<open>Commits\<close>

lemma push_np [simp]: "no_panic (push_u32 o1 v c)" "no_panic (push_u64 o1 v c)" "no_panic (push_bytes o1 bs l c)"
  by (auto simp: push_u32_def push_u64_def push_bytes_def intro!: no_panic_bindO)

lemma encode_field_np: "no_panic (encode_field f s)"
  by (cases s) (auto simp: encode_field_def intro!: no_panic_bindO)

lemma encode_constrained_np: "no_panic (encode_constrained names f s)"
  by (cases s) (auto simp: encode_constrained_def intro!: no_panic_bindO)

lemma encode_constraint_np: "no_panic (encode_constraint names n f s)"
  by (cases s) (auto simp: encode_constraint_def Let_def intro!: no_panic_bindO no_panic_foldO encode_constrained_np)

lemma encode_row_np: "no_panic (encode_row f s)"
  by (cases s) (auto simp: encode_row_def intro!: no_panic_bindO)

lemma encode_table_np: "no_panic (encode_table sc t s)"
  by (cases s)
     (auto simp: encode_table_def intro!: no_panic_bindO no_panic_foldO encode_field_np encode_constraint_np encode_row_np)

lemma encode_payload_np: "no_panic (encode_payload_with_constraints s sc)"
  by (auto simp: encode_payload_with_constraints_def Let_def intro!: no_panic_bindO no_panic_foldO encode_table_np)

lemma encode_pages_np: "no_panic (encode_pages s g)"
proof (cases "encode_payload_with_constraints s True")
  case (Ok P)
  show ?thesis
  proof (cases "length P \<le> (MAX_PAGES - 1) * PAGE_PAYLOAD_SIZE")
    case True
    then show ?thesis using encode_pages_total [OF Ok, of g] by auto
  next
    case False
    let ?d = "max (div_ceil (length P) PAGE_PAYLOAD_SIZE) 1"
    have "\<not> ?d + 1 \<le> MAX_PAGES" using False by (auto simp: MAX_PAGES_eq div_ceil_def)
    then have "(case usize_checked_add ?d 1 of None \<Rightarrow> None | Some c \<Rightarrow> if c \<le> MAX_PAGES then Some c else None) = None"
      by (simp add: usize_checked_add_def)
    then show ?thesis unfolding encode_pages_def encode_pages_version_def Ok bindO.simps Let_def by (simp add: ok_or_def)
  qed
qed (use encode_payload_np [of s True] in \<open>simp_all add: encode_pages_def encode_pages_version_def\<close>)

text \<open>The log that a commit writes, read over the file it was made for.\<close>

lemma commit_log:
  assumes e: "encode_pages s g = Ok new" and a: "snapshot_admits 15 s"
    and old: "current_generation old = Ok g'" "g = g' + 1" "g < 2 ^ 64"
  obtains w where "encode_wal old new g = Ok w" "wal_image w old = Ok new" "length w \<le> MAX_WAL_BYTES"
    "decode new = Ok (sorted_snapshot s)"
proof -
  obtain P n where P: "page_file_ok MAGIC VERSION g P n" "new = page_file MAGIC VERSION g P n"
    using encode_pages_closed [OF e a old(3)] by blast
  have dec: "decode new = Ok (sorted_snapshot s)" using decode_encode_pages [OF e a old(3)] .
  have "length new \<le> MAX_FILE_BYTES" using P by (simp add: page_file_ok_def MAX_PAGES_eq MAX_FILE_BYTES_def)
  then obtain w where w: "encode_wal old new g = Ok w" using encode_wal_total by blast
  then show thesis using wal_image_commit [OF P dec old(1,2) w] dec that by blast
qed

definition temporary_path :: "store_path \<Rightarrow> string \<Rightarrow> store_path" where
  "temporary_path p x = p\<lparr>file_name := Some (the (file_name p) @ ''.wal.tmp-'' @ x)\<rparr>"

lemma temporary_distinct [simp]:
  assumes "file_name p = Some nm"
  shows "temporary_path p x \<noteq> p" "temporary_path p x \<noteq> wal_path p" "temporary_path p x \<noteq> backup_path p"
    "p \<noteq> temporary_path p x" "wal_path p \<noteq> temporary_path p x" "backup_path p \<noteq> temporary_path p x"
proof -
  have "file_name (temporary_path p x) = Some (nm @ ''.wal.tmp-'' @ x)" "file_name (wal_path p) = Some (nm @ ''.wal'')"
    "file_name (backup_path p) = Some (nm @ ''.backup'')"
    using assms by (simp_all add: temporary_path_def wal_path_def backup_path_def)
  then show "temporary_path p x \<noteq> p" "temporary_path p x \<noteq> wal_path p" "temporary_path p x \<noteq> backup_path p"
    "p \<noteq> temporary_path p x" "wal_path p \<noteq> temporary_path p x" "backup_path p \<noteq> temporary_path p x"
    using assms by (auto dest!: arg_cong [where f = file_name])
qed

lemma contents_temporary:
  "file_name p = Some nm \<Longrightarrow> store_contents p (d(temporary_path p x := b)) = store_contents p d"
  by (intro contents_cong) simp_all

lemma runs_inv: "runs flt I P m Q E \<Longrightarrow> (\<And>d. I d \<Longrightarrow> I' d) \<Longrightarrow> runs flt I' P m Q E"
  by (fastforce simp: runs_def ends_def list_all_iff split: prod.splits)

lemma runs_remove:
  assumes "\<And>d. P d \<Longrightarrow> I (d(q := None)) \<and> Q () (d(q := None))" and "\<And>d. P d \<Longrightarrow> d q = None \<Longrightarrow> E NotFound d"
    and "\<And>d. flt \<Longrightarrow> P d \<Longrightarrow> E io_fault d"
  shows "runs flt I P (os_remove q) Q E"
  unfolding os_remove_def using assms
  by (intro runs_os_call) (auto simp: ok_or_def split: option.splits)

lemma runs_fetch:
  assumes "\<And>n. runs flt I P (f n) Q E"
  shows "runs flt I P (bindIO fetch_temporary f) Q E"
proof (rule runsI)
  fix st :: io_state assume st: "P (disk st)" "flt \<or> faults st = []"
  from runsD [OF assms, of "st\<lparr>next_temporary := (next_temporary st + 1) mod 2 ^ 64\<rparr>"] st
  show "ends flt I Q E (history st) (bindIO fetch_temporary f st)" by (simp add: bindIO_def fetch_temporary_def)
qed

lemma runs_publish:
  assumes fn: "file_name p = Some nm" and d1: "store_contents p d1 = c" "d1 (wal_path p) = None"
    and w: "wal_image w (file_of d1 p) = Ok new" "length w \<le> MAX_WAL_BYTES" "length (file_of d1 p) \<le> MAX_FILE_BYTES"
    and c': "c' = decode new"
  shows "runs flt (\<lambda>d. store_contents p d = c \<or> store_contents p d = c') ((=) d1)
    (publish p (temporary_path p x) (wal_path p) w)
    (\<lambda>_ d. store_contents p d = c')
    (\<lambda>e d. (store_contents p d = c \<or> store_contents p d = c') \<and> (flt \<or> d1 (temporary_path p x) \<noteq> None))"
proof -
  let ?t = "temporary_path p x" and ?wal = "wal_path p"
  let ?I = "\<lambda>d. store_contents p d = c \<or> store_contents p d = c'"
  let ?E = "\<lambda>e d. (store_contents p d = c \<or> store_contents p d = c') \<and> (flt \<or> d1 ?t \<noteq> None)"
  let ?d2 = "d1(?t := Some [])" and ?d3 = "d1(?t := Some w)" and ?d4 = "d1(?t := None, ?wal := Some w)"
  obtain s' where s': "decode new = Ok s'" using w(1) by (rule wal_image_Ok)
  have f4: "file_of ?d4 p = file_of d1 p" using fn by (simp add: file_of_def)
  have c4: "store_contents p ?d4 = c'"
    unfolding c' using w by (intro contents_pending) (simp_all add: f4)
  have t: "store_contents p (d1(?t := b)) = c" for b using contents_temporary [OF fn] d1 by simp
  have s1: "runs flt ?I ((=) d1) (os_create_new ?t) (\<lambda>_ d. ?d2 = d) ?E"
    unfolding os_create_new_def using t d1 by (intro runs_os_call) (auto split: if_splits)
  have s2: "runs flt ?I ((=) ?d2) (os_write_all ?t 0 w) (\<lambda>_ d. ?d3 = d) ?E"
    using t by (intro runs_write_all) (auto simp: on_file_def write_at_def resize_def)
  have s3: "runs flt ?I ((=) ?d3) os_nop (\<lambda>_ d. ?d3 = d) ?E"
    using t by (intro runs_nop) auto
  have s4: "runs flt ?I ((=) ?d3) (os_rename ?t ?wal) (\<lambda>_ d. ?d4 = d) ?E"
    unfolding os_rename_def using t c4 by (intro runs_os_call) (auto simp: outcome_simps ok_or_def)
  have s5: "runs flt ?I ((=) ?d4) (ignoreIO os_nop) (\<lambda>_ d. ?d4 = d) ?E"
    using c4 by (intro runs_ignore runs_nop) auto
  have w4: "?d4 ?wal = Some w" by simp
  have "runs flt (\<lambda>d. store_contents p d = c') ((=) ?d4) (apply_wal p w)
      (\<lambda>_ d. \<exists>M. wal_image w (file_of ?d4 p) = Ok M \<and> d = ?d4(p := Some M) \<and> length M \<le> MAX_FILE_BYTES \<and> decode M = c' \<and> store_contents p d = c')
      (\<lambda>e d. store_contents p d = c' \<and> (flt \<or> (\<forall>s. c' \<noteq> Ok s)))"
    using runs_apply_pending [OF fn w4 w(2) c4 [symmetric]] .
  then have s6: "runs flt ?I ((=) ?d4) (is_okIO (apply_wal p w))
      (\<lambda>b d. store_contents p d = c' \<and> (b \<longrightarrow> (\<exists>M. d = ?d4(p := Some M) \<and> length M \<le> MAX_FILE_BYTES \<and> decode M = c'))) ?E"
    by (intro runs_is_ok runs_inv [where I = "\<lambda>d. store_contents p d = c'" and I' = ?I]) (erule runs_weaken, auto)
  have s7: "runs flt ?I (\<lambda>d. \<exists>M. d = ?d4(p := Some M) \<and> length M \<le> MAX_FILE_BYTES \<and> decode M = c' \<and> store_contents p d = c')
      (os_remove ?wal) (\<lambda>_ d. \<exists>M. d = d1(?t := None, ?wal := None, p := Some M) \<and> length M \<le> MAX_FILE_BYTES \<and> decode M = c') ?E"
    using fn by (intro runs_remove) (auto simp: contents_settled fun_upd_twist)
  have s8: "runs flt ?I (\<lambda>d. \<exists>M. d = d1(?t := None, ?wal := None, p := Some M) \<and> length M \<le> MAX_FILE_BYTES \<and> decode M = c')
      (ignoreIO (os_remove (backup_path p))) (\<lambda>_ d. store_contents p d = c') ?E"
    using fn by (intro runs_ignore runs_remove) (auto simp: contents_settled)
  have s9: "runs flt ?I (\<lambda>d. store_contents p d = c' \<and> (b \<longrightarrow> (\<exists>M. d = ?d4(p := Some M) \<and> length M \<le> MAX_FILE_BYTES \<and> decode M = c')))
      (if b then bindIO (os_remove ?wal) (\<lambda>_. bindIO (liftIO (suffix p ''.backup'')) (\<lambda>backup. ignoreIO (os_remove backup)))
       else returnIO ()) (\<lambda>_ d. store_contents p d = c') ?E" for b
  proof (cases b)
    case True
    have "runs flt ?I (\<lambda>d. \<exists>M. d = ?d4(p := Some M) \<and> length M \<le> MAX_FILE_BYTES \<and> decode M = c' \<and> store_contents p d = c')
        (bindIO (os_remove ?wal) (\<lambda>_. bindIO (liftIO (suffix p ''.backup'')) (\<lambda>backup. ignoreIO (os_remove backup))))
        (\<lambda>_ d. store_contents p d = c') ?E"
      by (rule runs_bind [OF s7], rule runs_bind_lift [OF suffix_paths(2) [OF fn]], rule s8)
    then show ?thesis unfolding if_P [OF True] by (rule runs_weaken) (use True in auto)
  next
    case False
    then show ?thesis by (auto intro: runs_return)
  qed
  show ?thesis unfolding publish_def
    by (rule runs_bind [OF s1], rule runs_bind [OF s2], rule runs_bind [OF s3], rule runs_bind [OF s4],
        rule runs_bind [OF s5], rule runs_bind [OF s6 s9])
qed

text \<open>
  What a commit needs to succeed when no call fails: a readable store, a snapshot that fits a page
  file, no temporary log left behind, and a generation counter that is not exhausted.
\<close>

definition commit_ready :: "store_path \<Rightarrow> snapshot \<Rightarrow> disk \<Rightarrow> bool" where
  "commit_ready p s d \<longleftrightarrow> (\<exists>s0. store_contents p d = Ok s0) \<and> (\<forall>x. d (temporary_path p x) = None)
     \<and> (\<exists>P. encode_payload_with_constraints s True = Ok P \<and> length P \<le> (MAX_PAGES - 1) * PAGE_PAYLOAD_SIZE)
     \<and> (\<exists>g. current_generation (settled_image p d) = Ok g \<and> g + 1 < 2 ^ 64)"

abbreviation exhausted :: io_error where
  "exhausted \<equiv> invalid ''DISP Data generation counter is exhausted''"

lemma runs_commit:
  assumes fn: "file_name p = Some nm" and l: "protects l p = Ok True" and a: "snapshot_admits 15 s"
    and c: "c = store_contents p d0" and c': "c' = Ok (sorted_snapshot s)"
  shows "runs flt (\<lambda>d. store_contents p d = c \<or> store_contents p d = c') ((=) d0) (commit pid p s l)
    (\<lambda>_ d. store_contents p d = c')
    (\<lambda>e d. (store_contents p d = c \<or> store_contents p d = c') \<and> (flt \<or> \<not> commit_ready p s d0))"
proof -
  let ?I = "\<lambda>d. store_contents p d = c \<or> store_contents p d = c'"
  let ?E = "\<lambda>e d. (store_contents p d = c \<or> store_contents p d = c') \<and> (flt \<or> \<not> commit_ready p s d0)"
  let ?R = "\<lambda>d. store_contents p d = c \<and> d (wal_path p) = None \<and> file_of d p = settled_image p d0
      \<and> (\<forall>q. q \<noteq> p \<and> q \<noteq> wal_path p \<longrightarrow> d q = d0 q)"
  let ?F = "\<lambda>old d. ?R d \<and> old = file_of d p \<and> length old \<le> MAX_FILE_BYTES"
  have bad: "\<not> commit_ready p s d0" if "\<forall>s. c \<noteq> Ok s" using that c by (simp add: commit_ready_def)
  have s1: "runs flt ?I ((=) d0) (recover_wal p) (\<lambda>_. ?R) ?E"
    by (rule runs_weaken [OF runs_inv [OF runs_recover [OF fn c]]]) (use bad in auto)
  have s2: "runs flt ?I ?R os_nop (\<lambda>_. ?R) ?E" by (rule runs_nop) auto
  have big: "\<forall>s. c \<noteq> Ok s" if "?R d" "length (file_of d p) > MAX_FILE_BYTES" for d
    using that by (auto simp: store_contents_def file_of_def read_limited_def split: option.splits)
  have s3: "runs flt ?I ?R (catchIO (read_bytes p MAX_FILE_BYTES) (\<lambda>e. if e = NotFound then returnIO [] else liftIO (Err e))) ?F ?E"
    by (rule runs_read_or_empty) (use big bad in blast)+
  have s4: "runs flt ?I (?F old)
     (bindIO (liftIO (current_generation old)) (\<lambda>g.
     bindIO (liftIO (if g + 1 < 2 ^ 64 then Ok (g + 1) else Err exhausted)) (\<lambda>generation.
     bindIO (liftIO (encode_pages s generation)) (\<lambda>new.
     bindIO (liftIO (encode_wal old new generation)) (\<lambda>wal_bytes.
     bindIO fetch_temporary (\<lambda>n.
     bindIO (liftIO (suffix p (''.wal.tmp-'' @ show_nat pid @ ''-'' @ show_nat n))) (\<lambda>temporary.
     bindIO (liftIO (suffix p ''.wal'')) (\<lambda>wal.
     catchIO (publish p temporary wal wal_bytes)
       (\<lambda>e. bindIO (ignoreIO (os_remove temporary)) (\<lambda>_. liftIO (Err e)))))))))))
     (\<lambda>_ d. store_contents p d = c') ?E"
    (is "runs _ _ _ ?m _ _") for old
  proof (rule runs_each)
    fix d1 assume d1: "?F old d1"
    obtain g where g: "current_generation old = Ok g" using current_generation_total by blast
    show "runs flt ?I ((=) d1) ?m (\<lambda>_ d. store_contents p d = c') ?E"
    proof (cases "g + 1 < 2 ^ 64 \<and> (\<exists>new. encode_pages s (g + 1) = Ok new)")
      case True
      then obtain new where new: "encode_pages s (g + 1) = Ok new" and lt: "g + 1 < 2 ^ 64" by blast
      from commit_log [OF new a g refl lt] obtain w where w: "encode_wal old new (g + 1) = Ok w"
        "wal_image w old = Ok new" "length w \<le> MAX_WAL_BYTES" "decode new = Ok (sorted_snapshot s)" .
      have gen: "(if g + 1 < 2 ^ 64 then Ok (g + 1) else Err exhausted) = Ok (g + 1)" using lt by simp
      have pub: "runs flt ?I ((=) d1) (catchIO (publish p (temporary_path p x) (wal_path p) w)
          (\<lambda>e. bindIO (ignoreIO (os_remove (temporary_path p x))) (\<lambda>_. liftIO (Err e)))) (\<lambda>_ d. store_contents p d = c') ?E" for x
      proof (rule runs_catch)
        have pw: "runs flt ?I ((=) d1) (publish p (temporary_path p x) (wal_path p) w) (\<lambda>_ d. store_contents p d = c')
            (\<lambda>e d. ?I d \<and> (flt \<or> d1 (temporary_path p x) \<noteq> None))"
          by (rule runs_publish [OF fn]) (use d1 w c' in auto)
        have "\<not> commit_ready p s d0" if "d1 (temporary_path p x) \<noteq> None"
          using that d1 fn by (auto simp: commit_ready_def)
        then show "runs flt ?I ((=) d1) (publish p (temporary_path p x) (wal_path p) w) (\<lambda>_ d. store_contents p d = c') ?E"
          by (intro runs_weaken [OF pw]) auto
        have "runs flt ?I (?E e) (ignoreIO (os_remove (temporary_path p x))) (\<lambda>_. ?E e) ?E" for e
          using contents_temporary [OF fn] by (intro runs_ignore runs_remove) auto
        then show "runs flt ?I (?E e) (bindIO (ignoreIO (os_remove (temporary_path p x))) (\<lambda>_. liftIO (Err e)))
            (\<lambda>_ d. store_contents p d = c') ?E" for e
          by (rule runs_bind) (rule runs_lift, auto)
      qed
      have tmp: "suffix p (''.wal.tmp-'' @ y) = Ok (temporary_path p y)" for y
        using fn by (simp add: suffix_def temporary_path_def)
      show ?thesis
        by (rule runs_bind_lift [OF g], rule runs_bind_lift [OF gen], rule runs_bind_lift [OF new], rule runs_bind_lift [OF w(1)], rule runs_fetch,
            rule runs_bind_lift [OF tmp], rule runs_bind_lift [OF suffix_paths(1) [OF fn]], rule pub)
    next
      case False
      have enc: "\<not> commit_ready p s d0" if "g + 1 < 2 ^ 64"
        using False that encode_pages_total [of s _ "g + 1"] unfolding commit_ready_def by blast
      have gen: "runs flt ?I ((=) d1) (liftIO (if g + 1 < 2 ^ 64 then Ok (g + 1) else Err exhausted))
          (\<lambda>x d. d1 = d \<and> x = g + 1 \<and> g + 1 < 2 ^ 64) ?E"
        using d1 g by (intro runs_lift) (auto simp: commit_ready_def split: if_splits)
      have encf: "runs flt ?I (\<lambda>d. d1 = d \<and> x = g + 1 \<and> g + 1 < 2 ^ 64) (liftIO (encode_pages s x)) (\<lambda>_ _. False) ?E" for x
        using d1 False enc by (intro runs_lift encode_pages_np) auto
      show ?thesis by (rule runs_bind_lift [OF g], rule runs_bind [OF gen], rule runs_bind [OF encf], rule runs_False)
    qed
  qed
  show ?thesis unfolding commit_def
    by (rule runs_bind_lift [OF l], simp only: not_True_eq_False if_False, rule runs_bind [OF s1], rule runs_bind [OF s2],
        rule runs_bind [OF s3 s4])
qed


section \<open>Properties\<close>

text \<open>
  A store at a path with a file name, and the lock that protects it, used to instantiate the
  properties.
\<close>

definition demo_path :: store_path where
  "demo_path = \<lparr>parent_dir = ''/db'', file_name = Some ''store.disp''\<rparr>"

definition demo_lock :: lock where
  "demo_lock = \<lparr>lock_path = \<lparr>parent_dir = ''/db'', file_name = Some ''store.disp.lock''\<rparr>\<rparr>"

definition demo_state :: "nat option list \<Rightarrow> io_state" where
  "demo_state fs = \<lparr>disk = (\<lambda>_. None), history = [], faults = fs, next_temporary = 0\<rparr>"

lemma demo_protects: "protects demo_lock demo_path = Ok True"
  by (simp add: protects_def suffix_def demo_path_def demo_lock_def)

lemma demo_ready: "commit_ready demo_path demo (disk (demo_state fs))" "store_contents demo_path (disk (demo_state fs)) = Ok snapshot_empty"
proof -
  obtain P where "encode_payload_with_constraints demo True = Ok P" "length P < 200" using demo_payload by blast
  then show "commit_ready demo_path demo (disk (demo_state fs))"
    by (auto simp: commit_ready_def store_contents_def demo_state_def MAX_PAGES_eq settled_image_def file_of_def
        current_generation_def)
  show "store_contents demo_path (disk (demo_state fs)) = Ok snapshot_empty" by (simp add: store_contents_def demo_state_def)
qed

lemma demo_faults: "faults (demo_state fs) = fs"
  by (simp add: demo_state_def)


lemma commit_ends:
  assumes "snapshot_admits 15 s" "flt \<or> faults st = []"
  shows "ends flt (\<lambda>d. store_contents p d = store_contents p (disk st) \<or> store_contents p d = Ok (sorted_snapshot s))
    (\<lambda>_ d. store_contents p d = Ok (sorted_snapshot s))
    (\<lambda>e d. (store_contents p d = store_contents p (disk st) \<or> store_contents p d = Ok (sorted_snapshot s))
       \<and> (flt \<or> protects l p \<noteq> Ok True \<or> \<not> commit_ready p s (disk st))) (history st) (commit pid p s l st)"
proof (cases "protects l p = Ok True")
  case True
  then obtain nm where fn: "file_name p = Some nm" using protects_name by blast
  show ?thesis by (rule ends_weaken [OF runsD [OF runs_commit [OF fn True assms(1) refl refl] _ assms(2)]]) auto
next
  case False
  have "no_panic (protects l p)" by simp
  then show ?thesis using False assms(2)
    by (cases "protects l p") (auto simp: commit_def bindIO_def liftIO_def ends_def)
qed

lemma commit_Ok:
  assumes "snapshot_admits 15 s" "protects l p = Ok True" "commit_ready p s (disk st)" "faults st = []"
  shows "fst (commit pid p s l st) = Ok ()"
  using commit_ends [of s False st p l pid] assms
  by (cases "commit pid p s l st"; cases "fst (commit pid p s l st)") (auto simp: ends_def)




text \<open>C4: a commit makes progress. When no call fails, the lock protects the store, the store is readable, the
  snapshot fits the page file, no temporary log was left behind and the 64-bit generation counter is
  not exhausted, the commit succeeds.\<close>

theorem commit_succeeds:
  assumes "snapshot_admits 15 s" "protects l p = Ok True" "commit_ready p s (disk st)" "faults st = []"
  shows "fst (commit pid p s l st) = Ok ()"
  using commit_Ok [OF assms] .

theorem commit_succeeds_witness:
  "commit_ready demo_path demo (disk (demo_state []))
    \<and> fst (commit 7 demo_path demo demo_lock (demo_state [])) = Ok ()"
  using commit_succeeds [OF demo_admits demo_protects demo_ready(1) demo_faults] demo_ready(1) by blast





text \<open>C24: every error that \<^verbatim>\<open>decode\<close> reports is of kind \<^verbatim>\<open>InvalidData\<close>, so that \<^verbatim>\<open>load\<close> never takes a damaged file for a
  missing one and falls back to the backup or to an empty store.\<close>

theorem decode_error_kind: "decode bs = Err e \<Longrightarrow> \<exists>m. e = InvalidData m"
  using only_invalid_decode [of bs] by (simp add: only_invalid_def)

theorem decode_error_kind_witness: "\<exists>m. decode [] = Err (InvalidData m)"
  using decode_error_kind [of "[]" "invalid ''DISP Data snapshot header is truncated''"] by (simp add: decode_def)

end
