(* ===== verification/DataStore.thy ===== *)
theory DataStore
  imports DataWal_Correct
begin

text \<open>
  The contract of the store over a whole history. \<open>store_step\<close> is the system: an operation of
  src/compiler/src/data_store.rs that returns, or a crash at any disk the operation passes through.
  \<open>abs_step\<close> is the promise: a register that holds one snapshot and changes atomically. The locale
  \<open>refined_register\<close> lifts a simulation of single steps to histories.
\<close>

section \<open>The system and its specification\<close>

datatype store_event = Committed snapshot | Attempted snapshot | Loaded snapshot | Unloaded


type_synonym store_value = "(io_error, snapshot) outcome"

inductive abs_step :: "store_value \<Rightarrow> store_event \<Rightarrow> store_value \<Rightarrow> bool" where
  "abs_step c (Committed s) (Ok (sorted_snapshot s))"
| "abs_step c (Attempted s) c"
| "abs_step c (Attempted s) (Ok (sorted_snapshot s))"
| "abs_step (Ok s) (Loaded s) (Ok s)"
| "abs_step c Unloaded c"

inductive_simps abs_step_simps [simp]:
  "abs_step c (Committed s) c'" "abs_step c (Attempted s) c'" "abs_step c (Loaded s) c'" "abs_step c Unloaded c'"

text \<open>A history: the events of a sequence of steps.\<close>

inductive trace_of :: "('s \<Rightarrow> 'e \<Rightarrow> 's \<Rightarrow> bool) \<Rightarrow> 's \<Rightarrow> 'e list \<Rightarrow> 's \<Rightarrow> bool" for step where
  trace_nil: "trace_of step x [] x"
| trace_cons: "step x e y \<Longrightarrow> trace_of step y es z \<Longrightarrow> trace_of step x (e # es) z"

inductive_simps trace_of_simps [simp]: "trace_of step x [] z" "trace_of step x (e # es) z"


section \<open>Refinement\<close>






section \<open>Properties\<close>








end
