(* ===== verification/Ast.thy ===== *)
theory Ast
  imports Diagnostics
begin

text \<open>
  The syntax trees of src/compiler/src/ast.rs. Structs are records where they are not part of the
  recursion and one-constructor datatypes where they are; the recursive types of statements, match
  arms and closure bodies take the type of expressions as a parameter, and \<open>expression\<close> ties the
  knot. A \<^verbatim>\<open>u128\<close> literal is a \<^typ>\<open>nat\<close>, an \<^verbatim>\<open>f64\<close> its bit pattern.
\<close>

section \<open>Types and patterns\<close>

datatype 'a spanned = Spanned (node: 'a) (sp: span)

datatype type_qualifier = Owned | SharedReference | MutableReference | RawConstPointer | RawMutPointer

datatype type_name =
  TypeName (ty_name: string) (ty_arguments: "type_name list") (ty_qualifier: type_qualifier) (ty_span: span)

record parameter =
  param_name :: string
  param_span :: span
  param_ty :: type_name

record generic_parameter =
  generic_name :: string
  generic_span :: span
  generic_constraints :: "type_name list"

datatype 'p struct_pattern_field = StructPatternField (pf_name: string) (pf_span: span) (pf_pattern: "'p spanned")

datatype pattern =
    P_Wildcard
  | P_Binding string
  | P_Integer nat
  | P_NegativeInteger nat
  | P_String string
  | P_Character uchar
  | P_Bool bool
  | P_Or "pattern spanned list"
  | P_Struct string "pattern struct_pattern_field list" bool
  | P_Variant "string option" string "pattern spanned list"

section \<open>Capabilities and operators\<close>

datatype capability = FileSystem | Network | Process | Foreign | RawMemory | DeviceIo | Timer | Random | Gpu | Ui

definition capability_ALL :: "capability list" where
  "capability_ALL = [FileSystem, Network, Process, Foreign, RawMemory, DeviceIo, Timer, Random, Gpu, Ui]"

fun capability_name :: "capability \<Rightarrow> string" where
  "capability_name FileSystem = ''FileSystem''"
| "capability_name Network = ''Network''"
| "capability_name Process = ''Process''"
| "capability_name Foreign = ''Foreign''"
| "capability_name RawMemory = ''RawMemory''"
| "capability_name DeviceIo = ''DeviceIo''"
| "capability_name Timer = ''Timer''"
| "capability_name Random = ''Random''"
| "capability_name Gpu = ''Gpu''"
| "capability_name Ui = ''Ui''"

definition capability_from_name :: "string \<Rightarrow> capability option" where
  "capability_from_name n = find (\<lambda>c. capability_name c = n) capability_ALL"

record capability_use =
  use_capability :: capability
  use_span :: span

datatype binding_kind = BK_Let | BK_Var | BK_Const

datatype assignment_operator = A_Assign | A_Add | A_Subtract | A_Multiply | A_Divide

datatype unary_operator = U_Negate | U_Not

datatype binary_operator =
    B_Add | B_Subtract | B_Multiply | B_Divide | B_Remainder | B_Equal | B_NotEqual | B_Less
  | B_LessEqual | B_Greater | B_GreaterEqual | B_And | B_Or

datatype data_query_kind = Q_Rows | Q_Count | Q_Exists | Q_Sum | Q_Average | Q_Min | Q_Max

fun data_query_name :: "data_query_kind \<Rightarrow> string" where
  "data_query_name Q_Rows = ''find''"
| "data_query_name Q_Count = ''count''"
| "data_query_name Q_Exists = ''exists''"
| "data_query_name Q_Sum = ''sum''"
| "data_query_name Q_Average = ''average''"
| "data_query_name Q_Min = ''min''"
| "data_query_name Q_Max = ''max''"

section \<open>Statements and expressions\<close>

datatype 's block_of = Block (statements: "'s spanned list") (block_span: span)

datatype 'e statement_of =
    S_Binding binding_kind string span "type_name option" "'e spanned option"
  | S_Assignment string span assignment_operator "'e spanned"
  | S_PlaceAssignment "'e spanned" assignment_operator "'e spanned"
  | S_Expression "'e spanned"
  | S_Return "'e spanned option"
  | S_If "'e spanned" "'e statement_of block_of" "'e statement_of block_of option"
  | S_While "'e spanned" "'e statement_of block_of"
  | S_For string span "'e spanned" "'e spanned" bool "'e statement_of block_of"
  | S_ForEach string span "'e spanned" "'e statement_of block_of"
  | S_Loop "'e statement_of block_of"
  | S_Unsafe "capability_use list option" "'e statement_of block_of"
  | S_Break
  | S_Continue

datatype 'e match_arm_of =
  MatchArm (arm_pattern: "pattern spanned") (arm_group: "nat option") (arm_guard: "'e spanned option")
    (arm_value: "'e spanned") (arm_span: span)

datatype 'e data_order_of = DataOrder (order_key: "'e spanned") (order_descending: bool) (order_span: span)

datatype 'e closure_body_of = CB_Expression "'e spanned" | CB_Block "'e statement_of block_of"

datatype 'e struct_field_value_of = StructFieldValue (fv_name: string) (fv_span: span) (fv_value: "'e spanned")

datatype expression =
    E_Array "expression spanned list"
  | E_Integer nat
  | E_Float f64
  | E_String string
  | E_Character uchar
  | E_Bool bool
  | E_DataStore "expression spanned option"
  | E_DataWrite "expression spanned" "expression spanned" bool
  | E_DataQuery data_query_kind string span "expression spanned option" "expression spanned"
      "expression spanned option" "expression data_order_of option" "expression spanned option"
  | E_DataRemove string span "expression spanned" "expression spanned"
  | E_Closure bool "parameter list" "type_name option" "expression closure_body_of"
  | E_Identifier string
  | E_StructConstruct string span "expression struct_field_value_of list"
  | E_FieldAccess "expression spanned" string span
  | E_Index "expression spanned" "expression spanned"
  | E_Subslice "expression spanned" "expression spanned" "expression spanned"
  | E_Match "expression spanned" "expression match_arm_of list"
  | E_Try "expression spanned"
  | E_Await "expression spanned"
  | E_Spawn "expression spanned"
  | E_Move "expression spanned"
  | E_Borrow bool "expression spanned"
  | E_Dereference "expression spanned"
  | E_Unary unary_operator "expression spanned"
  | E_Binary "expression spanned" binary_operator "expression spanned"
  | E_Call "expression spanned" "expression spanned list"

type_synonym expr = "expression spanned"
type_synonym statement = "expression statement_of"
type_synonym stmt = "statement spanned"
type_synonym block = "statement block_of"
type_synonym match_arm = "expression match_arm_of"
type_synonym data_order = "expression data_order_of"
type_synonym closure_body = "expression closure_body_of"
type_synonym struct_field_value = "expression struct_field_value_of"

section \<open>Declarations\<close>

record module_declaration =
  module_path :: "string spanned list"
  module_span :: span

record import_item =
  item_name :: string
  item_name_span :: span
  item_alias :: string
  item_alias_span :: span
  item_span :: span

record import_declaration =
  import_path :: "string spanned list"
  import_items :: "import_item list option"
  import_public :: bool
  import_span :: span

record field_declaration =
  fd_name :: string
  fd_name_span :: span
  fd_ty :: type_name
  fd_primary :: bool
  fd_unique :: bool
  fd_indexed :: bool
  fd_migration_from :: "string spanned option"
  fd_migration_default :: "expr option"

datatype data_constraint_kind = UniqueConstraint | IndexConstraint

record data_constraint_declaration =
  dc_name :: string
  dc_name_span :: span
  dc_kind :: data_constraint_kind
  dc_fields :: "string spanned list"
  dc_span :: span

record struct_declaration =
  struct_name :: string
  struct_name_span :: span
  struct_data :: bool
  struct_c_abi :: bool
  struct_generics :: "generic_parameter list"
  struct_fields :: "field_declaration list"
  struct_constraints :: "data_constraint_declaration list"
  struct_span :: span

record variant_declaration =
  variant_name :: string
  variant_span :: span
  variant_payload :: "type_name list"

record enum_declaration =
  enum_name :: string
  enum_name_span :: span
  enum_generics :: "generic_parameter list"
  enum_variants :: "variant_declaration list"
  enum_span :: span

datatype external_abi = AbiC

record external_function =
  external_abi :: external_abi
  external_library :: "string option"
  external_link_name :: string

record function_decl =
  fn_asynchronous :: bool
  fn_name :: string
  fn_name_span :: span
  fn_generics :: "generic_parameter list"
  fn_parameters :: "parameter list"
  fn_return_type :: "type_name option"
  fn_capabilities :: "capability_use list option"
  fn_body :: block
  fn_external :: "external_function option"
  fn_exported :: bool
  fn_span :: span

record function_signature =
  sig_asynchronous :: bool
  sig_name :: string
  sig_name_span :: span
  sig_generics :: "generic_parameter list"
  sig_parameters :: "parameter list"
  sig_return_type :: "type_name option"
  sig_capabilities :: "capability_use list option"
  sig_span :: span

record trait_declaration =
  trait_name :: string
  trait_name_span :: span
  trait_generics :: "generic_parameter list"
  trait_associated :: "(string \<times> span) list"
  trait_methods :: "function_signature list"
  trait_span :: span

record impl_declaration =
  impl_generics :: "generic_parameter list"
  impl_trait :: "type_name option"
  impl_target :: type_name
  impl_associated :: "(string \<times> type_name \<times> span) list"
  impl_methods :: "function_decl list"
  impl_span :: span

record program =
  source_files :: "source_file list"
  prog_module :: "module_declaration option"
  prog_imports :: "import_declaration list"
  public_items :: "string spanned list"
  prog_structs :: "struct_declaration list"
  prog_enums :: "enum_declaration list"
  prog_traits :: "trait_declaration list"
  implementations :: "impl_declaration list"
  prog_functions :: "function_decl list"

section \<open>Sizes\<close>

text \<open>The size of a node is at most that of the list or struct that holds it; termination proofs use it.\<close>

lemma size_node_le: "f (node x) \<le> size_spanned f x"
  by (cases x) simp

lemma size_node: "x \<in> set xs \<Longrightarrow> f (node x) \<le> size_list (size_spanned f) xs"
  by (erule size_list_estimation') (rule size_node_le)

lemma size_pf_pattern: "x \<in> set xs \<Longrightarrow> f (node (pf_pattern x)) \<le> size_list (size_struct_pattern_field f) xs"
  by (erule size_list_estimation', cases x, cases "pf_pattern x") simp

lemma node_map [simp]: "node (map_spanned f e) = f (node e)"
  by (cases e) simp

end
