(* ===== verification/Parser.thy ===== *)
theory Parser
  imports Lexer Ast
begin

text \<open>
  \<^verbatim>\<open>compiler/src/parser.rs\<close>: the parser state and every method of \<^verbatim>\<open>Parser\<close>. A method is a function of
  the state that gives a value and the new state, a diagnostic, or a panic. No method catches an
  error, so the state after one is not kept.

  The methods call each other in cycles. The members of \<open>grammar\<close> are the calls that close a cycle
  (types, patterns, expressions, unary expressions, blocks and \<^verbatim>\<open>else if\<close>); every method takes the
  grammar and calls the others directly. \<open>grammar_of\<close> ties the knot to a given depth, and runs out
  as a panic. The loops run at most \<open>g_fuel\<close> rounds, and run out as a panic too. Theory
  \<open>Parser_Correct\<close> shows that a depth linear in the number of tokens never runs out.
\<close>

section \<open>The parser state\<close>

record parser =
  p_tokens :: "token list"
  p_current :: nat
  recursion_depth :: nat
  suppress_try :: bool

type_synonym 'a parse = "parser \<Rightarrow> (diagnostic, 'a \<times> parser) outcome"

definition bindP :: "'a parse \<Rightarrow> ('a \<Rightarrow> 'b parse) \<Rightarrow> 'b parse" where
  "bindP m f st = bindO (m st) (\<lambda>(x, st'). f x st')"

definition returnP :: "'a \<Rightarrow> 'a parse" where
  "returnP x st = Ok (x, st)"

definition failP :: "diagnostic \<Rightarrow> 'a parse" where
  "failP d st = Err d"

definition panicP :: "'a parse" where
  "panicP st = Panic"

text \<open>A loop of at most \<open>n\<close> rounds; a round gives the new state and whether to go on.\<close>

primrec loopP :: "nat \<Rightarrow> ('s \<Rightarrow> ('s \<times> bool) parse) \<Rightarrow> 's \<Rightarrow> 's parse" where
  "loopP 0 body s = panicP"
| "loopP (Suc n) body s =
     bindP (body s) (\<lambda>(s', again). if again then loopP n body s' else returnP s')"

abbreviation kw :: "keyword \<Rightarrow> token_kind" where "kw \<equiv> TkKeyword"
abbreviation tk :: "symbol \<Rightarrow> token_kind" where "tk \<equiv> TkSymbol"

definition MAX_EXPRESSION_DEPTH :: nat where "MAX_EXPRESSION_DEPTH = 32"
definition MAX_OPERATOR_CHAIN :: nat where "MAX_OPERATOR_CHAIN = 256"
definition MAX_CALL_CHAIN :: nat where "MAX_CALL_CHAIN = 256"

text \<open>
  What the parser takes from the standard library: the text \<^verbatim>\<open>{:?}\<close> gives a token kind, which only
  appears in messages, and \<^verbatim>\<open>char::is_uppercase\<close>.
\<close>

record parse_env =
  debug_kind :: "token_kind \<Rightarrow> string"
  is_uppercase :: "uchar \<Rightarrow> bool"

record grammar =
  g_env :: parse_env
  g_fuel :: nat
  g_type_name :: "type_name parse"
  g_pattern :: "pattern spanned parse"
  g_expression :: "expr parse"
  g_unary :: "expr parse"
  g_block :: "block parse"
  g_if :: "stmt parse"

definition Parser_new :: "token list \<Rightarrow> parser" where
  "Parser_new ts =
     \<lparr>p_tokens = (if ts = [] then [\<lparr>token_kind = TkEof, token_span = Span_point 1 1\<rparr>] else ts),
       p_current = 0, recursion_depth = 0, suppress_try = False\<rparr>"

section \<open>Token access\<close>

fun same_variant :: "token_kind \<Rightarrow> token_kind \<Rightarrow> bool" where
  "same_variant (TkKeyword a) (TkKeyword b) = (a = b)"
| "same_variant (TkSymbol a) (TkSymbol b) = (a = b)"
| "same_variant (TkIdentifier _) (TkIdentifier _) = True"
| "same_variant (TkInteger _) (TkInteger _) = True"
| "same_variant (TkFloat _) (TkFloat _) = True"
| "same_variant (TkString _) (TkString _) = True"
| "same_variant (TkCharacter _) (TkCharacter _) = True"
| "same_variant TkEof TkEof = True"
| "same_variant _ _ = False"

fun is_assignment :: "token_kind \<Rightarrow> bool" where
  "is_assignment (TkSymbol s) = (s \<in> {TkEqual, TkPlusEqual, TkMinusEqual, TkStarEqual, TkSlashEqual})"
| "is_assignment _ = False"

definition is_type_style :: "parse_env \<Rightarrow> string \<Rightarrow> bool" where
  "is_type_style env name =
     (case utf8_chars (map of_char name) of Some (c # _) \<Rightarrow> is_uppercase env c | _ \<Rightarrow> False)"

definition peek_token :: "token parse" where
  "peek_token st =
     bindO (index_at (p_tokens st) (min (p_current st) (length (p_tokens st) - 1))) (\<lambda>t. Ok (t, st))"

definition previous :: "token parse" where
  "previous st = bindO (index_at (p_tokens st) (p_current st - 1)) (\<lambda>t. Ok (t, st))"

definition advance_token :: "token parse" where
  "advance_token =
     bindP peek_token (\<lambda>t st. Ok (t, if token_kind t = TkEof then st else st\<lparr>p_current := p_current st + 1\<rparr>))"

definition check :: "token_kind \<Rightarrow> bool parse" where
  "check expected = bindP peek_token (\<lambda>t. returnP (same_variant (token_kind t) expected))"

definition check_next :: "token_kind \<Rightarrow> bool parse" where
  "check_next expected st =
     bindO (index_at (p_tokens st) (min (p_current st + 1) (length (p_tokens st) - 1))) (\<lambda>t.
       Ok (same_variant (token_kind t) expected, st))"

definition check_identifier :: "string \<Rightarrow> bool parse" where
  "check_identifier expected = bindP peek_token (\<lambda>t. returnP (token_kind t = TkIdentifier expected))"

definition match_token :: "token_kind \<Rightarrow> bool parse" where
  "match_token expected =
     bindP (check expected) (\<lambda>b. if \<not> b then returnP False else bindP advance_token (\<lambda>_. returnP True))"

definition matches_any :: "token_kind list \<Rightarrow> bool parse" where
  "matches_any expected = bindP peek_token (\<lambda>t. returnP (list_ex (same_variant (token_kind t)) expected))"

text \<open>\<^verbatim>\<open>self.tokens.get(self.current + k).map(|token| &token.kind)\<close>.\<close>

definition kind_at :: "nat \<Rightarrow> parser \<Rightarrow> token_kind option" where
  "kind_at k st =
     (if p_current st + k < length (p_tokens st) then Some (token_kind (p_tokens st ! (p_current st + k))) else None)"

definition parse_error :: "string \<Rightarrow> span \<Rightarrow> 'a parse" where
  "parse_error m s = failP (Diagnostic_new Parse m s)"

definition error_help :: "string \<Rightarrow> span \<Rightarrow> string \<Rightarrow> 'a parse" where
  "error_help m s h = failP (with_help (Diagnostic_new Parse m s) h)"

definition expect :: "grammar \<Rightarrow> token_kind \<Rightarrow> string \<Rightarrow> token parse" where
  "expect g expected message =
     bindP (check expected) (\<lambda>b.
       if b then advance_token
       else bindP peek_token (\<lambda>t.
         parse_error (message @ ''; found '' @ debug_kind (g_env g) (token_kind t)) (token_span t)))"

definition expect_identifier :: "grammar \<Rightarrow> string \<Rightarrow> (string \<times> span) parse" where
  "expect_identifier g message =
     bindP advance_token (\<lambda>t.
       case token_kind t of
         TkIdentifier name \<Rightarrow> returnP (name, token_span t)
       | found \<Rightarrow> parse_error (message @ ''; found '' @ debug_kind (g_env g) found) (token_span t))"

text \<open>
  \<^verbatim>\<open>expect_type_close\<close> takes one \<^verbatim>\<open>>\<close> off a \<^verbatim>\<open>>>\<close>: the token is replaced by its second half and the first
  half is returned without advancing.
\<close>

definition split_shift :: "token parse" where
  "split_shift =
     bindP peek_token (\<lambda>t st.
       let s = token_span t; middle = Position (line (span_start s)) (column (span_start s) + 1) in
       if p_current st < length (p_tokens st)
       then Ok (\<lparr>token_kind = tk TkGreater, token_span = Span_new (span_start s) middle\<rparr>,
              st\<lparr>p_tokens := (p_tokens st)[p_current st :=
                \<lparr>token_kind = tk TkGreater, token_span = Span_new middle (span_end s)\<rparr>]\<rparr>)
       else Panic)"

definition expect_type_close :: "grammar \<Rightarrow> token parse" where
  "expect_type_close g =
     bindP (check (tk TkGreater)) (\<lambda>b.
       if b then advance_token
       else bindP (check (tk TkShiftRight)) (\<lambda>s.
         if s then split_shift else expect g (tk TkGreater) ''expected `>` after type arguments''))"

definition with_recursion :: "'a parse \<Rightarrow> 'a parse" where
  "with_recursion parse st =
     (if recursion_depth st \<ge> MAX_EXPRESSION_DEPTH
      then bindP peek_token (\<lambda>t.
        parse_error (''expression nesting exceeds the limit of '' @ show_nat MAX_EXPRESSION_DEPTH) (token_span t)) st
      else bindO (parse (st\<lparr>recursion_depth := recursion_depth st + 1\<rparr>)) (\<lambda>(x, st').
        if recursion_depth st' = 0 then Panic
        else Ok (x, st'\<lparr>recursion_depth := recursion_depth st' - 1\<rparr>)))"

section \<open>The loops of the grammar\<close>

text \<open>\<^verbatim>\<open>loop { items.push(item()?); if !self.match_token(sep) { break } }\<close>.\<close>

definition sep_by :: "grammar \<Rightarrow> 'a parse \<Rightarrow> symbol \<Rightarrow> 'a list parse" where
  "sep_by g item sep =
     loopP (g_fuel g) (\<lambda>xs. bindP item (\<lambda>x. bindP (match_token (tk sep)) (\<lambda>m. returnP (xs @ [x], m)))) []"

text \<open>The same loop inside \<^verbatim>\<open>if !self.check(close)\<close>.\<close>

definition sep_list :: "grammar \<Rightarrow> 'a parse \<Rightarrow> symbol \<Rightarrow> symbol \<Rightarrow> 'a list parse" where
  "sep_list g item sep close =
     bindP (check (tk close)) (\<lambda>b. if b then returnP [] else sep_by g item sep)"

text \<open>\<^verbatim>\<open>while !self.check(RightBrace) && !self.check(Eof) { .. }\<close>.\<close>

definition until_brace :: "grammar \<Rightarrow> ('s \<Rightarrow> 's parse) \<Rightarrow> 's \<Rightarrow> 's parse" where
  "until_brace g body =
     loopP (g_fuel g) (\<lambda>s.
       bindP (check (tk TkRightBrace)) (\<lambda>b.
       bindP (check TkEof) (\<lambda>e.
       if b \<or> e then returnP (s, False) else bindP (body s) (\<lambda>s'. returnP (s', True)))))"

section \<open>Type names\<close>

definition with_qualifier :: "type_name \<Rightarrow> type_qualifier \<Rightarrow> span \<Rightarrow> type_name" where
  "with_qualifier ty q s = TypeName (ty_name ty) (ty_arguments ty) q s"

text \<open>The rest of \<^verbatim>\<open>parse_type_name\<close> after \<^verbatim>\<open>fn\<close>, after \<^verbatim>\<open>[\<close>, after \<^verbatim>\<open>&\<close>, and at a name.\<close>

definition parse_function_type :: "grammar \<Rightarrow> type_name parse" where
  "parse_function_type g =
     bindP previous (\<lambda>start.
     bindP (expect g (tk TkLeftParen) ''expected `(` after `fn` in function type'') (\<lambda>_.
     bindP (sep_list g (g_type_name g) TkComma TkRightParen) (\<lambda>arguments.
     bindP (expect g (tk TkRightParen) ''expected `)` after function parameters'') (\<lambda>_.
     bindP (expect g (tk TkArrow) ''expected `->` in function type'') (\<lambda>_.
     bindP (g_type_name g) (\<lambda>result.
     returnP (TypeName ''fn'' (arguments @ [result]) Owned (Span_through (token_span start) (ty_span result)))))))))"

definition parse_array_type :: "grammar \<Rightarrow> type_name parse" where
  "parse_array_type g =
     bindP previous (\<lambda>start.
     bindP (g_type_name g) (\<lambda>element.
     bindP (match_token (tk TkRightBracket)) (\<lambda>slice.
     if slice then bindP previous (\<lambda>end.
       returnP (TypeName ''[]'' [element] Owned (Span_through (token_span start) (token_span end))))
     else
       bindP (expect g (tk TkSemicolon) ''expected `;` before array length'') (\<lambda>_.
       bindP advance_token (\<lambda>t.
       case token_kind t of
         TkInteger v \<Rightarrow>
           if v > USIZE_MAX then parse_error ''array length is too large'' (token_span t)
           else bindP (expect g (tk TkRightBracket) ''expected `]` after array type'') (\<lambda>end.
             returnP (TypeName (''[;'' @ show_nat v @ '']'') [element] Owned
               (Span_through (token_span start) (token_span end))))
       | _ \<Rightarrow> parse_error ''expected constant array length'' (token_span t))))))"

definition parse_reference_type :: "grammar \<Rightarrow> type_name parse" where
  "parse_reference_type g =
     bindP previous (\<lambda>start.
     bindP (match_token (kw TkMut)) (\<lambda>mutable.
     bindP (g_type_name g) (\<lambda>ty.
     returnP (with_qualifier ty (if mutable then MutableReference else SharedReference)
       (Span_through (token_span start) (ty_span ty))))))"

definition parse_named_type :: "grammar \<Rightarrow> type_name parse" where
  "parse_named_type g =
     bindP (match_token (kw TkMut)) (\<lambda>raw_mut.
     bindP (expect_identifier g ''expected type name'') (\<lambda>(first, start).
     bindP (match_token (tk TkDot)) (\<lambda>dot.
     bindP
       (if \<not> dot then returnP (first, start)
        else if first \<noteq> ''Self''
        then parse_error ''Candidate 1 associated type projections must start with `Self`'' start
        else bindP (expect_identifier g ''expected associated type name after `Self.`'') (\<lambda>(associated, s).
          returnP (first @ ''.'' @ associated, s))) (\<lambda>(name, end1).
     bindP (match_token (tk TkLess)) (\<lambda>less.
     bindP
       (if \<not> less then returnP ([], end1)
        else if CHR ''.'' \<in> set name
        then parse_error ''associated type projections cannot take type arguments'' end1
        else bindP (sep_by g (g_type_name g) TkComma) (\<lambda>arguments.
          bindP (expect_type_close g) (\<lambda>t. returnP (arguments, token_span t)))) (\<lambda>(arguments, end2).
     if raw_mut \<and> name \<noteq> ''ptr''
     then parse_error ''`mut` in a type is only valid as `mut ptr<T>`'' start
     else returnP (TypeName name arguments
       (if raw_mut then RawMutPointer else if name = ''ptr'' then RawConstPointer else Owned)
       (Span_through start end2))))))))"

definition parse_type_name :: "grammar \<Rightarrow> type_name parse" where
  "parse_type_name g =
     bindP (match_token (kw TkFn)) (\<lambda>b. if b then parse_function_type g else
     bindP (match_token (tk TkLeftBracket)) (\<lambda>b. if b then parse_array_type g else
     bindP (match_token (tk TkAnd)) (\<lambda>b. if b then parse_reference_type g else
     parse_named_type g)))"

section \<open>Parameters and capabilities\<close>

definition parse_generic_parameter :: "grammar \<Rightarrow> generic_parameter parse" where
  "parse_generic_parameter g =
     bindP (expect_identifier g ''expected generic parameter'') (\<lambda>(name, name_span).
     bindP (match_token (tk TkColon)) (\<lambda>b.
     bindP (if b then sep_by g (parse_type_name g) TkPlus else returnP []) (\<lambda>cs.
     returnP \<lparr>generic_name = name, generic_span = name_span, generic_constraints = cs\<rparr>)))"

definition parse_generic_parameters :: "grammar \<Rightarrow> generic_parameter list parse" where
  "parse_generic_parameters g =
     bindP (match_token (tk TkLess)) (\<lambda>b.
     if \<not> b then returnP []
     else bindP (sep_by g (parse_generic_parameter g) TkComma) (\<lambda>parameters.
       bindP (expect g (tk TkGreater) ''expected `>` after generic parameters'') (\<lambda>_. returnP parameters)))"

text \<open>One round of the loop of \<^verbatim>\<open>parse_parameters\<close>, before its \<^verbatim>\<open>match_token(Comma)\<close>.\<close>

definition parse_parameter :: "grammar \<Rightarrow> parameter parse" where
  "parse_parameter g =
     bindP (match_token (tk TkAnd)) (\<lambda>reference.
     if reference then
       bindP previous (\<lambda>start.
       bindP (match_token (kw TkMut)) (\<lambda>mutable.
       bindP (expect_identifier g ''expected `self` after receiver `&`'') (\<lambda>(receiver, name_span).
       if receiver \<noteq> ''self''
       then parse_error ''receiver shorthand must be `&self` or `&mut self`'' name_span
       else returnP \<lparr>param_name = receiver, param_span = name_span,
         param_ty = TypeName ''Self'' [] (if mutable then MutableReference else SharedReference)
           (Span_through (token_span start) name_span)\<rparr>)))
     else
       bindP (expect_identifier g ''expected parameter name'') (\<lambda>(name, name_span).
       bindP (check (tk TkColon)) (\<lambda>colon.
       if name = ''self'' \<and> \<not> colon
       then returnP \<lparr>param_name = name, param_span = name_span, param_ty = TypeName ''Self'' [] Owned name_span\<rparr>
       else bindP (expect g (tk TkColon) ''expected `:` after parameter name'') (\<lambda>_.
         bindP (parse_type_name g) (\<lambda>ty.
         returnP \<lparr>param_name = name, param_span = name_span, param_ty = ty\<rparr>)))))"

definition parse_parameters :: "grammar \<Rightarrow> parameter list parse" where
  "parse_parameters g =
     bindP (expect g (tk TkLeftParen) ''expected `(`'') (\<lambda>_.
     bindP (sep_list g (parse_parameter g) TkComma TkRightParen) (\<lambda>parameters.
     bindP (expect g (tk TkRightParen) ''expected `)` after parameters'') (\<lambda>_. returnP parameters)))"

text \<open>The \<^verbatim>\<open>while let\<close> loop of \<^verbatim>\<open>parse_capabilities\<close>: the uses so far and the name to look up next.\<close>

definition parse_capability ::
  "grammar \<Rightarrow> capability_use list \<times> string \<times> span \<Rightarrow> ((capability_use list \<times> string \<times> span) \<times> bool) parse" where
  "parse_capability g = (\<lambda>(uses, name, s).
     case capability_from_name name of
       None \<Rightarrow> error_help (''unknown capability `'' @ name @ ''`'') s
         ''use `FileSystem`, `Network`, `Process`, `Foreign`, `RawMemory`, `DeviceIo`, `Timer`, `Random`, `Gpu`, `Ui`, or `Pure`''
     | Some capability \<Rightarrow>
         if list_ex (\<lambda>u. use_capability u = capability) uses
         then parse_error (''duplicate capability `'' @ name @ ''`'') s
         else
           (let uses' = uses @ [\<lparr>use_capability = capability, use_span = s\<rparr>] in
            bindP (match_token (tk TkComma)) (\<lambda>b.
            if b then bindP (expect_identifier g ''expected capability after `,`'') (\<lambda>n. returnP ((uses', n), True))
            else returnP ((uses', name, s), False))))"

definition parse_capabilities :: "grammar \<Rightarrow> capability_use list option parse" where
  "parse_capabilities g =
     bindP peek_token (\<lambda>t.
     if token_kind t \<noteq> TkIdentifier ''uses'' then returnP None
     else bindP advance_token (\<lambda>u.
       bindP (expect_identifier g ''expected `Pure` or a capability after `uses`'') (\<lambda>(first, first_span).
       if first = ''Pure''
       then bindP (match_token (tk TkComma)) (\<lambda>b.
         if b then bindP previous (\<lambda>c.
           parse_error ''`Pure` cannot be combined with capabilities'' (Span_through (token_span u) (token_span c)))
         else returnP (Some []))
       else bindP (loopP (g_fuel g) (parse_capability g) ([], first, first_span)) (\<lambda>(uses, _).
         returnP (Some uses)))))"

section \<open>Patterns\<close>

text \<open>One round of the loop over the fields of a struct pattern: the fields, \<^verbatim>\<open>rest\<close>, and whether to go on.\<close>

definition parse_pattern_field ::
  "grammar \<Rightarrow> pattern struct_pattern_field list \<times> bool
     \<Rightarrow> ((pattern struct_pattern_field list \<times> bool) \<times> bool) parse" where
  "parse_pattern_field g = (\<lambda>(fields, rest).
     bindP (check (tk TkRightBrace)) (\<lambda>close.
     if close then returnP ((fields, rest), False)
     else bindP (match_token (tk TkRange)) (\<lambda>range.
     if range then bindP (match_token (tk TkComma)) (\<lambda>_. returnP ((fields, True), False))
     else bindP (expect_identifier g ''expected field in struct pattern'') (\<lambda>(name, name_span).
     bindP (match_token (tk TkColon)) (\<lambda>colon.
     bindP (if colon then g_pattern g else returnP (Spanned (P_Binding name) name_span)) (\<lambda>p.
     bindP (match_token (tk TkComma)) (\<lambda>comma.
     returnP ((fields @ [StructPatternField name name_span p], rest), comma))))))))"

definition parse_struct_pattern :: "grammar \<Rightarrow> string \<Rightarrow> span \<Rightarrow> pattern spanned parse" where
  "parse_struct_pattern g name start =
     bindP (loopP (g_fuel g) (parse_pattern_field g) ([], False)) (\<lambda>(fields, rest).
     bindP (expect g (tk TkRightBrace) ''expected `}` after struct pattern'') (\<lambda>end.
     returnP (Spanned (P_Struct name fields rest) (Span_through start (token_span end)))))"

definition parse_variant_pattern :: "grammar \<Rightarrow> string \<Rightarrow> span \<Rightarrow> pattern spanned parse" where
  "parse_variant_pattern g name start =
     bindP (match_token (tk TkDot)) (\<lambda>dot.
     bindP
       (if dot then bindP (expect_identifier g ''expected variant after `.`'') (\<lambda>(variant, _). returnP (Some name, variant))
        else returnP (None, name)) (\<lambda>(type_name, variant).
     bindP previous (\<lambda>prev.
     bindP (match_token (tk TkLeftParen)) (\<lambda>paren.
     bindP
       (if paren
        then bindP (sep_list g (g_pattern g) TkComma TkRightParen) (\<lambda>arguments.
          bindP (expect g (tk TkRightParen) ''expected `)` after variant pattern'') (\<lambda>end.
          returnP (arguments, token_span end)))
        else returnP ([], token_span prev)) (\<lambda>(arguments, end).
     returnP (Spanned (P_Variant type_name variant arguments) (Span_through start end)))))))"

definition parse_pattern_atom :: "grammar \<Rightarrow> pattern spanned parse" where
  "parse_pattern_atom g =
     bindP advance_token (\<lambda>t.
     let start = token_span t in
     case token_kind t of
       TkSymbol TkMinus \<Rightarrow>
         bindP advance_token (\<lambda>magnitude.
         case token_kind magnitude of
           TkInteger v \<Rightarrow> returnP (Spanned (P_NegativeInteger v) (Span_through start (token_span magnitude)))
         | _ \<Rightarrow> parse_error ''expected integer literal after `-` in pattern'' (token_span magnitude))
     | TkInteger v \<Rightarrow> returnP (Spanned (P_Integer v) start)
     | TkString v \<Rightarrow> returnP (Spanned (P_String v) start)
     | TkCharacter v \<Rightarrow> returnP (Spanned (P_Character v) start)
     | TkKeyword TkTrue \<Rightarrow> returnP (Spanned (P_Bool True) start)
     | TkKeyword TkFalse \<Rightarrow> returnP (Spanned (P_Bool False) start)
     | TkIdentifier name \<Rightarrow>
         if name = ''_'' then returnP (Spanned P_Wildcard start)
         else if is_type_style (g_env g) name
         then bindP (match_token (tk TkLeftBrace)) (\<lambda>brace.
           if brace then parse_struct_pattern g name start else parse_variant_pattern g name start)
         else returnP (Spanned (P_Binding name) start)
     | found \<Rightarrow> parse_error (''expected pattern, found '' @ debug_kind (g_env g) found) start)"

definition parse_pattern :: "grammar \<Rightarrow> pattern spanned parse" where
  "parse_pattern g =
     bindP (parse_pattern_atom g) (\<lambda>first.
     bindP (match_token (tk TkOr)) (\<lambda>b.
     if \<not> b then returnP first
     else bindP (sep_by g (parse_pattern_atom g) TkOr) (\<lambda>rest.
       let alternatives = first # rest in
       returnP (Spanned (P_Or alternatives) (Span_through (sp first) (sp (last alternatives)))))))"

section \<open>Primary expressions\<close>

fun is_identifier :: "token_kind option \<Rightarrow> bool" where
  "is_identifier (Some (TkIdentifier _)) = True"
| "is_identifier _ = False"

definition looks_like_struct_construct :: "bool parse" where
  "looks_like_struct_construct =
     bindP (check (tk TkLeftBrace)) (\<lambda>b st. Ok
       (b \<and> (kind_at 1 st = Some (tk TkRightBrace)
          \<or> is_identifier (kind_at 1 st) \<and> kind_at 2 st \<in> {Some (tk TkColon), Some (tk TkComma), Some (tk TkRightBrace)}), st))"

definition parse_data_part :: "grammar \<Rightarrow> expr parse" where
  "parse_data_part g st =
     bindO (g_expression g (st\<lparr>suppress_try := True\<rparr>)) (\<lambda>(e, st'). Ok (e, st'\<lparr>suppress_try := suppress_try st\<rparr>))"

definition match_data_word :: "string \<Rightarrow> bool parse" where
  "match_data_word expected =
     bindP peek_token (\<lambda>t.
       if token_kind t = TkIdentifier expected then bindP advance_token (\<lambda>_. returnP True) else returnP False)"

definition parse_data_write :: "grammar \<Rightarrow> span \<Rightarrow> bool \<Rightarrow> expr parse" where
  "parse_data_write g start replace =
     bindP (parse_data_part g) (\<lambda>value.
     bindP (expect g (kw TkIn) ''expected `in` and a data store'') (\<lambda>_.
     bindP (parse_data_part g) (\<lambda>store.
     returnP (Spanned (E_DataWrite value store replace) (Span_through start (sp store))))))"

definition parse_data_order :: "grammar \<Rightarrow> data_order parse" where
  "parse_data_order g =
     bindP previous (\<lambda>order_start.
     bindP (parse_data_part g) (\<lambda>key.
     bindP (match_data_word ''descending'') (\<lambda>descending.
     bindP (if descending then returnP True else match_data_word ''ascending'') (\<lambda>_.
     bindP previous (\<lambda>end.
     returnP (DataOrder key descending (Span_through (token_span order_start) (token_span end))))))))"

definition parse_data_query :: "grammar \<Rightarrow> span \<Rightarrow> data_query_kind \<Rightarrow> expr parse" where
  "parse_data_query g start kind =
     bindP (expect_identifier g ''expected a data schema after the query operation'') (\<lambda>(schema, schema_span).
     bindP
       (if kind \<in> {Q_Sum, Q_Average, Q_Min, Q_Max}
        then bindP (expect g (tk TkDot) ''expected `.` and a field after the aggregate schema'') (\<lambda>_.
          bindP (expect_identifier g ''expected a field to aggregate'') (\<lambda>(field, field_span).
          returnP (Some (Spanned (E_Identifier field) field_span))))
        else returnP None) (\<lambda>aggregate.
     bindP (expect g (kw TkIn) ''expected `in` and a data store'') (\<lambda>_.
     bindP (parse_data_part g) (\<lambda>store.
     bindP (match_data_word ''where'') (\<lambda>w.
     bindP (if w then bindP (parse_data_part g) (\<lambda>p. returnP (Some p)) else returnP None) (\<lambda>predicate.
     bindP peek_token (\<lambda>t.
     if kind \<noteq> Q_Rows \<and> token_kind t \<in> {TkIdentifier ''order'', TkIdentifier ''limit''}
     then parse_error ''DISP Data aggregates accept `where` but not `order` or `limit`'' (token_span t)
     else
       bindP (if kind = Q_Rows then match_data_word ''order'' else returnP False) (\<lambda>o1.
       bindP (if o1 then bindP (parse_data_order g) (\<lambda>d. returnP (Some d)) else returnP None) (\<lambda>order.
       bindP (if kind = Q_Rows then match_data_word ''limit'' else returnP False) (\<lambda>l.
       bindP (if l then bindP (parse_data_part g) (\<lambda>e. returnP (Some e)) else returnP None) (\<lambda>limit.
       let end = (case limit of Some e \<Rightarrow> sp e
                  | None \<Rightarrow> (case order of Some d \<Rightarrow> order_span d | None \<Rightarrow> sp store)) in
       returnP (Spanned (E_DataQuery kind schema schema_span aggregate store predicate order limit)
         (Span_through start end)))))))))))))"

definition parse_data_remove :: "grammar \<Rightarrow> span \<Rightarrow> expr parse" where
  "parse_data_remove g start =
     bindP (expect_identifier g ''expected a data schema after `remove`'') (\<lambda>(schema, schema_span).
     bindP (expect g (kw TkIn) ''expected `in` and a data store'') (\<lambda>_.
     bindP (parse_data_part g) (\<lambda>store.
     bindP (match_data_word ''where'') (\<lambda>w.
     if \<not> w then bindP peek_token (\<lambda>t.
       parse_error ''`remove` requires `where` so all rows cannot be deleted accidentally'' (token_span t))
     else bindP (parse_data_part g) (\<lambda>predicate.
       returnP (Spanned (E_DataRemove schema schema_span store predicate) (Span_through start (sp predicate))))))))"

definition data_query_operations :: "(string \<times> data_query_kind) list" where
  "data_query_operations =
     [(''find'', Q_Rows), (''count'', Q_Count), (''exists'', Q_Exists), (''sum'', Q_Sum),
      (''average'', Q_Average), (''min'', Q_Min), (''max'', Q_Max)]"

definition parse_data_expression :: "grammar \<Rightarrow> span \<Rightarrow> expr parse" where
  "parse_data_expression g start =
     bindP (expect_identifier g ''expected a DISP Data operation'') (\<lambda>(operation, operation_span).
     if operation = ''memory''
     then returnP (Spanned (E_DataStore None) (Span_through start operation_span))
     else if operation = ''open''
     then bindP (parse_data_part g) (\<lambda>path.
       returnP (Spanned (E_DataStore (Some path)) (Span_through start (sp path))))
     else if operation = ''add'' then parse_data_write g start False
     else if operation = ''save'' then parse_data_write g start True
     else if operation = ''remove'' then parse_data_remove g start
     else case map_of data_query_operations operation of
       Some kind \<Rightarrow> parse_data_query g start kind
     | None \<Rightarrow> error_help (''unknown DISP Data operation `'' @ operation @ ''`'') operation_span
         ''use `data memory`, `data open`, `data add`, `data save`, `data find`, `data count`, `data exists`, `data sum`, `data average`, `data min`, `data max`, or `data remove`'')"

definition parse_closure_parameter :: "grammar \<Rightarrow> parameter parse" where
  "parse_closure_parameter g =
     bindP (expect_identifier g ''expected closure parameter name'') (\<lambda>(name, name_span).
     bindP (expect g (tk TkColon) ''closure parameters require a type annotation'') (\<lambda>_.
     bindP (parse_type_name g) (\<lambda>ty.
     returnP \<lparr>param_name = name, param_span = name_span, param_ty = ty\<rparr>)))"

fun closure_body_span :: "closure_body \<Rightarrow> span" where
  "closure_body_span (CB_Expression e) = sp e"
| "closure_body_span (CB_Block b) = block_span b"

fun is_block_body :: "closure_body \<Rightarrow> bool" where
  "is_block_body (CB_Block _) = True"
| "is_block_body _ = False"

definition parse_closure :: "grammar \<Rightarrow> span \<Rightarrow> bool \<Rightarrow> bool \<Rightarrow> expr parse" where
  "parse_closure g start move_captures parameters_closed =
     bindP
       (if parameters_closed then returnP []
        else bindP (sep_list g (parse_closure_parameter g) TkComma TkOr) (\<lambda>ps.
          bindP (expect g (tk TkOr) ''expected `|` after closure parameters'') (\<lambda>_. returnP ps))) (\<lambda>parameters.
     bindP (match_token (tk TkArrow)) (\<lambda>arrow.
     bindP (if arrow then bindP (parse_type_name g) (\<lambda>ty. returnP (Some ty)) else returnP None) (\<lambda>return_type.
     bindP (check (tk TkLeftBrace)) (\<lambda>brace.
     bindP
       (if brace then bindP (g_block g) (\<lambda>b. returnP (CB_Block b))
        else bindP (g_expression g) (\<lambda>e. returnP (CB_Expression e))) (\<lambda>body.
     if is_block_body body \<and> return_type = None
     then error_help ''a block closure requires an explicit return type'' start
       ''write `|arguments| -> ResultType { ... }`''
     else returnP (Spanned (E_Closure move_captures parameters return_type body)
       (Span_through start (closure_body_span body))))))))"

text \<open>One round of the loop over the fields of a struct construction.\<close>

definition parse_field_value :: "grammar \<Rightarrow> struct_field_value list \<Rightarrow> struct_field_value list parse" where
  "parse_field_value g fs =
     bindP (expect_identifier g ''expected struct field name'') (\<lambda>(name, name_span).
     bindP (match_token (tk TkColon)) (\<lambda>colon.
     bindP (if colon then g_expression g else returnP (Spanned (E_Identifier name) name_span)) (\<lambda>value.
     bindP (match_token (tk TkComma)) (\<lambda>_.
     returnP (fs @ [StructFieldValue name name_span value])))))"

definition parse_struct_construct :: "grammar \<Rightarrow> string \<Rightarrow> span \<Rightarrow> expr parse" where
  "parse_struct_construct g name name_span =
     bindP (expect g (tk TkLeftBrace) ''expected `{` in struct construction'') (\<lambda>_.
     bindP (until_brace g (parse_field_value g) []) (\<lambda>fields.
     bindP (expect g (tk TkRightBrace) ''expected `}` after struct construction'') (\<lambda>end.
     returnP (Spanned (E_StructConstruct name name_span fields) (Span_through name_span (token_span end))))))"

definition parse_match_arm :: "grammar \<Rightarrow> match_arm list \<Rightarrow> match_arm list parse" where
  "parse_match_arm g arms =
     bindP (parse_pattern g) (\<lambda>pattern.
     bindP (match_token (kw TkIf)) (\<lambda>b.
     bindP (if b then bindP (g_expression g) (\<lambda>e. returnP (Some e)) else returnP None) (\<lambda>guard.
     bindP (expect g (tk TkFatArrow) ''expected `=>` after match pattern'') (\<lambda>_.
     bindP (g_expression g) (\<lambda>value.
     bindP (match_token (tk TkComma)) (\<lambda>_.
     returnP (arms @ [MatchArm pattern None guard value (Span_through (sp pattern) (sp value))])))))))"

definition parse_match :: "grammar \<Rightarrow> span \<Rightarrow> expr parse" where
  "parse_match g start =
     bindP (g_expression g) (\<lambda>value.
     bindP (expect g (tk TkLeftBrace) ''expected `{` after match value'') (\<lambda>_.
     bindP (until_brace g (parse_match_arm g) []) (\<lambda>arms.
     bindP (expect g (tk TkRightBrace) ''expected `}` after match arms'') (\<lambda>end.
     returnP (Spanned (E_Match value arms) (Span_through start (token_span end)))))))"

definition parse_parenthesized :: "grammar \<Rightarrow> span \<Rightarrow> expr parse" where
  "parse_parenthesized g start =
     bindP (g_expression g) (\<lambda>e.
     bindP (expect g (tk TkRightParen) ''expected `)` after expression'') (\<lambda>end.
     returnP (Spanned (node e) (Span_through start (token_span end)))))"

definition parse_array :: "grammar \<Rightarrow> span \<Rightarrow> expr parse" where
  "parse_array g start =
     bindP (sep_list g (g_expression g) TkComma TkRightBracket) (\<lambda>values.
     bindP (expect g (tk TkRightBracket) ''expected `]` after array literal'') (\<lambda>end.
     returnP (Spanned (E_Array values) (Span_through start (token_span end)))))"

definition parse_primary :: "grammar \<Rightarrow> expr parse" where
  "parse_primary g =
     bindP advance_token (\<lambda>t.
     let s = token_span t in
     case token_kind t of
       TkInteger v \<Rightarrow> returnP (Spanned (E_Integer v) s)
     | TkFloat v \<Rightarrow> returnP (Spanned (E_Float v) s)
     | TkString v \<Rightarrow> returnP (Spanned (E_String v) s)
     | TkCharacter v \<Rightarrow> returnP (Spanned (E_Character v) s)
     | TkKeyword TkTrue \<Rightarrow> returnP (Spanned (E_Bool True) s)
     | TkKeyword TkFalse \<Rightarrow> returnP (Spanned (E_Bool False) s)
     | TkKeyword TkData \<Rightarrow> parse_data_expression g s
     | TkSymbol TkOr \<Rightarrow> parse_closure g s False False
     | TkSymbol TkOrOr \<Rightarrow> parse_closure g s False True
     | TkIdentifier name \<Rightarrow>
         bindP looks_like_struct_construct (\<lambda>b.
         if is_type_style (g_env g) name \<and> b then parse_struct_construct g name s
         else returnP (Spanned (E_Identifier name) s))
     | TkKeyword TkMatch \<Rightarrow> parse_match g s
     | TkSymbol TkLeftParen \<Rightarrow> parse_parenthesized g s
     | TkSymbol TkLeftBracket \<Rightarrow> parse_array g s
     | found \<Rightarrow> parse_error (''expected expression, found '' @ debug_kind (g_env g) found) s)"

section \<open>Calls, fields and indices\<close>

fun is_map_literal :: "expression \<Rightarrow> bool" where
  "is_map_literal (E_FieldAccess obj field _) = (field = ''of'' \<and> node obj = E_Identifier ''Map'')"
| "is_map_literal _ = False"

definition parse_argument :: "grammar \<Rightarrow> bool \<Rightarrow> expr list parse" where
  "parse_argument g map_literal =
     bindP (g_expression g) (\<lambda>key.
     if map_literal
     then bindP (expect g (tk TkColon) ''expected `:` between Map key and value'') (\<lambda>_.
       bindP (g_expression g) (\<lambda>value. returnP [key, value]))
     else returnP [key])"

text \<open>
  What the call of \<open>callee\<close> with its arguments becomes: \<^verbatim>\<open>x.slice(a, b)\<close> and \<^verbatim>\<open>x.slice_mut(a, b)\<close> borrow a
  subslice, everything else is a call.
\<close>

definition call_node :: "expr \<Rightarrow> expr list \<Rightarrow> span \<Rightarrow> expr parse" where
  "call_node callee arguments s =
     (case node callee of
        E_FieldAccess obj field _ \<Rightarrow>
          if field = ''slice'' \<or> field = ''slice_mut''
          then (case arguments of
              [a, b] \<Rightarrow> returnP (Spanned (E_Borrow (field = ''slice_mut'') (Spanned (E_Subslice obj a b) s)) s)
            | _ \<Rightarrow> parse_error (''`'' @ field @ ''` expects a start and end position'') s)
          else returnP (Spanned (E_Call callee arguments) s)
      | _ \<Rightarrow> returnP (Spanned (E_Call callee arguments) s))"

definition parse_call_arguments :: "grammar \<Rightarrow> expr \<Rightarrow> nat \<Rightarrow> (expr \<times> nat) parse" where
  "parse_call_arguments g e call_count =
     (if call_count + 1 > MAX_CALL_CHAIN
      then bindP previous (\<lambda>t.
        parse_error (''call chain exceeds the safety limit of '' @ show_nat MAX_CALL_CHAIN) (token_span t))
      else
        bindP (sep_list g (parse_argument g (is_map_literal (node e))) TkComma TkRightParen) (\<lambda>groups.
        bindP (expect g (tk TkRightParen) ''expected `)` after function arguments'') (\<lambda>end.
        bindP (call_node e (concat groups) (Span_through (sp e) (token_span end))) (\<lambda>e'.
        returnP (e', call_count + 1)))))"

definition parse_field :: "grammar \<Rightarrow> expr \<Rightarrow> expr parse" where
  "parse_field g e =
     bindP (check (kw TkSpawn)) (\<lambda>spawn.
     bindP (if spawn then bindP advance_token (\<lambda>t. returnP (''spawn'', token_span t))
            else expect_identifier g ''expected field after `.`'') (\<lambda>(field, field_span).
     returnP (Spanned (E_FieldAccess e field field_span) (Span_through (sp e) field_span))))"

definition parse_index :: "grammar \<Rightarrow> expr \<Rightarrow> expr parse" where
  "parse_index g e =
     bindP (g_expression g) (\<lambda>first.
     bindP (match_token (tk TkRange)) (\<lambda>r.
     bindP (if r then bindP (g_expression g) (\<lambda>e. returnP (Some e)) else returnP None) (\<lambda>range.
     bindP (expect g (tk TkRightBracket) ''expected `]` after index'') (\<lambda>end.
     returnP (Spanned (case range of Some e2 \<Rightarrow> E_Subslice e first e2 | None \<Rightarrow> E_Index e first)
       (Span_through (sp e) (token_span end)))))))"

text \<open>One round of the loop of \<^verbatim>\<open>parse_call\<close>: the expression so far and the number of calls in it.\<close>

definition parse_call_round :: "grammar \<Rightarrow> expr \<times> nat \<Rightarrow> ((expr \<times> nat) \<times> bool) parse" where
  "parse_call_round g = (\<lambda>(e, call_count).
     bindP (match_token (tk TkLeftParen)) (\<lambda>paren.
     if paren then bindP (parse_call_arguments g e call_count) (\<lambda>s. returnP (s, True)) else
     bindP (match_token (tk TkDot)) (\<lambda>dot.
     if dot then bindP (parse_field g e) (\<lambda>e'. returnP ((e', call_count), True)) else
     bindP (match_token (tk TkLeftBracket)) (\<lambda>bracket.
     if bracket then bindP (parse_index g e) (\<lambda>e'. returnP ((e', call_count), True)) else
     bindP (\<lambda>st. if suppress_try st then Ok (False, st) else match_token (tk TkQuestion) st) (\<lambda>question.
     if question then bindP previous (\<lambda>end.
       returnP ((Spanned (E_Try e) (Span_through (sp e) (token_span end)), call_count), True))
     else returnP ((e, call_count), False))))))"

definition parse_call :: "grammar \<Rightarrow> expr parse" where
  "parse_call g =
     bindP (parse_primary g) (\<lambda>e.
     bindP (loopP (g_fuel g) (parse_call_round g) (e, 0)) (\<lambda>(e', _). returnP e'))"

section \<open>Operators\<close>

definition parse_unary_operand :: "grammar \<Rightarrow> (expr \<Rightarrow> expression) \<Rightarrow> span \<Rightarrow> expr parse" where
  "parse_unary_operand g mk start =
     bindP (with_recursion (g_unary g)) (\<lambda>e. returnP (Spanned (mk e) (Span_through start (sp e))))"

definition parse_move :: "grammar \<Rightarrow> span \<Rightarrow> expr parse" where
  "parse_move g start =
     bindP (match_token (tk TkOr)) (\<lambda>b. if b then parse_closure g start True False else
     bindP (match_token (tk TkOrOr)) (\<lambda>b. if b then parse_closure g start True True else
     parse_unary_operand g E_Move start))"

definition parse_borrow :: "grammar \<Rightarrow> span \<Rightarrow> expr parse" where
  "parse_borrow g start =
     bindP (match_token (kw TkMut)) (\<lambda>mutable. parse_unary_operand g (E_Borrow mutable) start)"

text \<open>\<open>after\<close> runs a method with the span of the token that \<^verbatim>\<open>match_token\<close> consumed.\<close>

definition after :: "token_kind \<Rightarrow> (span \<Rightarrow> 'a parse) \<Rightarrow> 'a parse \<Rightarrow> 'a parse" where
  "after k yes no =
     bindP (match_token k) (\<lambda>b. if b then bindP previous (\<lambda>t. yes (token_span t)) else no)"

definition parse_unary :: "grammar \<Rightarrow> expr parse" where
  "parse_unary g =
     after (kw TkAwait) (parse_unary_operand g E_Await)
     (after (kw TkSpawn) (parse_unary_operand g E_Spawn)
     (after (kw TkMove) (parse_move g)
     (after (tk TkAnd) (parse_borrow g)
     (after (tk TkStar) (parse_unary_operand g E_Dereference)
     (after (tk TkMinus) (parse_unary_operand g (E_Unary U_Negate))
     (after (tk TkBang) (parse_unary_operand g (E_Unary U_Not))
     (parse_call g)))))))"

text \<open>The tokens after \<^verbatim>\<open>*name\<close>: a path of fields and then an assignment operator.\<close>

fun deref_tail :: "token_kind list \<Rightarrow> bool" where
  "deref_tail [] = False"
| "deref_tail (k # ks) =
     (if k = tk TkDot
      then (case ks of [] \<Rightarrow> False | k2 # rest \<Rightarrow> is_identifier (Some k2) \<and> deref_tail rest)
      else is_assignment k)"

definition looks_like_dereference_assignment :: "parser \<Rightarrow> bool" where
  "looks_like_dereference_assignment st =
     (case map token_kind (drop (p_current st + 1) (p_tokens st)) of
        TkIdentifier _ # ks \<Rightarrow> deref_tail ks
      | _ \<Rightarrow> False)"

text \<open>One round of the loop of \<^verbatim>\<open>parse_binary\<close>: the left operand so far and the number of operators in it.\<close>

definition parse_binary_round ::
  "expr parse \<Rightarrow> (symbol \<times> binary_operator) list \<Rightarrow> expr \<times> nat \<Rightarrow> ((expr \<times> nat) \<times> bool) parse" where
  "parse_binary_round operand operators = (\<lambda>(e, operator_count).
     bindP peek_token (\<lambda>t st.
     case find (\<lambda>(k, _). same_variant (token_kind t) (tk k)) operators of
       None \<Rightarrow> Ok (((e, operator_count), False), st)
     | Some (_, operator) \<Rightarrow>
         if same_variant (token_kind t) (tk TkStar) \<and> line (span_start (token_span t)) > line (span_end (sp e))
            \<and> looks_like_dereference_assignment st
         then Ok (((e, operator_count), False), st)
         else if operator_count + 1 > MAX_OPERATOR_CHAIN
         then parse_error (''operator chain exceeds the safety limit of '' @ show_nat MAX_OPERATOR_CHAIN)
           (token_span t) st
         else bindP advance_token (\<lambda>_.
           bindP operand (\<lambda>right.
           returnP ((Spanned (E_Binary e operator right) (Span_through (sp e) (sp right)), operator_count + 1), True))) st))"

definition parse_binary :: "grammar \<Rightarrow> expr parse \<Rightarrow> (symbol \<times> binary_operator) list \<Rightarrow> expr parse" where
  "parse_binary g operand operators =
     bindP operand (\<lambda>e.
     bindP (loopP (g_fuel g) (parse_binary_round operand operators) (e, 0)) (\<lambda>(e', _). returnP e'))"

definition parse_multiplication :: "grammar \<Rightarrow> expr parse" where
  "parse_multiplication g =
     parse_binary g (parse_unary g) [(TkStar, B_Multiply), (TkSlash, B_Divide), (TkPercent, B_Remainder)]"

definition parse_addition :: "grammar \<Rightarrow> expr parse" where
  "parse_addition g = parse_binary g (parse_multiplication g) [(TkPlus, B_Add), (TkMinus, B_Subtract)]"

definition parse_comparison :: "grammar \<Rightarrow> expr parse" where
  "parse_comparison g =
     parse_binary g (parse_addition g)
       [(TkLess, B_Less), (TkLessEqual, B_LessEqual), (TkGreater, B_Greater), (TkGreaterEqual, B_GreaterEqual)]"

definition parse_equality :: "grammar \<Rightarrow> expr parse" where
  "parse_equality g =
     parse_binary g (parse_comparison g) [(TkEqualEqual, B_Equal), (TkBangEqual, B_NotEqual)]"

definition parse_and :: "grammar \<Rightarrow> expr parse" where
  "parse_and g = parse_binary g (parse_equality g) [(TkAndAnd, B_And)]"

definition parse_or :: "grammar \<Rightarrow> expr parse" where
  "parse_or g = parse_binary g (parse_and g) [(TkOrOr, B_Or)]"

definition parse_expression :: "grammar \<Rightarrow> expr parse" where
  "parse_expression g = with_recursion (parse_or g)"

section \<open>Statements\<close>

definition parse_return :: "grammar \<Rightarrow> stmt parse" where
  "parse_return g =
     bindP previous (\<lambda>start.
     bindP (check (tk TkSemicolon)) (\<lambda>semicolon.
     bindP (check (tk TkRightBrace)) (\<lambda>brace.
     bindP (if semicolon \<or> brace then returnP None else bindP (parse_expression g) (\<lambda>e. returnP (Some e))) (\<lambda>value.
     bindP (match_token (tk TkSemicolon)) (\<lambda>_.
     returnP (Spanned (S_Return value)
       (case value of None \<Rightarrow> token_span start | Some e \<Rightarrow> Span_through (token_span start) (sp e))))))))"

definition binding_kinds :: "(keyword \<times> binding_kind) list" where
  "binding_kinds = [(TkLet, BK_Let), (TkVar, BK_Var), (TkConst, BK_Const)]"

fun binding_kind_of :: "token_kind \<Rightarrow> binding_kind option" where
  "binding_kind_of (TkKeyword k) = map_of binding_kinds k"
| "binding_kind_of _ = None"

definition parse_binding :: "grammar \<Rightarrow> stmt parse" where
  "parse_binding g =
     bindP advance_token (\<lambda>keyword.
     case binding_kind_of (token_kind keyword) of
       None \<Rightarrow> panicP
     | Some kind \<Rightarrow>
       bindP (expect_identifier g ''expected binding name'') (\<lambda>(name, name_span).
       bindP (match_token (tk TkColon)) (\<lambda>colon.
       bindP (if colon then bindP (parse_type_name g) (\<lambda>ty. returnP (Some ty)) else returnP None) (\<lambda>annotation.
       bindP (match_token (tk TkEqual)) (\<lambda>equal.
       bindP (if equal then bindP (parse_expression g) (\<lambda>e. returnP (Some e)) else returnP None) (\<lambda>value.
       if value = None \<and> annotation = None
       then parse_error ''an uninitialized binding requires a type annotation'' name_span
       else
         (let end = (case value of Some e \<Rightarrow> sp e
                     | None \<Rightarrow> (case annotation of Some ty \<Rightarrow> ty_span ty | None \<Rightarrow> name_span)) in
          bindP (match_token (tk TkSemicolon)) (\<lambda>_.
          returnP (Spanned (S_Binding kind name name_span annotation value)
            (Span_through (token_span keyword) end))))))))))"

definition parse_if :: "grammar \<Rightarrow> stmt parse" where
  "parse_if g =
     bindP previous (\<lambda>start.
     bindP (parse_expression g) (\<lambda>condition.
     bindP (g_block g) (\<lambda>then_branch.
     bindP (match_token (kw TkElse)) (\<lambda>els.
     bindP
       (if \<not> els then returnP None
        else bindP (match_token (kw TkIf)) (\<lambda>elif.
          if elif then bindP (g_if g) (\<lambda>nested. returnP (Some (Block [nested] (sp nested))))
          else bindP (g_block g) (\<lambda>b. returnP (Some b)))) (\<lambda>else_branch.
     returnP (Spanned (S_If condition then_branch else_branch)
       (Span_through (token_span start)
         (case else_branch of None \<Rightarrow> block_span then_branch | Some b \<Rightarrow> block_span b))))))))"

definition parse_while :: "grammar \<Rightarrow> stmt parse" where
  "parse_while g =
     bindP previous (\<lambda>start.
     bindP (parse_expression g) (\<lambda>condition.
     bindP (g_block g) (\<lambda>body.
     returnP (Spanned (S_While condition body) (Span_through (token_span start) (block_span body))))))"

definition parse_for :: "grammar \<Rightarrow> stmt parse" where
  "parse_for g =
     bindP previous (\<lambda>start_token.
     bindP (expect_identifier g ''expected loop binding after `for`'') (\<lambda>(name, name_span).
     bindP (expect g (kw TkIn) ''expected `in` after loop binding'') (\<lambda>_.
     bindP (parse_expression g) (\<lambda>start.
     bindP (match_token (tk TkRangeInclusive)) (\<lambda>inclusive.
     bindP (if inclusive then returnP True else match_token (tk TkRange)) (\<lambda>range.
     if \<not> range
     then bindP (g_block g) (\<lambda>body.
       returnP (Spanned (S_ForEach name name_span start body)
         (Span_through (token_span start_token) (block_span body))))
     else bindP (parse_expression g) (\<lambda>end.
       bindP (g_block g) (\<lambda>body.
       returnP (Spanned (S_For name name_span start end inclusive body)
         (Span_through (token_span start_token) (block_span body)))))))))))"

definition parse_loop :: "grammar \<Rightarrow> span \<Rightarrow> stmt parse" where
  "parse_loop g start =
     bindP (g_block g) (\<lambda>body. returnP (Spanned (S_Loop body) (Span_through start (block_span body))))"

definition parse_unsafe :: "grammar \<Rightarrow> span \<Rightarrow> stmt parse" where
  "parse_unsafe g start =
     bindP (parse_capabilities g) (\<lambda>capabilities.
     bindP (g_block g) (\<lambda>body.
     returnP (Spanned (S_Unsafe capabilities body) (Span_through start (block_span body)))))"

definition parse_jump :: "statement \<Rightarrow> span \<Rightarrow> stmt parse" where
  "parse_jump s start = bindP (match_token (tk TkSemicolon)) (\<lambda>_. returnP (Spanned s start))"

definition assignment_operators :: "(symbol \<times> assignment_operator) list" where
  "assignment_operators =
     [(TkEqual, A_Assign), (TkPlusEqual, A_Add), (TkMinusEqual, A_Subtract), (TkStarEqual, A_Multiply),
      (TkSlashEqual, A_Divide)]"

fun assignment_operator_of :: "token_kind \<Rightarrow> assignment_operator option" where
  "assignment_operator_of (TkSymbol s) = map_of assignment_operators s"
| "assignment_operator_of _ = None"

definition parse_assignment :: "grammar \<Rightarrow> expr \<Rightarrow> stmt parse" where
  "parse_assignment g target =
     bindP advance_token (\<lambda>operator_token.
     case assignment_operator_of (token_kind operator_token) of
       None \<Rightarrow> panicP
     | Some operator \<Rightarrow>
       bindP (parse_expression g) (\<lambda>value.
       bindP (match_token (tk TkSemicolon)) (\<lambda>_.
       returnP (Spanned
         (case node target of
            E_Identifier name \<Rightarrow> S_Assignment name (sp target) operator value
          | _ \<Rightarrow> S_PlaceAssignment target operator value)
         (Span_through (sp target) (sp value))))))"

definition parse_expression_statement :: "grammar \<Rightarrow> stmt parse" where
  "parse_expression_statement g =
     bindP (parse_expression g) (\<lambda>e.
     bindP peek_token (\<lambda>t.
     if is_assignment (token_kind t) then parse_assignment g e
     else bindP (match_token (tk TkSemicolon)) (\<lambda>_. returnP (Spanned (S_Expression e) (sp e)))))"

definition parse_statement :: "grammar \<Rightarrow> stmt parse" where
  "parse_statement g =
     bindP (matches_any [kw TkLet, kw TkVar, kw TkConst]) (\<lambda>b. if b then parse_binding g else
     bindP (match_token (kw TkReturn)) (\<lambda>b. if b then parse_return g else
     bindP (match_token (kw TkIf)) (\<lambda>b. if b then parse_if g else
     bindP (match_token (kw TkWhile)) (\<lambda>b. if b then parse_while g else
     bindP (match_token (kw TkFor)) (\<lambda>b. if b then parse_for g else
     after (kw TkLoop) (parse_loop g)
     (after (kw TkUnsafe) (parse_unsafe g)
     (after (kw TkBreak) (parse_jump S_Break)
     (after (kw TkContinue) (parse_jump S_Continue)
     (parse_expression_statement g)))))))))"

definition parse_block_inner :: "grammar \<Rightarrow> block parse" where
  "parse_block_inner g =
     bindP (expect g (tk TkLeftBrace) ''expected `{`'') (\<lambda>start.
     bindP (until_brace g (\<lambda>ss. bindP (parse_statement g) (\<lambda>s. returnP (ss @ [s]))) []) (\<lambda>ss.
     bindP (expect g (tk TkRightBrace) ''expected `}` after block'') (\<lambda>end.
     returnP (Block ss (Span_through (token_span start) (token_span end))))))"

definition parse_block :: "grammar \<Rightarrow> block parse" where
  "parse_block g = with_recursion (parse_block_inner g)"

section \<open>Tying the knot\<close>

primrec grammar_of :: "parse_env \<Rightarrow> nat \<Rightarrow> grammar" where
  "grammar_of env 0 = \<lparr>g_env = env, g_fuel = 0, g_type_name = panicP, g_pattern = panicP, g_expression = panicP,
     g_unary = panicP, g_block = panicP, g_if = panicP\<rparr>"
| "grammar_of env (Suc n) =
     (let g = grammar_of env n in
      \<lparr>g_env = env, g_fuel = Suc n, g_type_name = parse_type_name g, g_pattern = parse_pattern g,
        g_expression = parse_expression g, g_unary = parse_unary g, g_block = parse_block g, g_if = parse_if g\<rparr>)"

end
