(* ===== verification/ParserDecl.thy ===== *)
theory ParserDecl
  imports Parser
begin

text \<open>
  The declarations of \<^verbatim>\<open>compiler/src/parser.rs\<close>: modules, imports, structs, enums, traits,
  implementations, functions, exported and external functions, and \<^verbatim>\<open>Parser::parse\<close>.
\<close>

section \<open>Declarations\<close>

definition parse_module_path :: "grammar \<Rightarrow> string \<Rightarrow> string spanned list parse" where
  "parse_module_path g message =
     bindP (expect_identifier g message) (\<lambda>(first, s).
     loopP (g_fuel g) (\<lambda>path.
       bindP (match_token (tk TkDot)) (\<lambda>dot.
       if \<not> dot then returnP (path, False)
       else bindP (expect_identifier g ''expected module path component'') (\<lambda>(part, ps).
         returnP (path @ [Spanned part ps], True)))) [Spanned first s])"

definition parse_module_declaration :: "grammar \<Rightarrow> module_declaration parse" where
  "parse_module_declaration g =
     bindP (expect g (kw TkModule) ''expected `module`'') (\<lambda>start.
     bindP (parse_module_path g ''expected module name'') (\<lambda>path.
     bindP (match_token (tk TkSemicolon)) (\<lambda>_.
     returnP \<lparr>module_path = path,
       module_span = Span_through (token_span start) (if path = [] then token_span start else sp (last path))\<rparr>)))"

definition parse_import_item :: "grammar \<Rightarrow> import_item parse" where
  "parse_import_item g =
     bindP (expect_identifier g ''expected imported item name'') (\<lambda>(name, s).
     bindP (match_token (kw TkAs)) (\<lambda>renamed.
     bindP (if renamed then expect_identifier g ''expected import alias after `as`'' else returnP (name, s)) (\<lambda>(alias, alias_s).
     returnP \<lparr>item_name = name, item_name_span = s, item_alias = alias, item_alias_span = alias_s,
       item_span = Span_through s alias_s\<rparr>)))"

text \<open>One round of the \<^verbatim>\<open>while self.match_token(Dot)\<close> loop of \<^verbatim>\<open>parse_import\<close>.\<close>

definition parse_import_part ::
  "grammar \<Rightarrow> string spanned list \<times> import_item list option
     \<Rightarrow> ((string spanned list \<times> import_item list option) \<times> bool) parse" where
  "parse_import_part g = (\<lambda>(path, items).
     bindP (match_token (tk TkDot)) (\<lambda>dot.
     if \<not> dot then returnP ((path, items), False)
     else bindP (match_token (tk TkLeftBrace)) (\<lambda>brace.
       if brace
       then bindP (sep_list g (parse_import_item g) TkComma TkRightBrace) (\<lambda>selected.
         if selected = []
         then bindP peek_token (\<lambda>t. parse_error ''an import item list cannot be empty'' (token_span t))
         else bindP (expect g (tk TkRightBrace) ''expected `}` after imported items'') (\<lambda>_.
           returnP ((path, Some selected), False)))
       else bindP (expect_identifier g ''expected module path component'') (\<lambda>(part, s).
         returnP ((path @ [Spanned part s], items), True)))))"

definition parse_import :: "grammar \<Rightarrow> bool \<Rightarrow> import_declaration parse" where
  "parse_import g public =
     bindP (expect g (kw TkUse) ''expected `use`'') (\<lambda>start.
     bindP (expect_identifier g ''expected module name after `use`'') (\<lambda>(first, first_span).
     bindP (loopP (g_fuel g) (parse_import_part g) ([Spanned first first_span], None)) (\<lambda>(path, items).
     bindP previous (\<lambda>end.
     bindP (match_token (tk TkSemicolon)) (\<lambda>_.
     returnP \<lparr>import_path = path, import_items = items, import_public = public,
       import_span = Span_through (token_span start) (token_span end)\<rparr>)))))"

definition parse_data_constraint :: "grammar \<Rightarrow> data_constraint_declaration parse" where
  "parse_data_constraint g =
     bindP advance_token (\<lambda>start.
     bindP (expect_identifier g ''expected constraint name'') (\<lambda>(name, name_span).
     bindP (expect g (tk TkColon) ''expected `:` after constraint name'') (\<lambda>_.
     bindP (expect_identifier g ''expected `unique` or `index`'') (\<lambda>(kind_name, kind_span).
     bindP
       (if kind_name = ''unique'' then returnP UniqueConstraint
        else if kind_name = ''index'' then returnP IndexConstraint
        else parse_error ''expected `unique` or `index` constraint kind'' kind_span) (\<lambda>kind.
     bindP (expect g (tk TkLeftParen) ''expected `(` after constraint kind'') (\<lambda>_.
     bindP (sep_by g (bindP (expect_identifier g ''expected constrained field name'') (\<lambda>(f, s). returnP (Spanned f s)))
              TkComma) (\<lambda>fs.
     bindP (expect g (tk TkRightParen) ''expected `)` after constrained fields'') (\<lambda>end.
     bindP (match_token (tk TkComma)) (\<lambda>_.
     returnP \<lparr>dc_name = name, dc_name_span = name_span, dc_kind = kind, dc_fields = fs,
       dc_span = Span_through (token_span start) (token_span end)\<rparr>)))))))))"

text \<open>One round of the loop over the modifiers of a data field.\<close>

definition duplicate_modifier :: "string \<Rightarrow> span \<Rightarrow> 'a parse" where
  "duplicate_modifier m s = parse_error (''duplicate '' @ m) s"

definition parse_field_modifier :: "grammar \<Rightarrow> field_declaration \<Rightarrow> (field_declaration \<times> bool) parse" where
  "parse_field_modifier g f =
     bindP peek_token (\<lambda>t.
     let s = token_span t; again = (\<lambda>f. returnP (f, True)) in
     if token_kind t = TkIdentifier ''primary''
     then if fd_primary f then duplicate_modifier ''`primary` data-field constraint'' s
       else bindP advance_token (\<lambda>_. again (f\<lparr>fd_primary := True\<rparr>))
     else if token_kind t = TkIdentifier ''unique''
     then if fd_unique f then duplicate_modifier ''`unique` data-field constraint'' s
       else bindP advance_token (\<lambda>_. again (f\<lparr>fd_unique := True\<rparr>))
     else if token_kind t = TkIdentifier ''index''
     then if fd_indexed f then duplicate_modifier ''`index` data-field constraint'' s
       else bindP advance_token (\<lambda>_. again (f\<lparr>fd_indexed := True\<rparr>))
     else if token_kind t = TkIdentifier ''from''
     then if fd_migration_from f \<noteq> None then duplicate_modifier ''`from` data-field migration'' s
       else bindP advance_token (\<lambda>_.
         bindP (expect g (tk TkLeftParen) ''expected `(` after `from`'') (\<lambda>_.
         bindP (expect_identifier g ''expected prior field name'') (\<lambda>(name, ns).
         bindP (expect g (tk TkRightParen) ''expected `)` after prior field name'') (\<lambda>_.
         again (f\<lparr>fd_migration_from := Some (Spanned name ns)\<rparr>)))))
     else if token_kind t = TkIdentifier ''default''
     then if fd_migration_default f \<noteq> None then duplicate_modifier ''`default` data-field migration'' s
       else bindP advance_token (\<lambda>_.
         bindP (expect g (tk TkLeftParen) ''expected `(` after `default`'') (\<lambda>_.
         bindP (parse_expression g) (\<lambda>e.
         bindP (expect g (tk TkRightParen) ''expected `)` after migration default'') (\<lambda>_.
         again (f\<lparr>fd_migration_default := Some e\<rparr>)))))
     else returnP (f, False))"

text \<open>One round of the loop over the members of a struct: the fields and the constraints so far.\<close>

definition parse_struct_member ::
  "grammar \<Rightarrow> bool \<Rightarrow> field_declaration list \<times> data_constraint_declaration list
     \<Rightarrow> (field_declaration list \<times> data_constraint_declaration list) parse" where
  "parse_struct_member g data = (\<lambda>(fs, cs).
     bindP (check_identifier ''constraint'') (\<lambda>word.
     bindP (check_next (tk TkColon)) (\<lambda>colon.
     if data \<and> word \<and> \<not> colon
     then bindP (parse_data_constraint g) (\<lambda>c. returnP (fs, cs @ [c]))
     else
       bindP (expect_identifier g ''expected field name'') (\<lambda>(name, name_span).
       bindP (expect g (tk TkColon) ''expected `:` after field name'') (\<lambda>_.
       bindP (parse_type_name g) (\<lambda>ty.
       let f = \<lparr>fd_name = name, fd_name_span = name_span, fd_ty = ty, fd_primary = False, fd_unique = False,
         fd_indexed = False, fd_migration_from = None, fd_migration_default = None\<rparr> in
       bindP (if data then loopP (g_fuel g) (parse_field_modifier g) f else returnP f) (\<lambda>f'.
       bindP (match_token (tk TkComma)) (\<lambda>_.
       returnP (fs @ [f'], cs)))))))))"

definition parse_struct :: "grammar \<Rightarrow> bool \<Rightarrow> struct_declaration parse" where
  "parse_struct g data =
     bindP (expect g (if data then kw TkData else kw TkStruct)
              (if data then ''expected `data`'' else ''expected `struct`'')) (\<lambda>start.
     bindP (expect_identifier g (if data then ''expected data schema name'' else ''expected struct name'')) (\<lambda>(name, name_span).
     bindP (parse_generic_parameters g) (\<lambda>generics.
     bindP (expect g (tk TkLeftBrace)
              (if data then ''expected `{` after data schema name'' else ''expected `{` after struct name'')) (\<lambda>_.
     bindP (until_brace g (parse_struct_member g data) ([], [])) (\<lambda>(fs, cs).
     bindP (expect g (tk TkRightBrace) ''expected `}` after struct fields'') (\<lambda>end.
     returnP \<lparr>struct_name = name, struct_name_span = name_span, struct_data = data, struct_c_abi = False,
       struct_generics = generics, struct_fields = fs, struct_constraints = cs,
       struct_span = Span_through (token_span start) (token_span end)\<rparr>))))))"

definition parse_variant :: "grammar \<Rightarrow> variant_declaration list \<Rightarrow> variant_declaration list parse" where
  "parse_variant g vs =
     bindP (expect_identifier g ''expected variant name'') (\<lambda>(name, s).
     bindP (match_token (tk TkLeftParen)) (\<lambda>paren.
     bindP
       (if paren
        then bindP (sep_list g (parse_type_name g) TkComma TkRightParen) (\<lambda>payload.
          bindP (expect g (tk TkRightParen) ''expected `)` after variant payload'') (\<lambda>_. returnP payload))
        else returnP []) (\<lambda>payload.
     bindP (match_token (tk TkComma)) (\<lambda>_.
     returnP (vs @ [\<lparr>variant_name = name, variant_span = s, variant_payload = payload\<rparr>])))))"

definition parse_enum :: "grammar \<Rightarrow> enum_declaration parse" where
  "parse_enum g =
     bindP (expect g (kw TkEnum) ''expected `enum`'') (\<lambda>start.
     bindP (expect_identifier g ''expected enum name'') (\<lambda>(name, name_span).
     bindP (parse_generic_parameters g) (\<lambda>generics.
     bindP (expect g (tk TkLeftBrace) ''expected `{` after enum name'') (\<lambda>_.
     bindP (until_brace g (parse_variant g) []) (\<lambda>vs.
     bindP (expect g (tk TkRightBrace) ''expected `}` after enum variants'') (\<lambda>end.
     returnP \<lparr>enum_name = name, enum_name_span = name_span, enum_generics = generics, enum_variants = vs,
       enum_span = Span_through (token_span start) (token_span end)\<rparr>))))))"

definition parse_return_type :: "grammar \<Rightarrow> type_name option parse" where
  "parse_return_type g =
     bindP (match_token (tk TkArrow)) (\<lambda>arrow.
     if arrow then bindP (parse_type_name g) (\<lambda>ty. returnP (Some ty)) else returnP None)"

definition parse_function_signature :: "grammar \<Rightarrow> function_signature parse" where
  "parse_function_signature g =
     bindP (match_token (kw TkAsync)) (\<lambda>asynchronous.
     bindP (expect g (kw TkFn) ''expected trait method or associated type'') (\<lambda>start.
     bindP (expect_identifier g ''expected method name'') (\<lambda>(name, name_span).
     bindP (parse_generic_parameters g) (\<lambda>generics.
     bindP (parse_parameters g) (\<lambda>parameters.
     bindP (parse_return_type g) (\<lambda>return_type.
     bindP (parse_capabilities g) (\<lambda>capabilities.
     bindP (match_token (tk TkSemicolon)) (\<lambda>_.
     bindP (match_token (tk TkComma)) (\<lambda>_.
     let end = (case capabilities of
         Some (u # us) \<Rightarrow> use_span (last (u # us))
       | _ \<Rightarrow> (case return_type of Some ty \<Rightarrow> ty_span ty | None \<Rightarrow> name_span)) in
     returnP \<lparr>sig_asynchronous = asynchronous, sig_name = name, sig_name_span = name_span, sig_generics = generics,
       sig_parameters = parameters, sig_return_type = return_type, sig_capabilities = capabilities,
       sig_span = Span_through (token_span start) end\<rparr>)))))))))"

definition parse_trait_member ::
  "grammar \<Rightarrow> (string \<times> span) list \<times> function_signature list
     \<Rightarrow> ((string \<times> span) list \<times> function_signature list) parse" where
  "parse_trait_member g = (\<lambda>(types, methods).
     bindP (match_token (kw TkType)) (\<lambda>b.
     if b
     then bindP (expect_identifier g ''expected associated type name'') (\<lambda>a.
       bindP (match_token (tk TkSemicolon)) (\<lambda>_. returnP (types @ [a], methods)))
     else bindP (parse_function_signature g) (\<lambda>m. returnP (types, methods @ [m]))))"

definition parse_trait :: "grammar \<Rightarrow> trait_declaration parse" where
  "parse_trait g =
     bindP (expect g (kw TkTrait) ''expected `trait`'') (\<lambda>start.
     bindP (expect_identifier g ''expected trait name'') (\<lambda>(name, name_span).
     bindP (parse_generic_parameters g) (\<lambda>generics.
     bindP (expect g (tk TkLeftBrace) ''expected `{` after trait name'') (\<lambda>_.
     bindP (until_brace g (parse_trait_member g) ([], [])) (\<lambda>(types, methods).
     bindP (expect g (tk TkRightBrace) ''expected `}` after trait'') (\<lambda>end.
     returnP \<lparr>trait_name = name, trait_name_span = name_span, trait_generics = generics,
       trait_associated = types, trait_methods = methods,
       trait_span = Span_through (token_span start) (token_span end)\<rparr>))))))"

definition parse_function :: "grammar \<Rightarrow> function_decl parse" where
  "parse_function g =
     bindP (match_token (kw TkAsync)) (\<lambda>asynchronous.
     bindP (expect g (kw TkFn) ''expected `fn`'') (\<lambda>start.
     bindP (expect_identifier g ''expected function name'') (\<lambda>(name, name_span).
     bindP (parse_generic_parameters g) (\<lambda>generics.
     bindP (parse_parameters g) (\<lambda>parameters.
     bindP (parse_return_type g) (\<lambda>return_type.
     bindP (parse_capabilities g) (\<lambda>capabilities.
     bindP (match_token (tk TkEqual)) (\<lambda>equal.
     bindP
       (if equal then
          if return_type = None
          then bindP previous (\<lambda>t. parse_error ''a concise function requires an explicit return type'' (token_span t))
          else bindP (parse_expression g) (\<lambda>value.
            bindP (match_token (tk TkSemicolon)) (\<lambda>_.
            returnP (Block [Spanned (S_Return (Some value)) (sp value)] (sp value))))
        else parse_block g) (\<lambda>body.
     returnP \<lparr>fn_asynchronous = asynchronous, fn_name = name, fn_name_span = name_span, fn_generics = generics,
       fn_parameters = parameters, fn_return_type = return_type, fn_capabilities = capabilities, fn_body = body,
       fn_external = None, fn_exported = False, fn_span = Span_through (token_span start) (block_span body)\<rparr>)))))))))"

definition parse_impl_member ::
  "grammar \<Rightarrow> (string \<times> type_name \<times> span) list \<times> function_decl list
     \<Rightarrow> ((string \<times> type_name \<times> span) list \<times> function_decl list) parse" where
  "parse_impl_member g = (\<lambda>(types, methods).
     bindP (match_token (kw TkType)) (\<lambda>b.
     if b
     then bindP (expect_identifier g ''expected associated type name'') (\<lambda>(name, s).
       bindP (expect g (tk TkEqual) ''expected `=` in associated type definition'') (\<lambda>_.
       bindP (parse_type_name g) (\<lambda>ty.
       bindP (match_token (tk TkSemicolon)) (\<lambda>_. returnP (types @ [(name, ty, s)], methods)))))
     else bindP (parse_function g) (\<lambda>m. returnP (types, methods @ [m]))))"

definition parse_implementation :: "grammar \<Rightarrow> impl_declaration parse" where
  "parse_implementation g =
     bindP (expect g (kw TkImpl) ''expected `impl`'') (\<lambda>start.
     bindP (parse_generic_parameters g) (\<lambda>generics.
     bindP (parse_type_name g) (\<lambda>first.
     bindP (match_token (kw TkFor)) (\<lambda>b.
     bindP (if b then bindP (parse_type_name g) (\<lambda>ty. returnP (Some first, ty)) else returnP (None, first)) (\<lambda>(trait, target).
     bindP (expect g (tk TkLeftBrace) ''expected `{` after implementation target'') (\<lambda>_.
     bindP (until_brace g (parse_impl_member g) ([], [])) (\<lambda>(types, methods).
     bindP (expect g (tk TkRightBrace) ''expected `}` after implementation'') (\<lambda>end.
     returnP \<lparr>impl_generics = generics, impl_trait = trait, impl_target = target, impl_associated = types,
       impl_methods = methods, impl_span = Span_through (token_span start) (token_span end)\<rparr>))))))))"

definition expect_abi :: "grammar \<Rightarrow> string \<Rightarrow> string \<Rightarrow> string \<Rightarrow> span parse" where
  "expect_abi g message what help =
     bindP (expect_identifier g message) (\<lambda>(abi, abi_span).
     if abi \<noteq> ''C'' then error_help (''unsupported '' @ what @ '' ABI `'' @ abi @ ''`'') abi_span help
     else returnP abi_span)"

definition parse_export_function :: "grammar \<Rightarrow> function_decl parse" where
  "parse_export_function g =
     bindP (expect g (kw TkExport) ''expected `export`'') (\<lambda>start.
     bindP (expect_abi g ''expected ABI name after `export`'' ''export''
              ''the stable exported ABI is written as `export C fn name(...)`'') (\<lambda>_.
     bindP (parse_function g) (\<lambda>f.
     returnP (f\<lparr>fn_exported := True, fn_span := Span_through (token_span start) (fn_span f)\<rparr>))))"

definition export_declaration_is_struct :: "parser \<Rightarrow> bool" where
  "export_declaration_is_struct st \<longleftrightarrow>
     kind_at 1 st = Some (TkIdentifier ''C'') \<and> kind_at 2 st = Some (kw TkStruct)"

definition parse_export_struct :: "grammar \<Rightarrow> struct_declaration parse" where
  "parse_export_struct g =
     bindP (expect g (kw TkExport) ''expected `export`'') (\<lambda>start.
     bindP (expect_abi g ''expected ABI name after `export`'' ''export''
              ''a stable record layout is written as `export C struct Name { ... }`'') (\<lambda>_.
     bindP (parse_struct g False) (\<lambda>d.
     returnP (d\<lparr>struct_c_abi := True, struct_span := Span_through (token_span start) (struct_span d)\<rparr>))))"

text \<open>The library name of an \<^verbatim>\<open>extern\<close> block, and one round of the loop over its functions.\<close>

definition parse_extern_library :: "grammar \<Rightarrow> string option parse" where
  "parse_extern_library g =
     bindP (match_token (tk TkLeftParen)) (\<lambda>paren.
     if \<not> paren then returnP None
     else bindP advance_token (\<lambda>t.
       case token_kind t of
         TkString library \<Rightarrow>
           bindP (expect g (tk TkRightParen) ''expected `)` after external library name'') (\<lambda>_. returnP (Some library))
       | _ \<Rightarrow> parse_error ''expected a library name string'' (token_span t)))"

definition parse_extern_function ::
  "grammar \<Rightarrow> string option \<Rightarrow> function_decl list \<Rightarrow> function_decl list parse" where
  "parse_extern_function g library fs =
     bindP (expect g (kw TkFn) ''expected an external function declaration'') (\<lambda>function_start.
     bindP (expect_identifier g ''expected external function name'') (\<lambda>(name, name_span).
     bindP (parse_generic_parameters g) (\<lambda>generics.
     bindP (parse_parameters g) (\<lambda>parameters.
     bindP (parse_return_type g) (\<lambda>return_type.
     bindP previous (\<lambda>prev.
     let end = (case return_type of Some ty \<Rightarrow> ty_span ty | None \<Rightarrow> token_span prev) in
     bindP (check (tk TkLeftBrace)) (\<lambda>brace.
     bindP (check (tk TkEqual)) (\<lambda>equal.
     if brace \<or> equal
     then bindP peek_token (\<lambda>t.
       parse_error ''an external function is a declaration and cannot have a DISP body'' (token_span t))
     else
       bindP (match_token (tk TkSemicolon)) (\<lambda>_.
       bindP (match_token (tk TkComma)) (\<lambda>_.
       returnP (fs @ [\<lparr>fn_asynchronous = False, fn_name = name, fn_name_span = name_span, fn_generics = generics,
         fn_parameters = parameters, fn_return_type = return_type,
         fn_capabilities = Some [\<lparr>use_capability = Foreign, use_span = token_span function_start\<rparr>],
         fn_body = Block [] end,
         fn_external = Some \<lparr>external_abi = AbiC, external_library = library, external_link_name = name\<rparr>,
         fn_exported = False, fn_span = Span_through (token_span function_start) end\<rparr>])))))))))))"

definition parse_extern_block :: "grammar \<Rightarrow> function_decl list parse" where
  "parse_extern_block g =
     bindP (expect g (kw TkExtern) ''expected `extern`'') (\<lambda>start.
     bindP (expect_abi g ''expected ABI name after `extern`'' ''external''
              ''the defined foreign ABI is written as `extern C { ... }`'') (\<lambda>abi_span.
     bindP (parse_extern_library g) (\<lambda>library.
     bindP (expect g (tk TkLeftBrace) ''expected `{` after external ABI declaration'') (\<lambda>_.
     bindP (until_brace g (parse_extern_function g library) []) (\<lambda>fs.
     bindP (expect g (tk TkRightBrace) ''expected `}` after external declarations'') (\<lambda>_.
     if fs = []
     then parse_error ''an external block must declare at least one function'' (Span_through (token_span start) abi_span)
     else returnP fs))))))"

section \<open>Programs\<close>

definition publish_item :: "bool \<Rightarrow> string \<Rightarrow> span \<Rightarrow> program \<Rightarrow> program" where
  "publish_item public name s p = (if public then p\<lparr>public_items := public_items p @ [Spanned name s]\<rparr> else p)"

text \<open>One round of the loop of \<^verbatim>\<open>parse\<close>, after the optional \<^verbatim>\<open>pub\<close>: the declarations so far.\<close>

definition parse_item :: "grammar \<Rightarrow> bool \<Rightarrow> program \<Rightarrow> program parse" where
  "parse_item g public p =
     bindP peek_token (\<lambda>t.
     let k = token_kind t in
     if k = kw TkUse
     then bindP (parse_import g public) (\<lambda>d. returnP (p\<lparr>prog_imports := prog_imports p @ [d]\<rparr>))
     else if k = kw TkStruct \<or> k = kw TkData
     then bindP (parse_struct g (k = kw TkData)) (\<lambda>d.
       returnP ((publish_item public (struct_name d) (struct_name_span d) p)\<lparr>prog_structs := prog_structs p @ [d]\<rparr>))
     else if k = kw TkEnum
     then bindP (parse_enum g) (\<lambda>d.
       returnP ((publish_item public (enum_name d) (enum_name_span d) p)\<lparr>prog_enums := prog_enums p @ [d]\<rparr>))
     else if k = kw TkFn \<or> k = kw TkAsync
     then bindP (parse_function g) (\<lambda>d.
       returnP ((publish_item public (fn_name d) (fn_name_span d) p)\<lparr>prog_functions := prog_functions p @ [d]\<rparr>))
     else if k = kw TkExport
     then if public
       then bindP previous (\<lambda>prev.
         parse_error ''`export C` already defines external visibility and cannot be combined with `pub`'' (token_span prev))
       else (\<lambda>st. if export_declaration_is_struct st
         then bindP (parse_export_struct g) (\<lambda>d. returnP (p\<lparr>prog_structs := prog_structs p @ [d]\<rparr>)) st
         else bindP (parse_export_function g) (\<lambda>d. returnP (p\<lparr>prog_functions := prog_functions p @ [d]\<rparr>)) st)
     else if k = kw TkExtern
     then bindP (parse_extern_block g) (\<lambda>ds.
       returnP ((fold (\<lambda>d. publish_item public (fn_name d) (fn_name_span d)) ds p)
         \<lparr>prog_functions := prog_functions p @ ds\<rparr>))
     else if k = kw TkTrait
     then bindP (parse_trait g) (\<lambda>d.
       returnP ((publish_item public (trait_name d) (trait_name_span d) p)\<lparr>prog_traits := prog_traits p @ [d]\<rparr>))
     else if k = kw TkImpl
     then if public
       then bindP previous (\<lambda>prev.
         parse_error ''`pub` applies to named declarations, not implementation blocks'' (token_span prev))
       else bindP (parse_implementation g) (\<lambda>d. returnP (p\<lparr>implementations := implementations p @ [d]\<rparr>))
     else parse_error ''expected a top-level declaration or `use` import'' (token_span t))"

definition parse_round :: "grammar \<Rightarrow> program \<Rightarrow> (program \<times> bool) parse" where
  "parse_round g p =
     bindP (check TkEof) (\<lambda>eof.
     if eof then returnP (p, False)
     else bindP (match_token (kw TkPub)) (\<lambda>public.
       bindP (parse_item g public p) (\<lambda>p'. returnP (p', True))))"

definition parse_program :: "grammar \<Rightarrow> program parse" where
  "parse_program g =
     bindP (check (kw TkModule)) (\<lambda>b.
     bindP (if b then bindP (parse_module_declaration g) (\<lambda>m. returnP (Some m)) else returnP None) (\<lambda>m.
     loopP (g_fuel g) (parse_round g)
       \<lparr>source_files = [], prog_module = m, prog_imports = [], public_items = [], prog_structs = [], prog_enums = [],
         prog_traits = [], implementations = [], prog_functions = []\<rparr>))"

text \<open>
  \<^verbatim>\<open>Parser::new(tokens).parse()\<close>. The depth is enough: a method consumes a token before it calls itself
  again, and every further depth gives the same result.
\<close>

definition parse_depth :: "token list \<Rightarrow> nat" where
  "parse_depth ts = length ts + 1"

definition parse :: "parse_env \<Rightarrow> token list \<Rightarrow> (diagnostic, program) outcome" where
  "parse env ts =
     bindO (parse_program (grammar_of env (parse_depth ts)) (Parser_new ts)) (\<lambda>(p, _). Ok p)"

end
