(* ===== verification/Parser_Progress.thy ===== *)
theory Parser_Progress
  imports ParserDecl
begin

text \<open>
  Progress of the parser (\<^verbatim>\<open>src/compiler/src/parser.rs\<close>). Every method of \<^verbatim>\<open>Parser\<close> is given a contract
  \<open>good r m C\<close>: on a token list that ends with \<^verbatim>\<open>Eof\<close>, with at most \<open>r\<close> tokens to go, it never indexes out
  of range and never runs out of depth, it consumes at least \<open>C x\<close> tokens before it returns \<open>x\<close>, and it leaves
  the recursion counter as it found it. The rules for the combinators are proved once, the contract of each
  method follows by applying them along its definition, and \<open>grammar_good\<close> closes the recursion: the grammar of
  depth \<open>n\<close> is good for every input with fewer than \<open>n\<close> tokens to go.
\<close>

section \<open>States and progress\<close>

definition cur_token :: "parser \<Rightarrow> token" where
  "cur_token st = p_tokens st ! p_current st"

text \<open>The tokens end with \<^verbatim>\<open>Eof\<close> and the parser has not run past it.\<close>

definition parser_wf :: "parser \<Rightarrow> bool" where
  "parser_wf st \<longleftrightarrow> p_tokens st \<noteq> [] \<and> p_current st < length (p_tokens st) \<and> token_kind (last (p_tokens st)) = TkEof"

definition tokens_left :: "parser \<Rightarrow> nat" where
  "tokens_left st = length (p_tokens st) - 1 - p_current st"

text \<open>
  \<open>goodp P r m C\<close>: on every well-formed state whose current token satisfies \<open>P\<close> and that has at most
  \<open>r\<close> tokens left, \<open>m\<close> does not panic; when it returns \<open>x\<close> it has consumed at least \<open>C x\<close> tokens, and
  the state is well formed and at the same depth.
\<close>

definition moved :: "nat \<Rightarrow> parser \<Rightarrow> parser \<Rightarrow> bool" where
  "moved c st st' \<longleftrightarrow> parser_wf st' \<and> tokens_left st' + c \<le> tokens_left st \<and> recursion_depth st' = recursion_depth st"

definition goodp :: "(token \<Rightarrow> bool) \<Rightarrow> nat \<Rightarrow> 'a parse \<Rightarrow> ('a \<Rightarrow> nat) \<Rightarrow> bool" where
  "goodp P r m C \<longleftrightarrow> (\<forall>st. parser_wf st \<longrightarrow> tokens_left st \<le> r \<longrightarrow> P (cur_token st) \<longrightarrow>
     (case m st of Ok (x, st') \<Rightarrow> moved (C x) st st' | Err e \<Rightarrow> True | Panic \<Rightarrow> False))"

abbreviation good :: "nat \<Rightarrow> 'a parse \<Rightarrow> ('a \<Rightarrow> nat) \<Rightarrow> bool" where
  "good \<equiv> goodp (\<lambda>_. True)"

abbreviation consumes_one :: "'a \<Rightarrow> nat" where
  "consumes_one \<equiv> \<lambda>_. 1"

lemma goodpI:
  assumes "\<And>st. parser_wf st \<Longrightarrow> tokens_left st \<le> r \<Longrightarrow> P (cur_token st) \<Longrightarrow> m st \<noteq> Panic"
    and "\<And>st x st'. parser_wf st \<Longrightarrow> tokens_left st \<le> r \<Longrightarrow> P (cur_token st) \<Longrightarrow> m st = Ok (x, st') \<Longrightarrow> moved (C x) st st'"
  shows "goodp P r m C"
  unfolding goodp_def using assms by (auto split: outcome.split)

lemma goodpD:
  assumes "goodp P r m C" "parser_wf st" "tokens_left st \<le> r" "P (cur_token st)"
  shows "m st \<noteq> Panic" "m st = Ok (x, st') \<Longrightarrow> moved (C x) st st'"
  using assms by (auto simp: goodp_def split: outcome.splits)

lemma good_any: "good r m C \<Longrightarrow> goodp P r m C"
  by (simp add: goodp_def)

lemma good_le: "goodp P r m C \<Longrightarrow> r' \<le> r \<Longrightarrow> goodp P r' m C"
  by (auto simp: goodp_def)

lemma good_weaken: "goodp P r m C \<Longrightarrow> (\<And>x. D x \<le> C x) \<Longrightarrow> goodp P r m D"
proof (rule goodpI)
  fix st x st' assume g: "goodp P r m C" and le: "\<And>x. D x \<le> C x"
    and st: "parser_wf st" "tokens_left st \<le> r" "P (cur_token st)" and m: "m st = Ok (x, st')"
  show "moved (D x) st st'" using goodpD(2) [OF g st m] le [of x] by (auto simp: moved_def)
qed (rule goodpD(1))

lemma good_bind:
  assumes m: "goodp P r m C" and f: "\<And>x. C x \<le> r \<Longrightarrow> good (r - C x) (f x) (\<lambda>y. D y - C x)"
  shows "goodp P r (bindP m f) D"
proof (rule goodpI)
  fix st assume st: "parser_wf st" "tokens_left st \<le> r" "P (cur_token st)"
  note mst = goodpD [OF m st]
  have next_step: "f x st' \<noteq> Panic" "f x st' = Ok (y, st'') \<Longrightarrow> moved (D y) st st''" if x: "m st = Ok (x, st')" for x st' y st''
  proof -
    have mv: "parser_wf st'" "tokens_left st' + C x \<le> tokens_left st" "recursion_depth st' = recursion_depth st"
      using mst(2) [OF x] by (auto simp: moved_def)
    then have c: "C x \<le> r" "tokens_left st' \<le> r - C x" using st(2) by auto
    note fst = goodpD [OF f [OF c(1)] mv(1) c(2) TrueI]
    show "f x st' \<noteq> Panic" by (rule fst(1))
    show "moved (D y) st st''" if "f x st' = Ok (y, st'')" using fst(2) [OF that] mv by (auto simp: moved_def)
  qed
  show "bindP m f st \<noteq> Panic" using mst(1) next_step(1) by (cases "m st") (auto simp: bindP_def)
  show "moved (D y) st st''" if "bindP m f st = Ok (y, st'')" for y st''
    using that next_step(2) by (auto simp: bindP_def outcome_simps)
qed

lemma good_return: "D x = 0 \<Longrightarrow> goodp P r (returnP x) D"
  by (simp add: goodp_def returnP_def moved_def)

lemma good_fail: "goodp P r (failP d) D" "goodp P r (parse_error m s) D" "goodp P r (error_help m s h) D"
  by (simp_all add: goodp_def failP_def parse_error_def error_help_def)

lemma good_if: "(b \<Longrightarrow> goodp P r m D) \<Longrightarrow> (\<not> b \<Longrightarrow> goodp P r n D) \<Longrightarrow> goodp P r (if b then m else n) D"
  by simp

lemma good_case_prod: "(\<And>a b. x = (a, b) \<Longrightarrow> goodp P r (f a b) D) \<Longrightarrow> goodp P r (case x of (a, b) \<Rightarrow> f a b) D"
  by (cases x) simp

lemma good_case_option:
  "(x = None \<Longrightarrow> goodp P r m D) \<Longrightarrow> (\<And>a. x = Some a \<Longrightarrow> goodp P r (f a) D) \<Longrightarrow>
     goodp P r (case x of None \<Rightarrow> m | Some a \<Rightarrow> f a) D"
  by (cases x) simp_all

lemma good_let: "goodp P r (f v) D \<Longrightarrow> goodp P r (let x = v in f x) D"
  by simp

text \<open>Reading the current token fixes it for what follows.\<close>

lemma peek_wf: "parser_wf st \<Longrightarrow> peek_token st = Ok (cur_token st, st)"
  by (auto simp: peek_token_def parser_wf_def cur_token_def min_def index_at_def)

lemma good_peek: "(\<And>t. P t \<Longrightarrow> goodp (\<lambda>u. u = t) r (f t) D) \<Longrightarrow> goodp P r (bindP peek_token f) D"
  by (auto simp: goodp_def bindP_def peek_wf)

lemma wf_advance:
  assumes "parser_wf st" "token_kind (cur_token st) \<noteq> TkEof"
  shows "parser_wf (st\<lparr>p_current := Suc (p_current st)\<rparr>)" "Suc (tokens_left (st\<lparr>p_current := Suc (p_current st)\<rparr>)) \<le> tokens_left st"
proof -
  have "p_current st \<noteq> length (p_tokens st) - 1"
    using assms by (auto simp: parser_wf_def cur_token_def last_conv_nth)
  then show "parser_wf (st\<lparr>p_current := Suc (p_current st)\<rparr>)"
      "Suc (tokens_left (st\<lparr>p_current := Suc (p_current st)\<rparr>)) \<le> tokens_left st"
    using assms by (auto simp: parser_wf_def tokens_left_def)
qed

lemma advance_wf:
  "parser_wf st \<Longrightarrow> advance_token st =
     Ok (cur_token st, if token_kind (cur_token st) = TkEof then st else st\<lparr>p_current := p_current st + 1\<rparr>)"
  by (simp add: advance_token_def bindP_def peek_wf)

definition token_width :: "token \<Rightarrow> nat" where
  "token_width t = (if token_kind t = TkEof then 0 else 1)"

lemma good_advance: "good r advance_token token_width"
  by (auto simp: goodp_def advance_wf moved_def token_width_def wf_advance)

lemma good_advance_at:
  assumes f: "\<And>t. P t \<Longrightarrow> token_width t \<le> r \<Longrightarrow> good (r - token_width t) (f t) (\<lambda>y. D y - token_width t)"
  shows "goodp P r (bindP advance_token f) D"
proof (rule goodpI)
  fix st assume st: "parser_wf st" "tokens_left st \<le> r" "P (cur_token st)"
  let ?t = "cur_token st"
  obtain st' where a: "advance_token st = Ok (?t, st')" using advance_wf [OF st(1)] by simp
  from goodpD(2) [OF good_advance st(1,2) TrueI a] have mv: "moved (token_width ?t) st st'" .
  then have le: "token_width ?t \<le> r" "tokens_left st' \<le> r - token_width ?t" and wf: "parser_wf st'"
    using st(2) by (auto simp: moved_def)
  note fst = goodpD [OF f [OF st(3) le(1)] wf le(2) TrueI]
  show "bindP advance_token f st \<noteq> Panic" using fst(1) by (simp add: bindP_def a)
  show "moved (D y) st st''" if "bindP advance_token f st = Ok (y, st'')" for y st''
    using that fst(2) [of y st''] mv by (auto simp: bindP_def a moved_def)
qed

section \<open>Token access\<close>

lemma good_check: "good r (check k) (\<lambda>_. 0)"
  by (auto simp: goodp_def check_def bindP_def peek_wf returnP_def moved_def)

lemma good_check_next: "good r (check_next k) (\<lambda>_. 0)"
  by (auto simp: goodp_def check_next_def moved_def index_at_def parser_wf_def)

lemma good_check_identifier: "good r (check_identifier k) (\<lambda>_. 0)"
  by (auto simp: goodp_def check_identifier_def bindP_def peek_wf returnP_def moved_def)

lemma good_peek_token: "good r peek_token (\<lambda>_. 0)"
  by (auto simp: goodp_def peek_wf moved_def)

lemma good_previous: "good r previous (\<lambda>_. 0)"
  by (auto simp: goodp_def previous_def moved_def index_at_def parser_wf_def)

lemma same_variant_Eof: "same_variant TkEof k \<longleftrightarrow> k = TkEof" "same_variant k TkEof \<longleftrightarrow> k = TkEof"
  by (cases k; simp)+

lemma good_match_token: "k \<noteq> TkEof \<Longrightarrow> good r (match_token k) of_bool"
  by (auto simp: goodp_def match_token_def check_def bindP_def peek_wf returnP_def moved_def advance_wf wf_advance
      same_variant_Eof)

lemma good_expect: "k \<noteq> TkEof \<Longrightarrow> good r (expect g k m) consumes_one"
  using wf_advance
  by (auto simp: goodp_def expect_def check_def bindP_def peek_wf returnP_def moved_def advance_wf
      same_variant_Eof parse_error_def failP_def)

lemma good_expect_identifier: "good r (expect_identifier g m) consumes_one"
  unfolding expect_identifier_def
  by (rule good_advance_at)
     (auto simp: token_width_def good_return good_fail split: token_kind.split)

lemma good_type_close: "good r (expect_type_close g) (\<lambda>_. 0)"
proof -
  have split: "goodp (\<lambda>t. token_kind t \<noteq> TkEof) r split_shift (\<lambda>_. 0)"
  proof (rule goodpI)
    fix st x st'
    assume st: "parser_wf st" "tokens_left st \<le> r" "token_kind (cur_token st) \<noteq> TkEof"
    show "split_shift st \<noteq> Panic" using st by (auto simp: split_shift_def bindP_def peek_wf parser_wf_def Let_def)
    show "moved 0 st st'" if "split_shift st = Ok (x, st')"
      using that st
      by (auto simp: split_shift_def bindP_def peek_wf Let_def moved_def tokens_left_def parser_wf_def
          cur_token_def last_conv_nth nth_list_update split: if_splits)
  qed
  show ?thesis
  proof (rule goodpI)
    fix st assume st: "parser_wf st" "tokens_left st \<le> r"
    let ?k = "token_kind (cur_token st)"
    have e: "expect_type_close g st =
        (if same_variant ?k (tk TkGreater) then advance_token st else if same_variant ?k (tk TkShiftRight) then split_shift st
         else expect g (tk TkGreater) ''expected `>` after type arguments'' st)"
      using st(1) by (simp add: expect_type_close_def bindP_def check_def peek_wf returnP_def)
    have k: "?k \<noteq> TkEof" if "same_variant ?k (tk TkShiftRight)" using that by (auto simp: same_variant_Eof)
    note g = goodpD [OF good_advance st TrueI] goodpD [OF split st] goodpD [OF good_expect st TrueI]
    show "expect_type_close g st \<noteq> Panic" unfolding e using g(1,3,5) k by auto
    show "moved 0 st st'" if x: "expect_type_close g st = Ok (x, st')" for x st'
    proof (cases "same_variant ?k (tk TkGreater)")
      case True
      then have "advance_token st = Ok (x, st')" using x e by simp
      from g(2) [OF this] show ?thesis by (simp add: moved_def)
    next
      case False
      show ?thesis
      proof (cases "same_variant ?k (tk TkShiftRight)")
        case True
        then have "split_shift st = Ok (x, st')" using x e False by simp
        from g(4) [OF k [OF True] this] show ?thesis .
      next
        case shift: False
        then have "expect g (tk TkGreater) ''expected `>` after type arguments'' st = Ok (x, st')" using x e False by simp
        from g(6) [OF _ this] show ?thesis by (simp add: moved_def)
      qed
    qed
  qed
qed

lemma good_with_recursion:
  assumes "good r m C"
  shows "good r (with_recursion m) C"
proof (rule goodpI)
  fix st assume st: "parser_wf st" "tokens_left st \<le> r"
  let ?st = "st\<lparr>recursion_depth := recursion_depth st + 1\<rparr>"
  have st1: "parser_wf ?st" "tokens_left ?st \<le> r" using st by (simp_all add: parser_wf_def tokens_left_def)
  note m = goodpD [OF assms st1 TrueI]
  show "with_recursion m st \<noteq> Panic"
    using m st(1) by (cases "m ?st")
      (auto simp: with_recursion_def bindP_def peek_wf parse_error_def failP_def moved_def)
  show "moved (C x) st st'" if "with_recursion m st = Ok (x, st')" for x st'
    using that m(2) st(1)
    by (auto simp: with_recursion_def bindP_def peek_wf parse_error_def failP_def moved_def parser_wf_def tokens_left_def
        outcome_simps split: if_splits)
qed

section \<open>Loops\<close>

lemma good_loop:
  assumes body: "\<And>s. good r (body s) (\<lambda>(_, again). of_bool again)" and n: "r < n"
  shows "good r (loopP n body s) (\<lambda>_. 0)"
  using assms
proof (induction n arbitrary: s r)
  case (Suc n)
  have next_round: "good (r - (case x of (_, again) \<Rightarrow> of_bool again))
      ((\<lambda>(s', again). if again then loopP n body s' else returnP s') x) (\<lambda>_. 0 - (case x of (_, again) \<Rightarrow> of_bool again))"
    if "(case x of (_, again) \<Rightarrow> of_bool again) \<le> r" for x
  proof (cases x)
    case (Pair s' again)
    show ?thesis
    proof (cases again)
      case True
      then have "r - 1 < n" using Suc.prems(2) that Pair by auto
      from Suc.IH [OF good_le [OF Suc.prems(1)] this] True Pair show ?thesis by simp
    qed (simp add: Pair good_return)
  qed
  show ?case unfolding loopP.simps by (rule good_bind [OF Suc.prems(1) next_round])
qed simp

section \<open>Grammars\<close>

definition gram_ok :: "nat \<Rightarrow> grammar \<Rightarrow> bool" where
  "gram_ok r g \<longleftrightarrow> r < g_fuel g \<and> good r (g_type_name g) consumes_one \<and> good r (g_pattern g) consumes_one
     \<and> good r (g_expression g) consumes_one \<and> good r (g_unary g) consumes_one \<and> good r (g_block g) consumes_one
     \<and> good r (g_if g) consumes_one"

text \<open>What a method may assume of the grammar before it has consumed a token.\<close>

definition gram_pre :: "nat \<Rightarrow> grammar \<Rightarrow> bool" where
  "gram_pre r g \<longleftrightarrow> (\<forall>r' < r. gram_ok r' g)"

lemma gram_ok_le: "gram_ok r g \<Longrightarrow> r' \<le> r \<Longrightarrow> gram_ok r' g"
  unfolding gram_ok_def by (auto intro: good_le)

lemma gram_pre_ok: "gram_pre r g \<Longrightarrow> r' < r \<Longrightarrow> gram_ok r' g"
  by (simp add: gram_pre_def)

lemma gram_pre_le: "gram_pre r g \<Longrightarrow> r' \<le> r \<Longrightarrow> gram_pre r' g"
  by (auto simp: gram_pre_def)

lemma gram_ok_pre: "gram_ok r g \<Longrightarrow> r' \<le> r \<Longrightarrow> gram_pre r' g"
  by (auto simp: gram_pre_def intro: gram_ok_le)

lemma gram_okD:
  assumes "gram_ok r g"
  shows "good r (g_type_name g) consumes_one" "good r (g_pattern g) consumes_one" "good r (g_expression g) consumes_one"
    "good r (g_unary g) consumes_one" "good r (g_block g) consumes_one" "good r (g_if g) consumes_one"
  using assms by (simp_all add: gram_ok_def)

lemma gram_fuel: "gram_ok r g \<Longrightarrow> r < g_fuel g"
  by (simp add: gram_ok_def)

lemma good_bind_if:
  "goodp P r (if b then m1 else m2) (\<lambda>_. 0) \<Longrightarrow> (\<And>x. good r (f x) D) \<Longrightarrow> goodp P r (bindP (if b then m1 else m2) f) D"
  by (rule good_bind [where C = "\<lambda>_. 0"]) simp_all

lemma good_case_kind:
  assumes "\<And>a. k = TkKeyword a \<Longrightarrow> goodp P r (f1 a) D" "\<And>a. k = TkSymbol a \<Longrightarrow> goodp P r (f2 a) D"
    "\<And>a. k = TkIdentifier a \<Longrightarrow> goodp P r (f3 a) D" "\<And>a. k = TkInteger a \<Longrightarrow> goodp P r (f4 a) D"
    "\<And>a. k = TkFloat a \<Longrightarrow> goodp P r (f5 a) D" "\<And>a. k = TkString a \<Longrightarrow> goodp P r (f6 a) D"
    "\<And>a. k = TkCharacter a \<Longrightarrow> goodp P r (f7 a) D" "k = TkEof \<Longrightarrow> goodp P r f8 D"
  shows "goodp P r (case_token_kind f1 f2 f3 f4 f5 f6 f7 f8 k) D"
  using assms by (cases k) simp_all

lemmas good_steps = good_case_kind good_case_prod good_case_option good_let good_if good_fail good_bind_if good_bind good_return

lemmas good_leaves = good_check good_check_next good_check_identifier good_previous good_match_token good_expect
  good_expect_identifier good_type_close good_advance good_peek_token gram_okD

lemmas good_tails = good_leaves [THEN good_weaken]

lemmas good_basic = good_steps good_leaves good_tails

lemma good_gloop:
  "gram_ok r g \<Longrightarrow> (\<And>s. good r (body s) (\<lambda>(_, again). of_bool again)) \<Longrightarrow> good r (loopP (g_fuel g) body s) (\<lambda>_. 0)"
  by (rule good_loop) (simp_all add: gram_fuel)

lemmas ok_side = gram_ok_le gram_ok_pre

lemmas pre_side = gram_pre_ok gram_pre_le

lemma good_sep_by:
  assumes "gram_ok r g" "good r item consumes_one"
  shows "good r (sep_by g item sep) (\<lambda>_. 0)"
  unfolding sep_by_def
proof (rule good_loop [OF _ gram_fuel [OF assms(1)]])
  show "good r (bindP item (\<lambda>x. bindP (match_token (tk sep)) (\<lambda>m. returnP (xs @ [x], m)))) (\<lambda>(_, again). of_bool again)" for xs
    by (rule good_bind [OF assms(2)] good_bind [OF good_match_token] good_return | (simp; fail))+
qed

lemma good_sep_list:
  assumes "gram_ok r g" "good r item consumes_one"
  shows "good r (sep_list g item sep close) (\<lambda>_. 0)"
  unfolding sep_list_def
  by (rule good_basic good_weaken [OF good_le [OF good_sep_by [OF assms]]] | (simp; fail))+

lemma good_until_brace:
  assumes "gram_ok r g" "\<And>s. good r (body s) consumes_one"
  shows "good r (until_brace g body s) (\<lambda>_. 0)"
  unfolding until_brace_def
proof (rule good_loop [OF _ gram_fuel [OF assms(1)]])
  show "good r (bindP (check (tk TkRightBrace)) (\<lambda>b. bindP (check TkEof) (\<lambda>e.
      if b \<or> e then returnP (s, False) else bindP (body s) (\<lambda>s'. returnP (s', True))))) (\<lambda>(_, again). of_bool again)" for s
    by (rule good_bind [OF good_check] good_if good_return good_bind [OF good_le [OF assms(2)]] | (simp; fail))+
qed

section \<open>Types\<close>

lemma good_compound_types:
  assumes "gram_ok r g"
  shows "good r (parse_function_type g) (\<lambda>_. 0)" "good r (parse_array_type g) (\<lambda>_. 0)"
    "good r (parse_reference_type g) (\<lambda>_. 0)"
  unfolding parse_function_type_def parse_array_type_def parse_reference_type_def
  by (rule good_basic good_sep_list ok_side [OF assms] | (simp; fail))+

lemma good_named_type:
  assumes "gram_pre r g"
  shows "good r (parse_named_type g) consumes_one"
  unfolding parse_named_type_def
  by (rule good_basic good_sep_by pre_side [OF assms] | (simp; fail))+

lemma good_type_name:
  assumes "gram_pre r g"
  shows "good r (parse_type_name g) consumes_one"
  unfolding parse_type_name_def
  by (rule good_steps good_leaves good_compound_types [THEN good_weaken] good_named_type [THEN good_weaken] pre_side [OF assms]
      | (simp; fail))+


section \<open>Parameters, capabilities and patterns\<close>

lemmas good_level1 = good_basic good_sep_by good_sep_list good_until_brace good_gloop good_type_name good_type_name [THEN good_weaken]

lemma good_parameter:
  assumes "gram_pre r g"
  shows "good r (parse_generic_parameter g) consumes_one" "good r (parse_parameter g) consumes_one"
    "good r (parse_closure_parameter g) consumes_one"
  unfolding parse_generic_parameter_def parse_parameter_def parse_closure_parameter_def
  by (rule good_level1 pre_side [OF assms] | (simp; fail))+

lemma good_parameters:
  assumes "gram_pre r g"
  shows "good r (parse_generic_parameters g) (\<lambda>_. 0)" "good r (parse_parameters g) consumes_one"
  unfolding parse_generic_parameters_def parse_parameters_def
  by (rule good_level1 good_parameter pre_side [OF assms] | (simp; fail))+

lemma good_capability: "good r (parse_capability g s) (\<lambda>(_, again). of_bool again)"
  unfolding parse_capability_def
  by (rule good_basic | (simp; fail))+

lemma good_capabilities:
  assumes "gram_pre r g"
  shows "good r (parse_capabilities g) (\<lambda>_. 0)"
  unfolding parse_capabilities_def
  by (rule good_level1 good_capability pre_side [OF assms] | (simp; fail))+

lemma good_pattern_field:
  assumes "gram_ok r g"
  shows "good r (parse_pattern_field g s) (\<lambda>(_, again). of_bool again)"
  unfolding parse_pattern_field_def
  by (rule good_basic ok_side [OF assms] | (simp; fail))+

lemma good_compound_patterns:
  assumes "gram_ok r g"
  shows "good r (parse_struct_pattern g n s) (\<lambda>_. 0)" "good r (parse_variant_pattern g n s) (\<lambda>_. 0)"
  unfolding parse_struct_pattern_def parse_variant_pattern_def
  by (rule good_level1 good_pattern_field ok_side [OF assms] | (simp; fail))+

lemma good_pattern_atom:
  assumes "gram_pre r g"
  shows "good r (parse_pattern_atom g) consumes_one"
  unfolding parse_pattern_atom_def
proof (rule good_advance_at, rule good_let)
  fix t assume w: "token_width t \<le> r"
  note side = pre_side [OF assms]
  have ident: "good (r - 1) (if name = ''_'' then returnP (Spanned P_Wildcard (token_span t))
      else if is_type_style (g_env g) name
      then bindP (match_token (tk TkLeftBrace)) (\<lambda>brace.
        if brace then parse_struct_pattern g name (token_span t) else parse_variant_pattern g name (token_span t))
      else returnP (Spanned (P_Binding name) (token_span t))) (\<lambda>_. 0)" if "1 \<le> r" for name
    using that by - (rule good_basic good_compound_patterns good_compound_patterns [THEN good_weaken] side | (simp; fail))+
  have minus: "good (r - 1) (bindP advance_token (\<lambda>magnitude. case token_kind magnitude of
           TkInteger v \<Rightarrow> returnP (Spanned (P_NegativeInteger v) (Span_through (token_span t) (token_span magnitude)))
         | _ \<Rightarrow> parse_error ''expected integer literal after `-` in pattern'' (token_span magnitude))) (\<lambda>_. 0)"
    by (rule good_basic | (simp; fail))+
  show "good (r - token_width t) (case token_kind t of
       TkSymbol TkMinus \<Rightarrow>
         bindP advance_token (\<lambda>magnitude.
         case token_kind magnitude of
           TkInteger v \<Rightarrow> returnP (Spanned (P_NegativeInteger v) (Span_through (token_span t) (token_span magnitude)))
         | _ \<Rightarrow> parse_error ''expected integer literal after `-` in pattern'' (token_span magnitude))
     | TkInteger v \<Rightarrow> returnP (Spanned (P_Integer v) (token_span t))
     | TkString v \<Rightarrow> returnP (Spanned (P_String v) (token_span t))
     | TkCharacter v \<Rightarrow> returnP (Spanned (P_Character v) (token_span t))
     | TkKeyword TkTrue \<Rightarrow> returnP (Spanned (P_Bool True) (token_span t))
     | TkKeyword TkFalse \<Rightarrow> returnP (Spanned (P_Bool False) (token_span t))
     | TkIdentifier name \<Rightarrow>
         if name = ''_'' then returnP (Spanned P_Wildcard (token_span t))
         else if is_type_style (g_env g) name
         then bindP (match_token (tk TkLeftBrace)) (\<lambda>brace.
           if brace then parse_struct_pattern g name (token_span t) else parse_variant_pattern g name (token_span t))
         else returnP (Spanned (P_Binding name) (token_span t))
     | found \<Rightarrow> parse_error (''expected pattern, found '' @ debug_kind (g_env g) found) (token_span t))
     (\<lambda>y. 1 - token_width t)"
  proof (cases "token_kind t")
    case (TkKeyword k)
    then show ?thesis by (cases k) (simp_all add: token_width_def good_return good_fail)
  next
    case (TkSymbol s)
    then show ?thesis using minus by (cases s) (simp_all add: token_width_def good_return good_fail)
  qed (use ident w in \<open>simp_all add: token_width_def good_return good_fail\<close>)
qed

lemma good_pattern:
  assumes "gram_pre r g"
  shows "good r (parse_pattern g) consumes_one"
  unfolding parse_pattern_def
  by (rule good_level1 good_pattern_atom pre_side [OF assms] | (simp; fail))+

section \<open>Expressions\<close>

lemma good_data_part:
  assumes "gram_ok r g"
  shows "good r (parse_data_part g) consumes_one"
proof (rule goodpI)
  fix st assume st: "parser_wf st" "tokens_left st \<le> r"
  let ?st = "st\<lparr>suppress_try := True\<rparr>"
  have st1: "parser_wf ?st" "tokens_left ?st \<le> r" using st by (simp_all add: parser_wf_def tokens_left_def)
  note m = goodpD [OF gram_okD(3) [OF assms] st1 TrueI]
  show "parse_data_part g st \<noteq> Panic" using m(1) by (cases "g_expression g ?st") (auto simp: parse_data_part_def)
  show "moved 1 st st'" if "parse_data_part g st = Ok (x, st')" for x st'
    using that m(2) by (auto simp: parse_data_part_def outcome_simps moved_def parser_wf_def tokens_left_def)
qed

lemma good_match_data_word: "good r (match_data_word w) of_bool"
  by (auto simp: goodp_def match_data_word_def bindP_def peek_wf returnP_def moved_def advance_wf wf_advance)

lemmas good_data = good_data_part good_match_data_word good_data_part [THEN good_weaken] good_match_data_word [THEN good_weaken]

lemma good_data_order:
  assumes "gram_ok r g"
  shows "good r (parse_data_order g) (\<lambda>_. 0)" "good r (parse_data_write g s b) (\<lambda>_. 0)" "good r (parse_data_remove g s) (\<lambda>_. 0)"
  unfolding parse_data_order_def parse_data_write_def parse_data_remove_def
  by (rule good_level1 good_data ok_side [OF assms] | (simp; fail))+

lemma good_data_query:
  assumes "gram_ok r g"
  shows "good r (parse_data_query g s k) (\<lambda>_. 0)"
  unfolding parse_data_query_def
  by (rule good_level1 good_data good_data_order ok_side [OF assms] | (simp; fail))+

lemma good_data_expression:
  assumes "gram_ok r g"
  shows "good r (parse_data_expression g s) (\<lambda>_. 0)"
  unfolding parse_data_expression_def
  by (rule good_level1 good_data good_data_order [THEN good_weaken] good_data_query [THEN good_weaken] ok_side [OF assms] | (simp; fail))+

lemma good_closure:
  assumes "gram_ok r g"
  shows "good r (parse_closure g s m b) (\<lambda>_. 0)"
  unfolding parse_closure_def
  by (rule good_level1 good_parameter ok_side [OF assms] | (simp; fail))+

lemma good_field_value:
  assumes "gram_pre r g"
  shows "good r (parse_field_value g fs) consumes_one" "good r (parse_match_arm g arms) consumes_one"
  unfolding parse_field_value_def parse_match_arm_def
  by (rule good_level1 good_pattern pre_side [OF assms] | (simp; fail))+

lemma good_compound_primary:
  assumes "gram_ok r g"
  shows "good r (parse_struct_construct g n s) (\<lambda>_. 0)" "good r (parse_match g s) (\<lambda>_. 0)"
    "good r (parse_parenthesized g s) (\<lambda>_. 0)" "good r (parse_array g s) (\<lambda>_. 0)"
  unfolding parse_struct_construct_def parse_match_def parse_parenthesized_def parse_array_def
  by (rule good_level1 good_field_value ok_side [OF assms] | (simp; fail))+

lemma good_looks_like: "good r looks_like_struct_construct (\<lambda>_. 0)"
  by (auto simp: goodp_def looks_like_struct_construct_def check_def bindP_def peek_wf returnP_def moved_def)

lemmas good_primaries = good_data_expression good_closure good_compound_primary

lemma good_primary:
  assumes "gram_pre r g"
  shows "good r (parse_primary g) consumes_one"
  unfolding parse_primary_def
proof (rule good_advance_at, rule good_let)
  fix t assume w: "token_width t \<le> r"
  have ok: "gram_ok (r - 1) g" if "1 \<le> r" using that by (intro gram_pre_ok [OF assms]) simp
  note p = good_primaries [OF ok]
  have ident: "good (r - 1) (bindP looks_like_struct_construct (\<lambda>b.
      if is_type_style (g_env g) name \<and> b then parse_struct_construct g name (token_span t)
      else returnP (Spanned (E_Identifier name) (token_span t)))) (\<lambda>_. 0)" if "1 \<le> r" for name
    using that by - (rule good_steps good_looks_like good_compound_primary(1) [THEN good_weaken] gram_ok_le [OF ok] | (simp; fail))+
  show "good (r - token_width t) (case token_kind t of
       TkInteger v \<Rightarrow> returnP (Spanned (E_Integer v) (token_span t))
     | TkFloat v \<Rightarrow> returnP (Spanned (E_Float v) (token_span t))
     | TkString v \<Rightarrow> returnP (Spanned (E_String v) (token_span t))
     | TkCharacter v \<Rightarrow> returnP (Spanned (E_Character v) (token_span t))
     | TkKeyword TkTrue \<Rightarrow> returnP (Spanned (E_Bool True) (token_span t))
     | TkKeyword TkFalse \<Rightarrow> returnP (Spanned (E_Bool False) (token_span t))
     | TkKeyword TkData \<Rightarrow> parse_data_expression g (token_span t)
     | TkSymbol TkOr \<Rightarrow> parse_closure g (token_span t) False False
     | TkSymbol TkOrOr \<Rightarrow> parse_closure g (token_span t) False True
     | TkIdentifier name \<Rightarrow>
         bindP looks_like_struct_construct (\<lambda>b.
         if is_type_style (g_env g) name \<and> b then parse_struct_construct g name (token_span t)
         else returnP (Spanned (E_Identifier name) (token_span t)))
     | TkKeyword TkMatch \<Rightarrow> parse_match g (token_span t)
     | TkSymbol TkLeftParen \<Rightarrow> parse_parenthesized g (token_span t)
     | TkSymbol TkLeftBracket \<Rightarrow> parse_array g (token_span t)
     | found \<Rightarrow> parse_error (''expected expression, found '' @ debug_kind (g_env g) found) (token_span t))
     (\<lambda>y. 1 - token_width t)"
  proof (cases "token_kind t")
    case (TkKeyword k)
    then show ?thesis using p w by (cases k) (simp_all add: token_width_def good_return good_fail)
  next
    case (TkSymbol s)
    then show ?thesis using p w by (cases s) (simp_all add: token_width_def good_return good_fail)
  qed (use ident w in \<open>simp_all add: token_width_def good_return good_fail\<close>)
qed

lemma good_argument:
  assumes "gram_ok r g"
  shows "good r (parse_argument g b) consumes_one" "good r (parse_field g e) (\<lambda>_. 0)" "good r (parse_index g e) (\<lambda>_. 0)"
  unfolding parse_argument_def parse_field_def parse_index_def
  by (rule good_level1 ok_side [OF assms] | (simp; fail))+

lemma good_call_node: "good r (call_node e args s) (\<lambda>_. 0)"
  by (auto simp: call_node_def good_return good_fail split: expression.split list.split)

lemma good_call_arguments:
  assumes "gram_ok r g"
  shows "good r (parse_call_arguments g e n) (\<lambda>_. 0)"
  unfolding parse_call_arguments_def
  by (rule good_level1 good_argument good_call_node ok_side [OF assms] | (simp; fail))+

lemma good_question: "good r (\<lambda>st. if suppress_try st then Ok (False, st) else match_token (tk TkQuestion) st) of_bool"
  using good_match_token [of "tk TkQuestion" r] by (auto simp: goodp_def moved_def)

lemma good_call_round:
  assumes "gram_pre r g"
  shows "good r (parse_call_round g s) (\<lambda>(_, again). of_bool again)"
  unfolding parse_call_round_def
  by (rule good_level1 good_call_arguments good_argument good_question pre_side [OF assms] | (simp; fail))+

lemma good_call:
  assumes "gram_pre r g"
  shows "good r (parse_call g) consumes_one"
  unfolding parse_call_def
  by (rule good_primary good_call_round good_level1 pre_side [OF assms] gram_ok_pre [OF gram_pre_ok [OF assms]] | (simp; fail))+

lemma good_unary_operand:
  assumes "gram_ok r g"
  shows "good r (parse_unary_operand g mk s) (\<lambda>_. 0)"
  unfolding parse_unary_operand_def
  by (rule good_level1 good_with_recursion ok_side [OF assms] | (simp; fail))+

lemma good_unary_prefix:
  assumes "gram_ok r g"
  shows "good r (parse_move g s) (\<lambda>_. 0)" "good r (parse_borrow g s) (\<lambda>_. 0)"
  unfolding parse_move_def parse_borrow_def
  by (rule good_level1 good_closure [THEN good_weaken] good_unary_operand [THEN good_weaken] ok_side [OF assms] | (simp; fail))+

lemma good_after:
  assumes "\<And>s. 1 \<le> r \<Longrightarrow> good (r - 1) (yes s) (\<lambda>_. 0)" "good r no consumes_one" "k \<noteq> TkEof"
  shows "good r (after k yes no) consumes_one"
  unfolding after_def
proof (rule good_bind [OF good_match_token [OF assms(3)]])
  fix b :: bool assume b: "of_bool b \<le> r"
  show "good (r - of_bool b) (if b then bindP previous (\<lambda>t. yes (token_span t)) else no) (\<lambda>y. 1 - of_bool b)"
  proof (cases b)
    case True
    have "good (r - 1) (bindP previous (\<lambda>t. yes (token_span t))) (\<lambda>_. 0)"
      by (rule good_bind [OF good_previous]) (use assms(1) b True in simp)
    then show ?thesis using True by simp
  qed (use assms(2) in simp)
qed

lemma good_unary:
  assumes "gram_pre r g"
  shows "good r (parse_unary g) consumes_one"
  unfolding parse_unary_def
  by (rule good_after good_unary_operand good_unary_prefix good_call pre_side [OF assms] assms | (simp; fail))+

lemma good_binary_round:
  assumes "good r operand consumes_one"
  shows "good r (parse_binary_round operand ops s) (\<lambda>(_, again). of_bool again)"
proof (rule goodpI)
  fix st assume st: "parser_wf st" "tokens_left st \<le> r"
  obtain e n where s: "s = (e, n)" by (cases s)
  have op: "good r (bindP advance_token (\<lambda>_. bindP operand (\<lambda>right.
      returnP ((Spanned (E_Binary e op right) (Span_through (sp e) (sp right)), n + 1), True)))) (\<lambda>(_, again). of_bool again)" for op
    by (rule good_basic good_le [OF assms] | (simp; fail))+
  note o = goodpD [OF op st TrueI]
  show "parse_binary_round operand ops s st \<noteq> Panic"
    using o(1) st(1)
    by (auto simp: parse_binary_round_def s bindP_def [of peek_token] peek_wf parse_error_def failP_def split: option.splits)
  show "moved (case x of (_, again) \<Rightarrow> of_bool again) st st'" if "parse_binary_round operand ops s st = Ok (x, st')" for x st'
    using that o(2) [of _ x st'] st(1)
    by (auto simp: parse_binary_round_def s bindP_def [of peek_token] peek_wf parse_error_def failP_def moved_def split: option.splits if_splits)
qed

lemma good_binary:
  assumes "gram_pre r g" "good r operand consumes_one"
  shows "good r (parse_binary g operand ops) consumes_one"
  unfolding parse_binary_def
  by (rule assms(2) good_le [OF assms(2)] good_binary_round good_level1 pre_side [OF assms(1)] | (simp; fail))+

lemma good_expression:
  assumes "gram_pre r g"
  shows "good r (parse_expression g) consumes_one"
  unfolding parse_expression_def parse_or_def parse_and_def parse_equality_def parse_comparison_def parse_addition_def
    parse_multiplication_def
  by (rule good_with_recursion good_binary good_unary assms)+

section \<open>Statements\<close>

lemma goodp_imp: "goodp P r m D \<Longrightarrow> (\<And>t. Q t \<Longrightarrow> P t) \<Longrightarrow> goodp Q r m D"
  by (simp add: goodp_def)

lemmas good_level2 = good_expression good_capabilities good_expression [THEN good_weaken] good_level1

lemma good_binding:
  assumes "gram_pre r g"
  shows "goodp (\<lambda>t. binding_kind_of (token_kind t) \<noteq> None) r (parse_binding g) consumes_one"
  unfolding parse_binding_def
proof (rule good_advance_at)
  fix t :: token assume t: "binding_kind_of (token_kind t) \<noteq> None"
  then obtain k where k: "binding_kind_of (token_kind t) = Some k" by blast
  have w: "token_width t = 1" using t by (cases "token_kind t") (simp_all add: token_width_def)
  show "good (r - token_width t) (case binding_kind_of (token_kind t) of
       None \<Rightarrow> panicP
     | Some kind \<Rightarrow>
       bindP (expect_identifier g ''expected binding name'') (\<lambda>(name, name_span).
       bindP (match_token (tk TkColon)) (\<lambda>colon.
       bindP (if colon then bindP (parse_type_name g) (\<lambda>ty. returnP (Some ty)) else returnP None) (\<lambda>annotation.
       bindP (match_token (tk TkEqual)) (\<lambda>equal.
       bindP (if equal then bindP (parse_expression g) (\<lambda>e. returnP (Some e)) else returnP None) (\<lambda>value.
       if value = None \<and> annotation = None
       then parse_error ''an uninitialized binding requires a type annotation'' name_span
       else
         (let end = (case value of Some e \<Rightarrow> sp e
                     | None \<Rightarrow> (case annotation of Some ty \<Rightarrow> ty_span ty | None \<Rightarrow> name_span)) in
          bindP (match_token (tk TkSemicolon)) (\<lambda>_.
          returnP (Spanned (S_Binding kind name name_span annotation value) (Span_through (token_span t) end))))))))))
      (\<lambda>y. 1 - token_width t)"
    unfolding k option.case w
    by (rule good_level2 pre_side [OF assms] | (simp; fail))+
qed

lemma good_assignment:
  assumes "gram_pre r g"
  shows "goodp (\<lambda>t. is_assignment (token_kind t)) r (parse_assignment g e) (\<lambda>_. 0)"
  unfolding parse_assignment_def
proof (rule good_advance_at)
  fix t :: token assume t: "is_assignment (token_kind t)"
  then obtain o1 where o: "assignment_operator_of (token_kind t) = Some o1"
    by (cases "token_kind t") (auto simp: assignment_operators_def)
  show "good (r - token_width t) (case assignment_operator_of (token_kind t) of
       None \<Rightarrow> panicP
     | Some operator \<Rightarrow>
       bindP (parse_expression g) (\<lambda>value.
       bindP (match_token (tk TkSemicolon)) (\<lambda>_.
       returnP (Spanned
         (case node e of
            E_Identifier name \<Rightarrow> S_Assignment name (sp e) operator value
          | _ \<Rightarrow> S_PlaceAssignment e operator value)
         (Span_through (sp e) (sp value)))))) (\<lambda>y. 0 - token_width t)"
    unfolding o option.case
    by (rule good_level2 pre_side [OF assms] | (simp; fail))+
qed

lemma good_expression_statement:
  assumes "gram_pre r g"
  shows "good r (parse_expression_statement g) consumes_one"
  unfolding parse_expression_statement_def
proof (rule good_bind [OF good_expression [OF assms]], rule good_peek, rule good_if)
  fix e :: expr and t :: token
  show "goodp (\<lambda>u. u = t) (r - 1) (parse_assignment g e) (\<lambda>y. 1 - 1)" if "is_assignment (token_kind t)"
    by (rule good_weaken [OF goodp_imp [OF good_assignment]]) (use that gram_pre_le [OF assms] in auto)
  show "goodp (\<lambda>u. u = t) (r - 1) (bindP (match_token (tk TkSemicolon)) (\<lambda>_. returnP (Spanned (S_Expression e) (sp e)))) (\<lambda>y. 1 - 1)"
    by (rule good_any) (rule good_basic | (simp; fail))+
qed

lemma good_simple_statements:
  assumes "gram_ok r g"
  shows "good r (parse_return g) (\<lambda>_. 0)" "good r (parse_while g) (\<lambda>_. 0)" "good r (parse_for g) (\<lambda>_. 0)"
    "good r (parse_loop g s) (\<lambda>_. 0)" "good r (parse_unsafe g s) (\<lambda>_. 0)" "good r (parse_jump j s) (\<lambda>_. 0)"
  unfolding parse_return_def parse_while_def parse_for_def parse_loop_def parse_unsafe_def parse_jump_def
  by (rule good_level2 ok_side [OF assms] | (simp; fail))+

lemma good_if_statement:
  assumes "gram_pre r g"
  shows "good r (parse_if g) consumes_one"
  unfolding parse_if_def
  by (rule good_level2 pre_side [OF assms] | (simp; fail))+

lemma good_matches_any:
  assumes "goodp (\<lambda>t. list_ex (same_variant (token_kind t)) ks) r m D" "good r n D"
  shows "good r (bindP (matches_any ks) (\<lambda>b. if b then m else n)) D"
  using assms by (auto simp: goodp_def matches_any_def bindP_def peek_wf returnP_def)

lemma good_statement:
  assumes "gram_pre r g"
  shows "good r (parse_statement g) consumes_one"
  unfolding parse_statement_def
proof (rule good_matches_any)
  have "binding_kind_of k \<noteq> None" if "list_ex (same_variant k) [kw TkLet, kw TkVar, kw TkConst]" for k
    using that by (cases k) (auto simp: binding_kinds_def)
  then show "goodp (\<lambda>t. list_ex (same_variant (token_kind t)) [kw TkLet, kw TkVar, kw TkConst]) r (parse_binding g) consumes_one"
    by (intro goodp_imp [OF good_binding [OF assms]]) blast
  show "good r (bindP (match_token (kw TkReturn)) (\<lambda>b. if b then parse_return g else
     bindP (match_token (kw TkIf)) (\<lambda>b. if b then parse_if g else
     bindP (match_token (kw TkWhile)) (\<lambda>b. if b then parse_while g else
     bindP (match_token (kw TkFor)) (\<lambda>b. if b then parse_for g else
     after (kw TkLoop) (parse_loop g)
     (after (kw TkUnsafe) (parse_unsafe g)
     (after (kw TkBreak) (parse_jump S_Break)
     (after (kw TkContinue) (parse_jump S_Continue)
     (parse_expression_statement g))))))))) consumes_one"
    by (rule good_after [THEN good_weaken] good_expression_statement good_simple_statements
        good_simple_statements [THEN good_weaken] good_if_statement [THEN good_weaken] good_basic pre_side [OF assms]
        | (simp; fail))+
qed

lemma good_block:
  assumes "gram_pre r g"
  shows "good r (parse_block g) consumes_one"
  unfolding parse_block_def parse_block_inner_def
  by (rule good_with_recursion good_statement good_level1 pre_side [OF assms] gram_ok_pre [OF gram_pre_ok [OF assms]]
      | (simp; fail))+

section \<open>The depth of the grammar\<close>

lemma grammar_env [simp]: "g_env (grammar_of env n) = env" "g_fuel (grammar_of env n) = n"
  by (cases n; simp add: Let_def)+

lemma grammar_good: "r < n \<Longrightarrow> gram_ok r (grammar_of env n)"
proof (induction n arbitrary: r)
  case (Suc n)
  have "gram_pre r (grammar_of env n)" using Suc by (simp add: gram_pre_def)
  then show ?case
    using Suc.prems
    by (simp add: gram_ok_def Let_def good_type_name good_pattern good_expression good_unary good_block good_if_statement
        del: One_nat_def)
qed simp

section \<open>Declarations\<close>

lemmas good_level3 = good_level2 good_block good_parameters

lemma good_module_path:
  assumes "gram_pre r g"
  shows "good r (parse_module_path g m) consumes_one"
  unfolding parse_module_path_def
  by (rule good_level1 good_gloop [THEN good_weaken] pre_side [OF assms] | (simp; fail))+

lemma good_import_item: "good r (parse_import_item g) consumes_one"
  unfolding parse_import_item_def by (rule good_basic | (simp; fail))+

lemma good_import_part:
  assumes "gram_ok r g"
  shows "good r (parse_import_part g s) (\<lambda>(_, again). of_bool again)"
  unfolding parse_import_part_def by (rule good_level1 good_import_item ok_side [OF assms] | (simp; fail))+

lemma good_field_modifier:
  assumes "gram_pre r g"
  shows "good r (parse_field_modifier g f) (\<lambda>(_, again). of_bool again)"
  unfolding parse_field_modifier_def duplicate_modifier_def
  by (rule good_peek good_let good_if good_fail good_advance_at good_return good_level2 pre_side [OF assms]
      | (simp add: token_width_def; fail))+

lemma good_data_constraint:
  assumes "gram_pre r g"
  shows "good r (parse_data_constraint g) consumes_one"
proof -
  have item: "good r' (bindP (expect_identifier g ''expected constrained field name'') (\<lambda>(f, s). returnP (Spanned f s))) consumes_one" for r'
    by (rule good_basic | (simp; fail))+
  show ?thesis unfolding parse_data_constraint_def
    by (rule item good_level1 pre_side [OF assms] | (simp; fail))+
qed

lemma good_struct_member:
  assumes "gram_pre r g"
  shows "good r (parse_struct_member g d s) consumes_one" "good r (parse_variant g vs) consumes_one"
  unfolding parse_struct_member_def parse_variant_def
  by (rule good_data_constraint good_field_modifier good_level1 pre_side [OF assms]
      gram_ok_pre [OF gram_pre_ok [OF assms]] | (simp; fail))+

lemma good_return_type:
  assumes "gram_pre r g"
  shows "good r (parse_return_type g) (\<lambda>_. 0)"
  unfolding parse_return_type_def
  by (rule good_level1 pre_side [OF assms] | (simp; fail))+

lemmas good_level4 = good_return_type good_level3

lemma good_functions:
  assumes "gram_pre r g"
  shows "good r (parse_function_signature g) consumes_one" "good r (parse_function g) consumes_one"
  unfolding parse_function_signature_def parse_function_def
  by (rule good_level4 good_block [THEN good_weaken] pre_side [OF assms] | (simp; fail))+

lemma good_members:
  assumes "gram_pre r g"
  shows "good r (parse_trait_member g s) consumes_one" "good r (parse_impl_member g m) consumes_one"
    "good r (parse_extern_function g lib fs) consumes_one"
  unfolding parse_trait_member_def parse_impl_member_def parse_extern_function_def
  by (rule good_functions good_level4 pre_side [OF assms] | (simp; fail))+

lemma good_abi: "good r (expect_abi g m w h) consumes_one"
  unfolding expect_abi_def by (rule good_basic | (simp; fail))+

lemma good_extern_library: "good r (parse_extern_library g) (\<lambda>_. 0)"
  unfolding parse_extern_library_def by (rule good_basic | (simp; fail))+

lemma good_declarations:
  assumes "gram_pre r g"
  shows "good r (parse_module_declaration g) consumes_one" "good r (parse_import g pub) consumes_one"
    "good r (parse_struct g d) consumes_one" "good r (parse_enum g) consumes_one" "good r (parse_trait g) consumes_one"
    "good r (parse_implementation g) consumes_one" "good r (parse_extern_block g) consumes_one"
  unfolding parse_module_declaration_def parse_import_def parse_struct_def parse_enum_def parse_trait_def
    parse_implementation_def parse_extern_block_def
  by (rule good_module_path good_import_part good_struct_member good_members good_abi good_extern_library good_level4
      pre_side [OF assms] gram_ok_pre [OF gram_pre_ok [OF assms]] | (simp; fail))+

lemma good_exports:
  assumes "gram_pre r g"
  shows "good r (parse_export_function g) consumes_one" "good r (parse_export_struct g) consumes_one"
  unfolding parse_export_function_def parse_export_struct_def
  by (rule good_functions good_declarations good_abi good_level4 pre_side [OF assms] | (simp; fail))+

lemma good_choice: "good r m D \<Longrightarrow> good r n D \<Longrightarrow> good r (\<lambda>st. if b st then m st else n st) D"
  by (simp add: goodp_def)

lemma good_item:
  assumes "gram_pre r g"
  shows "good r (parse_item g pub p) consumes_one"
  unfolding parse_item_def
  by (rule good_choice good_declarations good_exports good_functions good_level4 pre_side [OF assms] | (simp; fail))+

lemma good_round:
  assumes "gram_pre r g"
  shows "good r (parse_round g p) (\<lambda>(_, again). of_bool again)"
  unfolding parse_round_def
  by (rule good_item good_basic pre_side [OF assms] | (simp; fail))+

lemma good_program:
  assumes "gram_ok r g"
  shows "good r (parse_program g) (\<lambda>_. 0)"
  unfolding parse_program_def
  by (rule good_declarations good_round good_level1 good_gloop [THEN good_weaken] ok_side [OF assms] | (simp; fail))+

end
