(* ===== verification/Parser_Depth.thy ===== *)
theory Parser_Depth
  imports Parser_Progress
begin

text \<open>
  The depth of the grammar is no part of the parser: \<open>extends m m'\<close> says that \<open>m'\<close> answers what \<open>m\<close> answers
  wherever \<open>m\<close> does not run out of depth, every method keeps it, and so a deeper grammar gives the same results.
\<close>

section \<open>The result does not depend on the depth\<close>

definition extends :: "'a parse \<Rightarrow> 'a parse \<Rightarrow> bool" where
  "extends m m' \<longleftrightarrow> (\<forall>st. m st \<noteq> Panic \<longrightarrow> m' st = m st)"

lemma ext_refl: "extends m m"
  by (simp add: extends_def)

lemma ext_panic: "extends panicP m"
  by (simp add: extends_def panicP_def)

lemma ext_bindO: "extends m m' \<Longrightarrow> bindO (m st) F \<noteq> Panic \<Longrightarrow> bindO (m' st) F = bindO (m st) F"
  by (cases "m st") (simp_all add: extends_def)

lemma ext_bind: "extends m m' \<Longrightarrow> (\<And>x. extends (f x) (f' x)) \<Longrightarrow> extends (bindP m f) (bindP m' f')"
  unfolding extends_def bindP_def
proof (intro allI impI)
  fix st
  assume m: "\<forall>st. m st \<noteq> Panic \<longrightarrow> m' st = m st" and f: "\<And>x. \<forall>st. f x st \<noteq> Panic \<longrightarrow> f' x st = f x st"
    and np: "bindO (m st) (\<lambda>(x, st'). f x st') \<noteq> Panic"
  then have "m st \<noteq> Panic" by auto
  then have "m' st = m st" using m by blast
  then show "bindO (m' st) (\<lambda>(x, st'). f' x st') = bindO (m st) (\<lambda>(x, st'). f x st')"
    using np f by (cases "m st") (auto split: prod.splits)
qed

lemma ext_if: "extends m m' \<Longrightarrow> extends n n' \<Longrightarrow> extends (if b then m else n) (if b then m' else n')"
  by simp

lemma ext_prod: "(\<And>a b. extends (f a b) (f' a b)) \<Longrightarrow> extends (case x of (a, b) \<Rightarrow> f a b) (case x of (a, b) \<Rightarrow> f' a b)"
  by (cases x) simp

lemma ext_option:
  "extends m m' \<Longrightarrow> (\<And>a. extends (f a) (f' a)) \<Longrightarrow>
     extends (case x of None \<Rightarrow> m | Some a \<Rightarrow> f a) (case x of None \<Rightarrow> m' | Some a \<Rightarrow> f' a)"
  by (cases x) simp_all

lemma ext_let: "extends (f v) (f' v) \<Longrightarrow> extends (let x = v in f x) (let x = v in f' x)"
  by simp

lemma ext_recursion: "extends m m' \<Longrightarrow> extends (with_recursion m) (with_recursion m')"
  unfolding extends_def [of "with_recursion m"] with_recursion_def by (auto dest: ext_bindO)

lemma ext_loop: "n \<le> n' \<Longrightarrow> (\<And>s. extends (body s) (body' s)) \<Longrightarrow> extends (loopP n body s) (loopP n' body' s)"
proof (induction n arbitrary: n' s)
  case (Suc n)
  then obtain k where n': "n' = Suc k" "n \<le> k" by (cases n') auto
  show ?case unfolding n'(1) loopP.simps
    using Suc.prems(2) Suc.IH [OF n'(2) Suc.prems(2)] by (intro ext_bind ext_prod ext_if ext_refl)
qed (simp add: ext_panic)

definition gram_le :: "grammar \<Rightarrow> grammar \<Rightarrow> bool" where
  "gram_le g h \<longleftrightarrow> g_env g = g_env h \<and> g_fuel g \<le> g_fuel h \<and> extends (g_type_name g) (g_type_name h)
     \<and> extends (g_pattern g) (g_pattern h) \<and> extends (g_expression g) (g_expression h) \<and> extends (g_unary g) (g_unary h)
     \<and> extends (g_block g) (g_block h) \<and> extends (g_if g) (g_if h)"

lemma gram_leD:
  assumes "gram_le g h"
  shows "g_fuel g \<le> g_fuel h" "extends (g_type_name g) (g_type_name h)" "extends (g_pattern g) (g_pattern h)"
    "extends (g_expression g) (g_expression h)" "extends (g_unary g) (g_unary h)" "extends (g_block g) (g_block h)"
    "extends (g_if g) (g_if h)"
  using assms by (simp_all add: gram_le_def)

lemma ext_env:
  assumes "gram_le g h"
  shows "expect g = expect h" "expect_identifier g = expect_identifier h" "expect_type_close g = expect_type_close h"
    "expect_abi g = expect_abi h" "parse_extern_library g = parse_extern_library h" "g_env g = g_env h"
proof -
  have e: "g_env g = g_env h" using assms by (simp add: gram_le_def)
  show 1: "g_env g = g_env h" by (rule e)
  show 2: "expect g = expect h" "expect_identifier g = expect_identifier h"
    unfolding expect_def [abs_def] expect_identifier_def [abs_def] e by (rule refl)+
  show "expect_type_close g = expect_type_close h" "expect_abi g = expect_abi h"
    "parse_extern_library g = parse_extern_library h"
    unfolding expect_type_close_def [abs_def] expect_abi_def [abs_def] parse_extern_library_def [abs_def] 2 by (rule refl)+
qed

lemmas ext_steps = ext_bind ext_if ext_prod ext_option ext_let ext_recursion

lemma ext_loops:
  assumes "gram_le g h"
  shows "extends item item' \<Longrightarrow> extends (sep_by g item sep) (sep_by h item' sep)"
    "extends item item' \<Longrightarrow> extends (sep_list g item sep close) (sep_list h item' sep close)"
    "(\<And>s. extends (body s) (body' s)) \<Longrightarrow> extends (until_brace g body s) (until_brace h body' s)"
    "(\<And>s. extends (round s) (round' s)) \<Longrightarrow> extends (loopP (g_fuel g) round z) (loopP (g_fuel h) round' z)"
  unfolding sep_list_def sep_by_def until_brace_def
  by (rule ext_loop gram_leD [OF assms] ext_steps ext_refl | assumption)+

lemma ext_types:
  assumes "gram_le g h"
  shows "extends (parse_type_name g) (parse_type_name h)"
  unfolding parse_type_name_def parse_function_type_def parse_array_type_def parse_reference_type_def parse_named_type_def
    ext_env [OF assms]
  by (rule gram_leD [OF assms] ext_loops [OF assms] ext_steps ext_refl)+


lemma ext_patterns:
  assumes "gram_le g h"
  shows "extends (parse_pattern_atom g) (parse_pattern_atom h)"
proof -
  have struct: "extends (parse_struct_pattern g n s) (parse_struct_pattern h n s)"
      "extends (parse_variant_pattern g n s) (parse_variant_pattern h n s)" for n s
    unfolding parse_struct_pattern_def parse_variant_pattern_def parse_pattern_field_def ext_env [OF assms]
    by (rule gram_leD [OF assms] ext_loops [OF assms] ext_steps ext_refl)+
  show ?thesis unfolding parse_pattern_atom_def ext_env [OF assms]
    by (rule ext_bind, rule ext_refl, rule ext_let)
       (auto split: token_kind.split keyword.split symbol.split intro!: ext_refl ext_bind ext_if struct)
qed

lemma ext_pattern:
  assumes "gram_le g h"
  shows "extends (parse_pattern g) (parse_pattern h)"
  unfolding parse_pattern_def
  by (rule ext_patterns [OF assms] ext_loops [OF assms] ext_steps ext_refl)+

lemma ext_data_part:
  assumes "gram_le g h"
  shows "extends (parse_data_part g) (parse_data_part h)"
  unfolding extends_def [of "parse_data_part g"] parse_data_part_def
  using gram_leD(4) [OF assms] by (auto dest: ext_bindO)

lemma ext_data:
  assumes "gram_le g h"
  shows "extends (parse_data_expression g s) (parse_data_expression h s)"
  unfolding parse_data_expression_def parse_data_write_def parse_data_remove_def parse_data_query_def parse_data_order_def
    ext_env [OF assms]
  by (rule ext_data_part [OF assms] ext_steps ext_refl)+

lemma ext_closure:
  assumes "gram_le g h"
  shows "extends (parse_closure g s b c) (parse_closure h s b c)"
  unfolding parse_closure_def parse_closure_parameter_def ext_env [OF assms]
  by (rule gram_leD [OF assms] ext_types [OF assms] ext_loops [OF assms] ext_steps ext_refl)+

lemma ext_compound_primary:
  assumes "gram_le g h"
  shows "extends (parse_struct_construct g n s) (parse_struct_construct h n s)" "extends (parse_match g s) (parse_match h s)"
    "extends (parse_parenthesized g s) (parse_parenthesized h s)" "extends (parse_array g s) (parse_array h s)"
  unfolding parse_struct_construct_def parse_field_value_def parse_match_def parse_match_arm_def parse_parenthesized_def
    parse_array_def ext_env [OF assms]
  by (rule gram_leD [OF assms] ext_pattern [OF assms] ext_loops [OF assms] ext_steps ext_refl)+

lemma ext_primary:
  assumes "gram_le g h"
  shows "extends (parse_primary g) (parse_primary h)"
  unfolding parse_primary_def ext_env [OF assms]
proof (rule ext_bind, rule ext_refl, rule ext_let)
  note ext_prims = ext_data [OF assms] ext_closure [OF assms] ext_compound_primary [OF assms]
  fix t :: token
  show "extends (case token_kind t of
       TkInteger v \<Rightarrow> returnP (Spanned (E_Integer v) (token_span t))
     | TkFloat v \<Rightarrow> returnP (Spanned (E_Float v) (token_span t))
     | TkString v \<Rightarrow> returnP (Spanned (E_String v) (token_span t))
     | TkCharacter v \<Rightarrow> returnP (Spanned (E_Character v) (token_span t))
     | TkKeyword TkTrue \<Rightarrow> returnP (Spanned (E_Bool True) (token_span t))
     | TkKeyword TkFalse \<Rightarrow> returnP (Spanned (E_Bool False) (token_span t))
     | TkKeyword TkData \<Rightarrow> parse_data_expression g (token_span t)
     | TkSymbol TkOr \<Rightarrow> parse_closure g (token_span t) False False
     | TkSymbol TkOrOr \<Rightarrow> parse_closure g (token_span t) False True
     | TkIdentifier name \<Rightarrow>
         bindP looks_like_struct_construct (\<lambda>b.
         if is_type_style (g_env h) name \<and> b then parse_struct_construct g name (token_span t)
         else returnP (Spanned (E_Identifier name) (token_span t)))
     | TkKeyword TkMatch \<Rightarrow> parse_match g (token_span t)
     | TkSymbol TkLeftParen \<Rightarrow> parse_parenthesized g (token_span t)
     | TkSymbol TkLeftBracket \<Rightarrow> parse_array g (token_span t)
     | found \<Rightarrow> parse_error (''expected expression, found '' @ debug_kind (g_env h) found) (token_span t))
   (case token_kind t of
       TkInteger v \<Rightarrow> returnP (Spanned (E_Integer v) (token_span t))
     | TkFloat v \<Rightarrow> returnP (Spanned (E_Float v) (token_span t))
     | TkString v \<Rightarrow> returnP (Spanned (E_String v) (token_span t))
     | TkCharacter v \<Rightarrow> returnP (Spanned (E_Character v) (token_span t))
     | TkKeyword TkTrue \<Rightarrow> returnP (Spanned (E_Bool True) (token_span t))
     | TkKeyword TkFalse \<Rightarrow> returnP (Spanned (E_Bool False) (token_span t))
     | TkKeyword TkData \<Rightarrow> parse_data_expression h (token_span t)
     | TkSymbol TkOr \<Rightarrow> parse_closure h (token_span t) False False
     | TkSymbol TkOrOr \<Rightarrow> parse_closure h (token_span t) False True
     | TkIdentifier name \<Rightarrow>
         bindP looks_like_struct_construct (\<lambda>b.
         if is_type_style (g_env h) name \<and> b then parse_struct_construct h name (token_span t)
         else returnP (Spanned (E_Identifier name) (token_span t)))
     | TkKeyword TkMatch \<Rightarrow> parse_match h (token_span t)
     | TkSymbol TkLeftParen \<Rightarrow> parse_parenthesized h (token_span t)
     | TkSymbol TkLeftBracket \<Rightarrow> parse_array h (token_span t)
     | found \<Rightarrow> parse_error (''expected expression, found '' @ debug_kind (g_env h) found) (token_span t))"
  proof (cases "token_kind t")
    case (TkKeyword k)
    then show ?thesis using ext_prims by (cases k) (simp_all add: ext_refl)
  next
    case (TkSymbol s)
    then show ?thesis using ext_prims by (cases s) (simp_all add: ext_refl)
  qed (use ext_prims in \<open>auto intro!: ext_refl ext_bind ext_if\<close>)
qed

lemma ext_call:
  assumes "gram_le g h"
  shows "extends (parse_call g) (parse_call h)"
  unfolding parse_call_def parse_call_round_def parse_call_arguments_def parse_argument_def parse_field_def parse_index_def
    ext_env [OF assms]
  by (rule ext_primary [OF assms] gram_leD [OF assms] ext_loops [OF assms] ext_steps ext_refl)+

lemma ext_unary:
  assumes "gram_le g h"
  shows "extends (parse_unary g) (parse_unary h)"
  unfolding parse_unary_def after_def parse_unary_operand_def parse_move_def parse_borrow_def
  by (rule ext_call [OF assms] ext_closure [OF assms] gram_leD [OF assms] ext_steps ext_refl)+

lemma ext_binary:
  assumes "gram_le g h" "extends m m'"
  shows "extends (parse_binary g m ops) (parse_binary h m' ops)"
proof -
  have round: "extends (parse_binary_round m ops s) (parse_binary_round m' ops s)" for s
  proof -
    obtain e n where s: "s = (e, n)" by (cases s)
    have op: "extends (bindP advance_token (\<lambda>_. bindP m (\<lambda>right.
        returnP ((Spanned (E_Binary e op right) (Span_through (sp e) (sp right)), n + 1), True))))
        (bindP advance_token (\<lambda>_. bindP m' (\<lambda>right.
        returnP ((Spanned (E_Binary e op right) (Span_through (sp e) (sp right)), n + 1), True))))" for op
      by (rule assms(2) ext_steps ext_refl)+
    show ?thesis unfolding parse_binary_round_def s prod.case
      by (rule ext_bind [OF ext_refl])
         (use op in \<open>auto simp: extends_def split: option.split\<close>)
  qed
  show ?thesis unfolding parse_binary_def
    by (rule assms(2) round ext_loops [OF assms(1)] ext_steps ext_refl)+
qed

lemma ext_expression:
  assumes "gram_le g h"
  shows "extends (parse_expression g) (parse_expression h)"
  unfolding parse_expression_def parse_or_def parse_and_def parse_equality_def parse_comparison_def parse_addition_def
    parse_multiplication_def
  by (rule ext_recursion ext_binary [OF assms] ext_unary [OF assms])+

lemma ext_capabilities:
  assumes "gram_le g h"
  shows "extends (parse_capabilities g) (parse_capabilities h)"
  unfolding parse_capabilities_def parse_capability_def ext_env [OF assms]
  by (rule ext_loops [OF assms] ext_steps ext_refl)+

lemma ext_if_statement:
  assumes "gram_le g h"
  shows "extends (parse_if g) (parse_if h)"
  unfolding parse_if_def
  by (rule ext_expression [OF assms] gram_leD [OF assms] ext_steps ext_refl)+

lemma ext_statement:
  assumes "gram_le g h"
  shows "extends (parse_statement g) (parse_statement h)"
  unfolding parse_statement_def after_def parse_binding_def parse_return_def parse_while_def parse_for_def parse_loop_def
    parse_unsafe_def parse_expression_statement_def parse_assignment_def ext_env [OF assms]
  by (rule ext_if_statement [OF assms] ext_expression [OF assms] ext_types [OF assms] ext_capabilities [OF assms]
      gram_leD [OF assms] ext_steps ext_refl)+

lemma ext_block:
  assumes "gram_le g h"
  shows "extends (parse_block g) (parse_block h)"
  unfolding parse_block_def parse_block_inner_def ext_env [OF assms]
  by (rule ext_statement [OF assms] ext_loops [OF assms] ext_steps ext_refl)+

lemma grammar_mono: "n \<le> m \<Longrightarrow> gram_le (grammar_of env n) (grammar_of env m)"
proof (induction n arbitrary: m)
  case (Suc n)
  then obtain k where m: "m = Suc k" "n \<le> k" by (cases m) auto
  note le = Suc.IH [OF m(2)]
  show ?case
    using m ext_types [OF le] ext_pattern [OF le] ext_expression [OF le] ext_unary [OF le] ext_block [OF le] ext_if_statement [OF le]
    by (simp add: gram_le_def Let_def)
qed (simp add: gram_le_def ext_panic)

section \<open>Declarations\<close>

lemma ext_program:
  assumes "gram_le g h"
  shows "extends (parse_program g) (parse_program h)"
proof -
  note base = ext_types [OF assms] ext_expression [OF assms] ext_block [OF assms] ext_capabilities [OF assms] ext_loops [OF assms]
  have params: "extends (parse_generic_parameters g) (parse_generic_parameters h)" "extends (parse_parameters g) (parse_parameters h)"
    unfolding parse_generic_parameters_def parse_generic_parameter_def parse_parameters_def parse_parameter_def ext_env [OF assms]
    by (rule base ext_steps ext_refl)+
  have fn: "extends (parse_function g) (parse_function h)" "extends (parse_function_signature g) (parse_function_signature h)"
    unfolding parse_function_def parse_function_signature_def parse_return_type_def ext_env [OF assms]
    by (rule base params ext_steps ext_refl)+
  have struct: "extends (parse_struct g d) (parse_struct h d)" for d
    unfolding parse_struct_def parse_struct_member_def parse_data_constraint_def parse_field_modifier_def ext_env [OF assms]
    by (rule base params ext_steps ext_refl)+
  have decls: "extends (parse_module_declaration g) (parse_module_declaration h)" "extends (parse_import g b) (parse_import h b)"
    "extends (parse_enum g) (parse_enum h)" "extends (parse_trait g) (parse_trait h)"
    "extends (parse_implementation g) (parse_implementation h)" "extends (parse_extern_block g) (parse_extern_block h)"
    "extends (parse_export_function g) (parse_export_function h)" "extends (parse_export_struct g) (parse_export_struct h)" for b
    unfolding parse_module_declaration_def parse_module_path_def parse_import_def parse_import_part_def parse_import_item_def
      parse_enum_def parse_variant_def parse_trait_def parse_trait_member_def parse_implementation_def parse_impl_member_def
      parse_extern_block_def parse_extern_function_def parse_return_type_def parse_export_function_def parse_export_struct_def
      ext_env [OF assms]
    by (rule base params fn struct ext_steps ext_refl)+
  have choice: "extends m m' \<Longrightarrow> extends n n' \<Longrightarrow> extends (\<lambda>st. if b st then m st else n st) (\<lambda>st. if b st then m' st else n' st)"
    for m m' n n' :: "program parse" and b
    by (simp add: extends_def)
  show ?thesis unfolding parse_program_def parse_round_def parse_item_def
    by (rule base decls fn struct choice ext_steps ext_refl)+
qed

end
