(* ===== verification/Parser_Correct.thy ===== *)
theory Parser_Correct
  imports Parser_Depth Lexer_Correct
begin

text \<open>
  The properties of the parser (\<^verbatim>\<open>src/compiler/src/parser.rs\<close>): it returns on every token list the lexer
  produces, and the depth of the grammar that stands for its recursion does not matter.
\<close>

section \<open>The parser returns\<close>

text \<open>What \<^verbatim>\<open>tokenize\<close> promises of its result, and what \<^verbatim>\<open>Parser::new\<close> accepts besides it.\<close>

definition closed_tokens :: "token list \<Rightarrow> bool" where
  "closed_tokens ts \<longleftrightarrow> ts = [] \<or> token_kind (last ts) = TkEof"

lemma Parser_new_wf:
  assumes "closed_tokens ts"
  shows "parser_wf (Parser_new ts)" "tokens_left (Parser_new ts) \<le> length ts"
  using assms by (auto simp: closed_tokens_def parser_wf_def tokens_left_def Parser_new_def)

lemma program_returns:
  assumes "closed_tokens ts" "length ts < n"
  shows "parse_program (grammar_of env n) (Parser_new ts) \<noteq> Panic"
  using goodpD(1) [OF good_program [OF grammar_good [OF assms(2)]] Parser_new_wf [OF assms(1)] TrueI] .

lemma tokenize_closed:
  assumes "tokenize env lx = Ok ts" shows "closed_tokens ts"
  using assms by (auto simp: tokenize_def closed_tokens_def elim!: outcome_elims)

lemma parse_depth_enough: "length ts < parse_depth ts"
  by (simp add: parse_depth_def)

lemma parse_returns: "closed_tokens ts \<Longrightarrow> parse env ts \<noteq> Panic"
  using program_returns [OF _ parse_depth_enough, of ts env]
  by (cases "parse_program (grammar_of env (parse_depth ts)) (Parser_new ts)") (auto simp: parse_def)

text \<open>A concrete environment and the tokens of \<^verbatim>\<open>fn main() {}\<close>.\<close>

definition ascii_parse_env :: parse_env where
  "ascii_parse_env = \<lparr>debug_kind = (\<lambda>_. ''token''), is_uppercase = (\<lambda>c. 65 \<le> c \<and> c \<le> 90)\<rparr>"

definition at_column :: "nat \<Rightarrow> token_kind \<Rightarrow> token" where
  "at_column c k = \<lparr>token_kind = k, token_span = Span_point 1 c\<rparr>"

definition main_tokens :: "token list" where
  "main_tokens = map2 at_column [1..<8]
     [kw TkFn, TkIdentifier ''main'', tk TkLeftParen, tk TkRightParen, tk TkLeftBrace, tk TkRightBrace, TkEof]"

lemma main_tokens_closed: "closed_tokens main_tokens" "length main_tokens = 7"
  by (simp_all add: closed_tokens_def main_tokens_def at_column_def upt_rec numeral_eq_Suc)

text \<open>C5: on every token list that ends with \<^verbatim>\<open>Eof\<close>, and on the empty one, \<^verbatim>\<open>Parser::parse\<close> returns a program or a
  diagnostic. It indexes no token out of range, and every loop and every recursive descent ends: none
  of them goes round without consuming a token.\<close>

theorem parse_total:
  assumes "closed_tokens ts"
  shows "no_panic (parse env ts)"
  using parse_returns [OF assms] by (simp add: no_panic_def)

theorem parse_total_witness:
  "closed_tokens main_tokens \<and> no_panic (parse ascii_parse_env main_tokens)"
  using parse_total [OF main_tokens_closed(1)] main_tokens_closed(1) by blast



text \<open>C6: the front end is total. For every source text, whatever the Unicode tables and the float parser answer,
  lexing and then parsing the tokens returns a program or a diagnostic and never panics.\<close>

theorem front_end_total: "no_panic (bindO (tokenize lenv lx) (parse penv))"
proof (cases "tokenize lenv lx")
  case Panic
  then show ?thesis using tokenize_loop_np [of lenv lx "[]"]
    by (cases "tokenize_loop lenv lx []") (auto simp: tokenize_def no_panic_def)
next
  case (Ok ts)
  then show ?thesis using parse_returns [OF tokenize_closed [OF Ok]] by (simp add: no_panic_def)
qed (simp add: no_panic_def)

end
