(* ===== verification/BTreeMap.thy ===== *)
theory BTreeMap
  imports Prelude
begin

text \<open>
  \<^verbatim>\<open>std::collections::BTreeMap\<close>: the list of its entries in increasing order of the keys, which is the order in
  which the code iterates over it. \<^verbatim>\<open>get\<close> is \<^term>\<open>map_of\<close>; a \<^typ>\<open>string\<close> is ordered by its bytes.
\<close>

type_synonym ('k, 'v) btree = "('k \<times> 'v) list"

fun btree_insert :: "'k::linorder \<Rightarrow> 'v \<Rightarrow> ('k, 'v) btree \<Rightarrow> ('k, 'v) btree" where
  "btree_insert k v [] = [(k, v)]"
| "btree_insert k v ((k', v') # m) =
     (if k < k' then (k, v) # (k', v') # m
      else if k = k' then (k, v) # m
      else (k', v') # btree_insert k v m)"

definition btree_wf :: "('k::linorder, 'v) btree \<Rightarrow> bool" where
  "btree_wf m \<longleftrightarrow> sorted_wrt (<) (map fst m)"

lemma map_of_btree_insert [simp]: "map_of (btree_insert k v m) = (map_of m)(k \<mapsto> v)"
  by (induction k v m rule: btree_insert.induct) auto

lemma set_btree_insert: "fst ` set (btree_insert k v m) = insert k (fst ` set m)"
  by (induction k v m rule: btree_insert.induct) auto

lemma btree_wf_Nil [simp]: "btree_wf []"
  by (simp add: btree_wf_def)

lemma btree_wf_insert: "btree_wf m \<Longrightarrow> btree_wf (btree_insert k v m)"
proof (induction k v m rule: btree_insert.induct)
  case (2 k v k' v' m)
  then show ?case using set_btree_insert [of k v m] by (fastforce simp: btree_wf_def)
qed (simp add: btree_wf_def)

lemma btree_wf_distinct: "btree_wf m \<Longrightarrow> distinct (map fst m)"
  by (simp add: btree_wf_def strict_sorted_iff)

lemma btree_entries: "btree_wf m \<Longrightarrow> (k, v) \<in> set m \<longleftrightarrow> map_of m k = Some v"
  by (simp add: btree_wf_distinct)

lemma btree_ext:
  assumes "btree_wf m" "btree_wf n" "map_of m = map_of n"
  shows "m = n"
proof -
  have "set m = set n" using assms by (auto simp: btree_entries)
  moreover have "inj_on fst (set m \<union> set n)" "distinct m" "distinct n" "sorted (map fst m)" "sorted (map fst n)"
    using assms \<open>set m = set n\<close> by (auto simp: btree_wf_def strict_sorted_iff distinct_map)
  ultimately show ?thesis using map_sorted_distinct_set_unique [of fst m n] assms
    by (simp add: btree_wf_distinct)
qed

end
