(* ===== verification/Captures.thy ===== *)
theory Captures
  imports Ast BTreeMap
begin

text \<open>
  The closure-capture analysis of \<^verbatim>\<open>src/compiler/src/ast.rs\<close>: which variables of the enclosing scopes a closure
  uses, and whether it assigns or consumes them. The \<^verbatim>\<open>BTreeMap\<close> of captures is threaded through the traversal;
  the set of local names is only ever extended on a copy, so it is an argument.
\<close>

section \<open>The analysis\<close>

record capture_use =
  cap_span :: span
  mutated :: bool
  consumed :: bool

datatype capture_mode = Read | Mutate | Consume

type_synonym captures = "(string, capture_use) btree"

definition record_capture :: "string \<Rightarrow> span \<Rightarrow> capture_mode \<Rightarrow> string set \<Rightarrow> captures \<Rightarrow> captures" where
  "record_capture x s mode locals caps =
     (if x \<in> locals then caps
      else let c = (case map_of caps x of Some c \<Rightarrow> c | None \<Rightarrow> \<lparr>cap_span = s, mutated = False, consumed = False\<rparr>) in
        btree_insert x (c\<lparr>mutated := (mutated c \<or> mode = Mutate), consumed := (consumed c \<or> mode = Consume)\<rparr>) caps)"

function (sequential) collect_pattern_bindings :: "pattern \<Rightarrow> string set \<Rightarrow> string set" where
  "collect_pattern_bindings (P_Binding x) locals = insert x locals"
| "collect_pattern_bindings (P_Or ps) locals = fold (\<lambda>p. collect_pattern_bindings (node p)) ps locals"
| "collect_pattern_bindings (P_Struct n fs rest) locals =
     fold (\<lambda>f. collect_pattern_bindings (node (pf_pattern f))) fs locals"
| "collect_pattern_bindings (P_Variant t v ps) locals = fold (\<lambda>p. collect_pattern_bindings (node p)) ps locals"
| "collect_pattern_bindings _ locals = locals"
  by pat_completeness auto
termination
  by (relation "measure (\<lambda>(p, _). size p)") (auto dest!: size_node [of _ _ size] size_pf_pattern [of _ _ size])

fun nested_mode :: "bool \<Rightarrow> capture_use \<Rightarrow> capture_mode" where
  "nested_mode move_captures u = (if move_captures then Consume else if mutated u then Mutate else Read)"

abbreviation size_expr :: "expr \<Rightarrow> nat" where "size_expr \<equiv> size_spanned size"
abbreviation size_stmt :: "stmt \<Rightarrow> nat" where "size_stmt \<equiv> size_spanned (size_statement_of size)"
abbreviation size_block :: "block \<Rightarrow> nat" where "size_block \<equiv> size_block_of (size_statement_of size)"

function (sequential)
  collect_capture_expr :: "expr \<Rightarrow> capture_mode \<Rightarrow> string set \<Rightarrow> captures \<Rightarrow> captures" and
  collect_capture_exprs :: "expr list \<Rightarrow> capture_mode \<Rightarrow> string set \<Rightarrow> captures \<Rightarrow> captures" and
  collect_capture_option :: "expr option \<Rightarrow> capture_mode \<Rightarrow> string set \<Rightarrow> captures \<Rightarrow> captures" and
  collect_capture_fields :: "struct_field_value list \<Rightarrow> string set \<Rightarrow> captures \<Rightarrow> captures" and
  collect_capture_arms :: "match_arm list \<Rightarrow> capture_mode \<Rightarrow> string set \<Rightarrow> captures \<Rightarrow> captures" and
  collect_capture_place :: "expr \<Rightarrow> string set \<Rightarrow> captures \<Rightarrow> captures" and
  collect_capture_statements :: "stmt list \<Rightarrow> string set \<Rightarrow> captures \<Rightarrow> captures" and
  collect_capture_block :: "block \<Rightarrow> string set \<Rightarrow> captures \<Rightarrow> captures" and
  closure_capture_uses :: "parameter list \<Rightarrow> closure_body \<Rightarrow> captures"
where
  "collect_capture_expr (Spanned (E_Identifier x) s) mode locals caps = record_capture x s mode locals caps"
| "collect_capture_expr (Spanned (E_Array values) s) mode locals caps = collect_capture_exprs values Consume locals caps"
| "collect_capture_expr (Spanned (E_Closure mv ps r body) s) mode locals caps =
     fold (\<lambda>(x, u). record_capture x (cap_span u) (nested_mode mv u) locals) (closure_capture_uses ps body) caps"
| "collect_capture_expr (Spanned (E_StructConstruct n ns fs) s) mode locals caps = collect_capture_fields fs locals caps"
| "collect_capture_expr (Spanned (E_DataWrite value store rep) s) mode locals caps =
     collect_capture_expr store Read locals (collect_capture_expr value Read locals caps)"
| "collect_capture_expr (Spanned (E_DataStore p) s) mode locals caps = collect_capture_option p Read locals caps"
| "collect_capture_expr (Spanned (E_DataQuery k n ns agg store predicate order limit) s) mode locals caps =
     collect_capture_option limit Read locals
       (case order of
          None \<Rightarrow> collect_capture_option predicate Read locals (collect_capture_expr store Read locals caps)
        | Some (DataOrder key desc os) \<Rightarrow> collect_capture_expr key Read locals
            (collect_capture_option predicate Read locals (collect_capture_expr store Read locals caps)))"
| "collect_capture_expr (Spanned (E_DataRemove n ns store predicate) s) mode locals caps =
     collect_capture_expr predicate Read locals (collect_capture_expr store Read locals caps)"
| "collect_capture_expr (Spanned (E_FieldAccess obj f fs) s) mode locals caps = collect_capture_expr obj mode locals caps"
| "collect_capture_expr (Spanned (E_Index obj i) s) mode locals caps =
     collect_capture_expr i Read locals (collect_capture_expr obj mode locals caps)"
| "collect_capture_expr (Spanned (E_Subslice obj a b) s) mode locals caps =
     collect_capture_expr b Read locals (collect_capture_expr a Read locals (collect_capture_expr obj Read locals caps))"
| "collect_capture_expr (Spanned (E_Match v arms) s) mode locals caps =
     collect_capture_arms arms mode locals (collect_capture_expr v Consume locals caps)"
| "collect_capture_expr (Spanned (E_Try v) s) mode locals caps = collect_capture_expr v Consume locals caps"
| "collect_capture_expr (Spanned (E_Await v) s) mode locals caps = collect_capture_expr v Consume locals caps"
| "collect_capture_expr (Spanned (E_Move v) s) mode locals caps = collect_capture_expr v Consume locals caps"
| "collect_capture_expr (Spanned (E_Spawn v) s) mode locals caps = collect_capture_expr v Consume locals caps"
| "collect_capture_expr (Spanned (E_Borrow m t) s) mode locals caps =
     (if m then collect_capture_place t locals caps else collect_capture_expr t Read locals caps)"
| "collect_capture_expr (Spanned (E_Dereference v) s) mode locals caps = collect_capture_expr v Read locals caps"
| "collect_capture_expr (Spanned (E_Unary op v) s) mode locals caps = collect_capture_expr v Read locals caps"
| "collect_capture_expr (Spanned (E_Binary l op r) s) mode locals caps =
     collect_capture_expr r Read locals (collect_capture_expr l Read locals caps)"
| "collect_capture_expr (Spanned (E_Call f as) s) mode locals caps =
     collect_capture_exprs as Read locals (collect_capture_expr f Read locals caps)"
| "collect_capture_expr _ mode locals caps = caps"
| "collect_capture_exprs [] mode locals caps = caps"
| "collect_capture_exprs (e # es) mode locals caps =
     collect_capture_exprs es mode locals (collect_capture_expr e mode locals caps)"
| "collect_capture_option None mode locals caps = caps"
| "collect_capture_option (Some e) mode locals caps = collect_capture_expr e mode locals caps"
| "collect_capture_fields [] locals caps = caps"
| "collect_capture_fields (StructFieldValue n s e # fs) locals caps =
     collect_capture_fields fs locals (collect_capture_expr e Consume locals caps)"
| "collect_capture_arms [] mode locals caps = caps"
| "collect_capture_arms (MatchArm p grp guard v s # arms) mode locals caps =
     collect_capture_arms arms mode locals
       (collect_capture_expr v mode (collect_pattern_bindings (node p) locals)
         (collect_capture_option guard Read (collect_pattern_bindings (node p) locals) caps))"
| "collect_capture_place (Spanned (E_Identifier x) s) locals caps = record_capture x s Mutate locals caps"
| "collect_capture_place (Spanned (E_FieldAccess obj f fs) s) locals caps = collect_capture_place obj locals caps"
| "collect_capture_place (Spanned (E_Index obj i) s) locals caps =
     collect_capture_expr i Read locals (collect_capture_place obj locals caps)"
| "collect_capture_place (Spanned (E_Subslice obj a b) s) locals caps =
     collect_capture_expr b Read locals (collect_capture_expr a Read locals (collect_capture_place obj locals caps))"
| "collect_capture_place (Spanned (E_Dereference t) s) locals caps = collect_capture_expr t Read locals caps"
| "collect_capture_place e locals caps = collect_capture_expr e Mutate locals caps"
| "collect_capture_block (Block ss s) outer caps = collect_capture_statements ss outer caps"
| "collect_capture_statements [] locals caps = caps"
| "collect_capture_statements (Spanned (S_Binding k x xs ann v) s # ss) locals caps =
     collect_capture_statements ss (insert x locals) (collect_capture_option v Consume locals caps)"
| "collect_capture_statements (Spanned (S_Assignment x xs op v) s # ss) locals caps =
     collect_capture_statements ss locals (collect_capture_expr v Consume locals (record_capture x xs Mutate locals caps))"
| "collect_capture_statements (Spanned (S_PlaceAssignment t op v) s # ss) locals caps =
     collect_capture_statements ss locals (collect_capture_expr v Consume locals (collect_capture_place t locals caps))"
| "collect_capture_statements (Spanned (S_Expression v) s # ss) locals caps =
     collect_capture_statements ss locals (collect_capture_expr v Read locals caps)"
| "collect_capture_statements (Spanned (S_Return v) s # ss) locals caps =
     collect_capture_statements ss locals (collect_capture_option v Consume locals caps)"
| "collect_capture_statements (Spanned (S_If c t None) s # ss) locals caps =
     collect_capture_statements ss locals (collect_capture_block t locals (collect_capture_expr c Read locals caps))"
| "collect_capture_statements (Spanned (S_If c t (Some e)) s # ss) locals caps =
     collect_capture_statements ss locals
       (collect_capture_block e locals (collect_capture_block t locals (collect_capture_expr c Read locals caps)))"
| "collect_capture_statements (Spanned (S_While c b) s # ss) locals caps =
     collect_capture_statements ss locals (collect_capture_block b locals (collect_capture_expr c Read locals caps))"
| "collect_capture_statements (Spanned (S_For x xs a e incl b) s # ss) locals caps =
     collect_capture_statements ss locals (collect_capture_block b (insert x locals)
       (collect_capture_expr e Read locals (collect_capture_expr a Read locals caps)))"
| "collect_capture_statements (Spanned (S_ForEach x xs it b) s # ss) locals caps =
     collect_capture_statements ss locals (collect_capture_block b (insert x locals) (collect_capture_expr it Read locals caps))"
| "collect_capture_statements (Spanned (S_Loop b) s # ss) locals caps =
     collect_capture_statements ss locals (collect_capture_block b locals caps)"
| "collect_capture_statements (Spanned (S_Unsafe c b) s # ss) locals caps =
     collect_capture_statements ss locals (collect_capture_block b locals caps)"
| "collect_capture_statements (Spanned S_Break s # ss) locals caps = collect_capture_statements ss locals caps"
| "collect_capture_statements (Spanned S_Continue s # ss) locals caps = collect_capture_statements ss locals caps"
| "closure_capture_uses ps (CB_Expression e) = collect_capture_expr e Consume (set (map param_name ps)) []"
| "closure_capture_uses ps (CB_Block b) = collect_capture_block b (set (map param_name ps)) []"
  by pat_completeness auto
termination
  by (relation "measure (\<lambda>x. case x of
        Inl (Inl (Inl (e, _))) \<Rightarrow> 2 * size_expr e
      | Inl (Inl (Inr (es, _))) \<Rightarrow> 2 * size_list size_expr es
      | Inl (Inr (Inl (e, _))) \<Rightarrow> 2 * size_option size_expr e
      | Inl (Inr (Inr (fs, _))) \<Rightarrow> 2 * size_list (size_struct_field_value_of size) fs
      | Inr (Inl (Inl (arms, _))) \<Rightarrow> 2 * size_list (size_match_arm_of size) arms
      | Inr (Inl (Inr (e, _))) \<Rightarrow> 2 * size_expr e + 1
      | Inr (Inr (Inl (ss, _))) \<Rightarrow> 2 * size_list size_stmt ss
      | Inr (Inr (Inr (Inl (b, _)))) \<Rightarrow> 2 * size_block b
      | Inr (Inr (Inr (Inr (_, b)))) \<Rightarrow> 2 * size_closure_body_of size b)") simp_all

end
