(* ===== verification/Captures_Correct.thy ===== *)
theory Captures_Correct
  imports Captures
begin

text \<open>
  The closure-capture analysis is exact: a compositional reference definition of the free uses of a closure body,
  and the proof that the traversal of \<^verbatim>\<open>src/compiler/src/ast.rs\<close>, with its threaded map, its copies of the set of
  locals and its separate function for places, computes them.
\<close>

section \<open>Free uses of variables\<close>


type_synonym use_set = "(string \<times> capture_mode) set"


definition outside :: "string set \<Rightarrow> use_set \<Rightarrow> use_set" where
  "outside B U = {u \<in> U. fst u \<notin> B}"




definition of_option :: "('a \<Rightarrow> use_set) \<Rightarrow> 'a option \<Rightarrow> use_set" where
  "of_option f = case_option {} f"









section \<open>The analysis computes the free uses\<close>



lemma outside_simps [simp]:
  "outside B {} = {}" "outside B (U \<union> V) = outside B U \<union> outside B V"
  "outside {} U = U" "outside B (outside C U) = outside (C \<union> B) U"
  "outside B (insert u (U \<union> V)) = outside B {u} \<union> outside B U \<union> outside B V"
  by (auto simp: outside_def)


lemma of_option_simps [simp]:
  "of_option f None = {}" "of_option f (Some x) = f x" "of_option f (map_option g v) = of_option (\<lambda>x. f (g x)) v"
  by (simp_all add: of_option_def option.case_eq_if option.map_sel)











end
