(* ===== verification/ConstEval.thy ===== *)
theory ConstEval
  imports Ast BTreeMap
begin

text \<open>
  Compile-time evaluation, \<^verbatim>\<open>src/compiler/src/const_eval.rs\<close>: the values and their arithmetic, the evaluator with its
  step, depth, node and string budgets, the visitor that finds the constants of a program, and the folder that
  puts their values back into the tree. A \<^verbatim>\<open>Vec<Scope>\<close> is a list with the innermost scope first; an \<^verbatim>\<open>f64\<close> is
  its bit pattern, and the rounding operations on it are the parameter \<open>float_ops\<close>.
\<close>

section \<open>Limits and integers\<close>

record const_limits =
  lim_steps :: nat
  lim_depth :: nat
  lim_value_nodes :: nat
  lim_string_bytes :: nat

definition MAX_CONST_STEPS :: nat where "MAX_CONST_STEPS = 100000"
definition MAX_CONST_DEPTH :: nat where "MAX_CONST_DEPTH = 128"
definition MAX_CONST_VALUE_NODES :: nat where "MAX_CONST_VALUE_NODES = 65536"
definition MAX_CONST_STRING_BYTES :: nat where "MAX_CONST_STRING_BYTES = 1024 * 1024"

definition Limits_default :: const_limits where
  "Limits_default = \<lparr>lim_steps = MAX_CONST_STEPS, lim_depth = MAX_CONST_DEPTH,
     lim_value_nodes = MAX_CONST_VALUE_NODES, lim_string_bytes = MAX_CONST_STRING_BYTES\<rparr>"

record Integer =
  negative :: bool
  magnitude :: nat

definition Integer_positive :: "nat \<Rightarrow> Integer" where
  "Integer_positive m = \<lparr>negative = False, magnitude = m\<rparr>"

definition Integer_normalized :: "bool \<Rightarrow> nat \<Rightarrow> Integer" where
  "Integer_normalized n m = \<lparr>negative = (n \<and> m \<noteq> 0), magnitude = m\<rparr>"

definition Integer_negate :: "Integer \<Rightarrow> Integer" where
  "Integer_negate i = Integer_normalized (\<not> negative i) (magnitude i)"

definition Integer_checked_add :: "Integer \<Rightarrow> Integer \<Rightarrow> Integer option" where
  "Integer_checked_add i j =
     (if negative i = negative j
      then map_option (Integer_normalized (negative i)) (u128_checked_add (magnitude i) (magnitude j))
      else if magnitude i \<ge> magnitude j
      then Some (Integer_normalized (negative i) (magnitude i - magnitude j))
      else Some (Integer_normalized (negative j) (magnitude j - magnitude i)))"

text \<open>\<^verbatim>\<open>std::cmp::Ordering\<close> and \<^verbatim>\<open>Ord::cmp\<close>.\<close>

datatype ordering = OLess | OEqual | OGreater

definition cmp :: "'a::linorder \<Rightarrow> 'a \<Rightarrow> ordering" where
  "cmp x y = (if x < y then OLess else if x = y then OEqual else OGreater)"

definition Integer_compare :: "Integer \<Rightarrow> Integer \<Rightarrow> ordering" where
  "Integer_compare i j =
     (case (negative i, negative j) of
        (True, False) \<Rightarrow> OLess
      | (False, True) \<Rightarrow> OGreater
      | (False, False) \<Rightarrow> cmp (magnitude i) (magnitude j)
      | (True, True) \<Rightarrow> cmp (magnitude j) (magnitude i))"

definition Integer_show :: "Integer \<Rightarrow> string" where
  "Integer_show i = (if negative i then ''-'' @ show_nat (magnitude i) else show_nat (magnitude i))"

section \<open>Values\<close>

datatype const_value =
    V_Integer Integer
  | V_Float f64
  | V_String string
  | V_Character uchar
  | V_Bool bool
  | V_Array "const_value list"
  | V_Struct string "(string, const_value) btree"

text \<open>The standard library's rendering of floats, and of strings and characters with \<^verbatim>\<open>{:?}\<close>.\<close>

record value_text =
  show_f64 :: "f64 \<Rightarrow> string"
  debug_string :: "string \<Rightarrow> string"
  debug_char :: "uchar \<Rightarrow> string"

definition join :: "string \<Rightarrow> string list \<Rightarrow> string" where
  "join sep xs = (case xs of [] \<Rightarrow> [] | y # ys \<Rightarrow> y @ concat (map (\<lambda>z. sep @ z) ys))"

lemma size_elem: "x \<in> set xs \<Longrightarrow> size x < Suc (size_list size xs)"
  by (simp add: less_Suc_eq_le size_list_estimation')

lemma size_entry: "e \<in> set xs \<Longrightarrow> size (snd e) < Suc (size_list (size_prod (\<lambda>x. 0) size) xs)"
  by (cases e) (auto simp: less_Suc_eq_le intro!: size_list_estimation')

function Value_render :: "value_text \<Rightarrow> const_value \<Rightarrow> string" where
  "Value_render tx (V_Integer i) = Integer_show i"
| "Value_render tx (V_Float f) = show_f64 tx f"
| "Value_render tx (V_String s) = debug_string tx s"
| "Value_render tx (V_Character c) = debug_char tx c"
| "Value_render tx (V_Bool b) = (if b then ''true'' else ''false'')"
| "Value_render tx (V_Array vs) = ''['' @ join '', '' (map (Value_render tx) vs) @ '']''"
| "Value_render tx (V_Struct n fs) =
     n @ '' { '' @ join '', '' (map (\<lambda>f. fst f @ '': '' @ Value_render tx (snd f)) fs) @ '' }''"
  by pat_completeness auto
termination
  by (relation "measure (\<lambda>(_, v). size v)") (auto dest: size_elem size_entry)

function Value_expression :: "const_value \<Rightarrow> span \<Rightarrow> expr" where
  "Value_expression (V_Integer i) s =
     (if negative i then Spanned (E_Unary U_Negate (Spanned (E_Integer (magnitude i)) s)) s
      else Spanned (E_Integer (magnitude i)) s)"
| "Value_expression (V_Float f) s = Spanned (E_Float f) s"
| "Value_expression (V_String t) s = Spanned (E_String t) s"
| "Value_expression (V_Character c) s = Spanned (E_Character c) s"
| "Value_expression (V_Bool b) s = Spanned (E_Bool b) s"
| "Value_expression (V_Array vs) s = Spanned (E_Array (map (\<lambda>v. Value_expression v s) vs)) s"
| "Value_expression (V_Struct n fs) s =
     Spanned (E_StructConstruct n s (map (\<lambda>f. StructFieldValue (fst f) s (Value_expression (snd f) s)) fs)) s"
  by pat_completeness auto
termination
  by (relation "measure (\<lambda>(v, _). size v)") (auto dest: size_elem size_entry)

record const_entry =
  const_function :: string
  const_name :: string
  const_span :: span
  const_val :: const_value

record const_report =
  report_constants :: "const_entry list"
  report_steps :: nat

definition Report_render :: "value_text \<Rightarrow> const_report \<Rightarrow> string" where
  "Report_render tx r = concat (map (\<lambda>c.
     const_function c @ ''::'' @ const_name c @ '' = '' @ Value_render tx (const_val c) @ [CHR 0x0A]) (report_constants r))"

section \<open>Comparison\<close>

fun comparison :: "binary_operator \<Rightarrow> unit option" where
  "comparison op = (if op \<in> {B_Equal, B_NotEqual, B_Less, B_LessEqual, B_Greater, B_GreaterEqual} then Some () else None)"

fun compare_ordering :: "ordering \<Rightarrow> binary_operator \<Rightarrow> bool" where
  "compare_ordering c B_Equal = (c = OEqual)"
| "compare_ordering c B_NotEqual = (c \<noteq> OEqual)"
| "compare_ordering c B_Less = (c = OLess)"
| "compare_ordering c B_LessEqual = (c \<noteq> OGreater)"
| "compare_ordering c B_Greater = (c = OGreater)"
| "compare_ordering c B_GreaterEqual = (c \<noteq> OLess)"
| "compare_ordering c _ = False"

text \<open>IEEE 754 comparison of \<^verbatim>\<open>f64\<close> bit patterns: nothing compares with a NaN, and the two zeros are equal.\<close>

definition f64_magnitude :: "f64 \<Rightarrow> nat" where
  "f64_magnitude w = unat w mod 2 ^ 63"

definition f64_is_nan :: "f64 \<Rightarrow> bool" where
  "f64_is_nan w \<longleftrightarrow> f64_magnitude w > 0x7FF0000000000000"

definition f64_key :: "f64 \<Rightarrow> int" where
  "f64_key w = (if bit w 63 then - int (f64_magnitude w) else int (f64_magnitude w))"

definition f64_negate :: "f64 \<Rightarrow> f64" where
  "f64_negate w = flip_bit 63 w"

definition compare_floats :: "f64 \<Rightarrow> f64 \<Rightarrow> binary_operator \<Rightarrow> bool" where
  "compare_floats x y op =
     (let ordered = \<not> f64_is_nan x \<and> \<not> f64_is_nan y in
      case op of
        B_Equal \<Rightarrow> ordered \<and> f64_key x = f64_key y
      | B_NotEqual \<Rightarrow> \<not> (ordered \<and> f64_key x = f64_key y)
      | B_Less \<Rightarrow> ordered \<and> f64_key x < f64_key y
      | B_LessEqual \<Rightarrow> ordered \<and> f64_key x \<le> f64_key y
      | B_Greater \<Rightarrow> ordered \<and> f64_key x > f64_key y
      | B_GreaterEqual \<Rightarrow> ordered \<and> f64_key x \<ge> f64_key y
      | _ \<Rightarrow> False)"

record float_ops =
  f_add :: "f64 \<Rightarrow> f64 \<Rightarrow> f64"
  f_sub :: "f64 \<Rightarrow> f64 \<Rightarrow> f64"
  f_mul :: "f64 \<Rightarrow> f64 \<Rightarrow> f64"
  f_div :: "f64 \<Rightarrow> f64 \<Rightarrow> f64"
  f_rem :: "f64 \<Rightarrow> f64 \<Rightarrow> f64"

section \<open>The evaluator\<close>

type_synonym const_scope = "string \<rightharpoonup> const_value option"

record evaluator =
  ev_scopes :: "const_scope list"
  ev_constants :: "const_entry list"
  ev_function :: string
  ev_steps :: nat
  ev_value_nodes :: nat
  ev_string_bytes :: nat
  ev_limits :: const_limits

type_synonym 'a eval = "evaluator \<Rightarrow> (diagnostic, 'a \<times> evaluator) outcome"

definition bindE :: "'a eval \<Rightarrow> ('a \<Rightarrow> 'b eval) \<Rightarrow> 'b eval" where
  "bindE m f st = bindO (m st) (\<lambda>(x, st'). f x st')"

definition returnE :: "'a \<Rightarrow> 'a eval" where
  "returnE x st = Ok (x, st)"

definition failE :: "diagnostic \<Rightarrow> 'a eval" where
  "failE d st = Err d"

definition eval_error :: "string \<Rightarrow> span \<Rightarrow> diagnostic" where
  "eval_error m s = with_help (Diagnostic_new Type m s)
     ''compile-time evaluation is deterministic and has no ambient authority''"

definition limit_error :: "string \<Rightarrow> span \<Rightarrow> diagnostic" where
  "limit_error m s = with_help (Diagnostic_new Type m s) ''reduce the constant expression or generated value''"

fun scopes_lookup :: "const_scope list \<Rightarrow> string \<Rightarrow> const_value option" where
  "scopes_lookup [] x = None"
| "scopes_lookup (sc # scs) x = (case sc x of Some v \<Rightarrow> v | None \<Rightarrow> scopes_lookup scs x)"

definition push_scope :: "const_scope \<Rightarrow> unit eval" where
  "push_scope sc st = Ok ((), st\<lparr>ev_scopes := sc # ev_scopes st\<rparr>)"

definition pop_scope :: "unit eval" where
  "pop_scope st = Ok ((), st\<lparr>ev_scopes := tl (ev_scopes st)\<rparr>)"

text \<open>\<^verbatim>\<open>scopes.last_mut().expect("block scope exists").insert(name, value)\<close>.\<close>

definition bind_name :: "string \<Rightarrow> const_value option \<Rightarrow> unit eval" where
  "bind_name x v st =
     (case ev_scopes st of
        [] \<Rightarrow> Panic
      | sc # scs \<Rightarrow> Ok ((), st\<lparr>ev_scopes := sc(x \<mapsto> v) # scs\<rparr>))"

definition no_values :: "string list \<Rightarrow> const_scope" where
  "no_values xs = (\<lambda>x. if x \<in> set xs then Some None else None)"

text \<open>
  \<^verbatim>\<open>pattern_matches\<close> returns the extended bindings; where it returns \<^verbatim>\<open>false\<close> the code drops the map it was
  given.
\<close>

abbreviation size_pattern_fields :: "pattern struct_pattern_field list \<Rightarrow> nat" where
  "size_pattern_fields \<equiv> size_list (size_struct_pattern_field size)"

function (sequential)
  pattern_matches :: "pattern \<Rightarrow> const_value \<Rightarrow> (string \<rightharpoonup> const_value) \<Rightarrow> (string \<rightharpoonup> const_value) option" and
  pattern_matches_any :: "pattern spanned list \<Rightarrow> const_value \<Rightarrow> (string \<rightharpoonup> const_value) \<Rightarrow> (string \<rightharpoonup> const_value) option" and
  pattern_matches_fields :: "pattern struct_pattern_field list \<Rightarrow> (string, const_value) btree \<Rightarrow> (string \<rightharpoonup> const_value)
    \<Rightarrow> (string \<rightharpoonup> const_value) option"
where
  "pattern_matches P_Wildcard v b = Some b"
| "pattern_matches (P_Binding x) v b = Some (b(x \<mapsto> v))"
| "pattern_matches (P_Integer i) v b = (if v = V_Integer (Integer_positive i) then Some b else None)"
| "pattern_matches (P_NegativeInteger i) v b = (if v = V_Integer (Integer_normalized True i) then Some b else None)"
| "pattern_matches (P_String t) v b = (if v = V_String t then Some b else None)"
| "pattern_matches (P_Character c) v b = (if v = V_Character c then Some b else None)"
| "pattern_matches (P_Bool t) v b = (if v = V_Bool t then Some b else None)"
| "pattern_matches (P_Or ps) v b = pattern_matches_any ps v b"
| "pattern_matches (P_Struct n fs rest) (V_Struct m vs) b = (if m = n then pattern_matches_fields fs vs b else None)"
| "pattern_matches (P_Struct n fs rest) v b = None"
| "pattern_matches (P_Variant t c ps) v b = None"
| "pattern_matches_any [] v b = None"
| "pattern_matches_any (Spanned p s # ps) v b =
     (case pattern_matches p v b of Some c \<Rightarrow> Some c | None \<Rightarrow> pattern_matches_any ps v b)"
| "pattern_matches_fields [] vs b = Some b"
| "pattern_matches_fields (StructPatternField x s (Spanned p t) # fs) vs b =
     (case map_of vs x of
        None \<Rightarrow> None
      | Some v \<Rightarrow> (case pattern_matches p v b of None \<Rightarrow> None | Some c \<Rightarrow> pattern_matches_fields fs vs c))"
  by pat_completeness auto
termination
  by (relation "measure (\<lambda>x. case x of Inl (p, _) \<Rightarrow> size p | Inr (Inl (ps, _)) \<Rightarrow> size_list (size_spanned size) ps
        | Inr (Inr (fs, _)) \<Rightarrow> size_pattern_fields fs)") simp_all

fun eval_unary :: "unary_operator \<Rightarrow> const_value \<Rightarrow> span \<Rightarrow> const_value eval" where
  "eval_unary U_Negate (V_Integer i) s = returnE (V_Integer (Integer_negate i))"
| "eval_unary U_Negate (V_Float f) s = returnE (V_Float (f64_negate f))"
| "eval_unary U_Not (V_Bool b) s = returnE (V_Bool (\<not> b))"
| "eval_unary op v s = failE (eval_error ''invalid compile-time unary operation'' s)"

definition integer_result :: "Integer option \<Rightarrow> span \<Rightarrow> const_value eval" where
  "integer_result r s =
     (case r of Some i \<Rightarrow> returnE (V_Integer i) | None \<Rightarrow> failE (eval_error ''compile-time integer overflow'' s))"

definition eval_integers :: "Integer \<Rightarrow> binary_operator \<Rightarrow> Integer \<Rightarrow> span \<Rightarrow> const_value eval" where
  "eval_integers i op j s =
     (case op of
        B_Add \<Rightarrow> integer_result (Integer_checked_add i j) s
      | B_Subtract \<Rightarrow> integer_result (Integer_checked_add i (Integer_negate j)) s
      | B_Multiply \<Rightarrow> integer_result (map_option (Integer_normalized (negative i \<noteq> negative j))
          (u128_checked_mul (magnitude i) (magnitude j))) s
      | B_Divide \<Rightarrow>
          if magnitude j = 0 then failE (eval_error ''division by zero during compile-time evaluation'' s)
          else returnE (V_Integer (Integer_normalized (negative i \<noteq> negative j) (magnitude i div magnitude j)))
      | B_Remainder \<Rightarrow>
          if magnitude j = 0 then failE (eval_error ''division by zero during compile-time evaluation'' s)
          else returnE (V_Integer (Integer_normalized (negative i) (magnitude i mod magnitude j)))
      | _ \<Rightarrow>
          if comparison op \<noteq> None then returnE (V_Bool (compare_ordering (Integer_compare i j) op))
          else failE (eval_error ''invalid compile-time binary operation'' s))"

definition eval_floats :: "float_ops \<Rightarrow> f64 \<Rightarrow> binary_operator \<Rightarrow> f64 \<Rightarrow> span \<Rightarrow> const_value eval" where
  "eval_floats fl x op y s =
     (case op of
        B_Add \<Rightarrow> returnE (V_Float (f_add fl x y))
      | B_Subtract \<Rightarrow> returnE (V_Float (f_sub fl x y))
      | B_Multiply \<Rightarrow> returnE (V_Float (f_mul fl x y))
      | B_Divide \<Rightarrow> returnE (V_Float (f_div fl x y))
      | B_Remainder \<Rightarrow> returnE (V_Float (f_rem fl x y))
      | _ \<Rightarrow>
          if comparison op \<noteq> None then returnE (V_Bool (compare_floats x y op))
          else failE (eval_error ''invalid compile-time binary operation'' s))"

text \<open>The \<^verbatim>\<open>match (left, operator, right)\<close> of \<^verbatim>\<open>eval_binary\<close>, after both operands have been evaluated.\<close>

definition eval_operands :: "float_ops \<Rightarrow> const_value \<Rightarrow> binary_operator \<Rightarrow> const_value \<Rightarrow> span \<Rightarrow> const_value eval" where
  "eval_operands fl v op w s =
     (case (v, w) of
        (V_Integer i, V_Integer j) \<Rightarrow> eval_integers i op j s
      | (V_Float x, V_Float y) \<Rightarrow> eval_floats fl x op y s
      | (V_String x, V_String y) \<Rightarrow>
          if op = B_Add then returnE (V_String (x @ y))
          else if comparison op \<noteq> None then returnE (V_Bool (compare_ordering (cmp x y) op))
          else failE (eval_error ''invalid compile-time binary operation'' s)
      | (V_Character x, V_Character y) \<Rightarrow>
          if comparison op \<noteq> None then returnE (V_Bool (compare_ordering (cmp x y) op))
          else failE (eval_error ''invalid compile-time binary operation'' s)
      | (V_Bool x, V_Bool y) \<Rightarrow>
          (case op of
             B_And \<Rightarrow> returnE (V_Bool (x \<and> y))
           | B_Or \<Rightarrow> returnE (V_Bool (x \<or> y))
           | B_Equal \<Rightarrow> returnE (V_Bool (x = y))
           | B_NotEqual \<Rightarrow> returnE (V_Bool (x \<noteq> y))
           | _ \<Rightarrow> failE (eval_error ''invalid compile-time binary operation'' s))
      | _ \<Rightarrow> failE (eval_error ''invalid compile-time binary operation'' s))"

text \<open>The budget checks at the head of \<^verbatim>\<open>eval\<close>.\<close>

definition eval_enter :: "nat \<Rightarrow> span \<Rightarrow> unit eval" where
  "eval_enter depth s st =
     (case usize_checked_add (ev_steps st) 1 of
        None \<Rightarrow> Err (limit_error ''compile-time step counter overflowed'' s)
      | Some n \<Rightarrow>
          if n > lim_steps (ev_limits st)
          then Err (limit_error (''compile-time evaluation exceeded '' @ show_nat (lim_steps (ev_limits st)) @ '' steps'') s)
          else if depth > lim_depth (ev_limits st)
          then Err (limit_error (''compile-time evaluation exceeded depth '' @ show_nat (lim_depth (ev_limits st))) s)
          else Ok ((), st\<lparr>ev_steps := n\<rparr>))"

function (sequential)
  eval :: "float_ops \<Rightarrow> expr \<Rightarrow> nat \<Rightarrow> const_value eval" and
  eval_node :: "float_ops \<Rightarrow> expression \<Rightarrow> span \<Rightarrow> nat \<Rightarrow> const_value eval" and
  eval_binary :: "float_ops \<Rightarrow> expr \<Rightarrow> binary_operator \<Rightarrow> expr \<Rightarrow> nat \<Rightarrow> span \<Rightarrow> const_value eval" and
  eval_values :: "float_ops \<Rightarrow> expr list \<Rightarrow> nat \<Rightarrow> const_value list eval" and
  eval_fields :: "float_ops \<Rightarrow> struct_field_value list \<Rightarrow> nat \<Rightarrow> (string, const_value) btree \<Rightarrow> (string, const_value) btree eval" and
  eval_arms :: "float_ops \<Rightarrow> const_value \<Rightarrow> match_arm list \<Rightarrow> nat \<Rightarrow> span \<Rightarrow> const_value eval"
where
  "eval fl (Spanned nd s) depth = bindE (eval_enter depth s) (\<lambda>_. eval_node fl nd s depth)"
| "eval_node fl (E_Integer i) s depth = returnE (V_Integer (Integer_positive i))"
| "eval_node fl (E_Float f) s depth = returnE (V_Float f)"
| "eval_node fl (E_String t) s depth = returnE (V_String t)"
| "eval_node fl (E_Character c) s depth = returnE (V_Character c)"
| "eval_node fl (E_Bool b) s depth = returnE (V_Bool b)"
| "eval_node fl (E_Identifier x) s depth = (\<lambda>st.
     case scopes_lookup (ev_scopes st) x of
       Some v \<Rightarrow> Ok (v, st)
     | None \<Rightarrow> Err (eval_error (''`'' @ x @ ''` has no compile-time value'') s))"
| "eval_node fl (E_Array es) s depth = bindE (eval_values fl es depth) (\<lambda>vs. returnE (V_Array vs))"
| "eval_node fl (E_StructConstruct n ns fs) s depth = bindE (eval_fields fl fs depth []) (\<lambda>vs. returnE (V_Struct n vs))"
| "eval_node fl (E_FieldAccess obj f fs) s depth =
     bindE (eval fl obj (depth + 1)) (\<lambda>v.
       case v of
         V_Struct n vs \<Rightarrow> (case map_of vs f of
           Some w \<Rightarrow> returnE w
         | None \<Rightarrow> failE (eval_error (''unknown compile-time field `'' @ f @ ''`'') s))
       | _ \<Rightarrow> failE (eval_error ''compile-time field access requires a struct value'' s))"
| "eval_node fl (E_Unary op e) s depth = bindE (eval fl e (depth + 1)) (\<lambda>v. eval_unary op v s)"
| "eval_node fl (E_Binary l op r) s depth = eval_binary fl l op r depth s"
| "eval_node fl (E_Match e arms) s depth = bindE (eval fl e (depth + 1)) (\<lambda>v. eval_arms fl v arms depth s)"
| "eval_node fl nd s depth =
     failE (eval_error ''expression is not available in deterministic compile-time evaluation'' s)"
| "eval_binary fl l op r depth s =
     bindE (eval fl l (depth + 1)) (\<lambda>v.
       if op = B_And \<and> v = V_Bool False then returnE (V_Bool False)
       else if op = B_Or \<and> v = V_Bool True then returnE (V_Bool True)
       else bindE (eval fl r (depth + 1)) (\<lambda>w. eval_operands fl v op w s))"
| "eval_values fl [] depth = returnE []"
| "eval_values fl (e # es) depth =
     bindE (eval fl e (depth + 1)) (\<lambda>v. bindE (eval_values fl es depth) (\<lambda>vs. returnE (v # vs)))"
| "eval_fields fl [] depth vs = returnE vs"
| "eval_fields fl (StructFieldValue x xs e # fs) depth vs =
     bindE (eval fl e (depth + 1)) (\<lambda>v. eval_fields fl fs depth (btree_insert x v vs))"
| "eval_arms fl v [] depth s = failE (eval_error ''constant match has no matching arm'' s)"
| "eval_arms fl v (MatchArm p grp guard e t # arms) depth s =
     (case pattern_matches (node p) v Map.empty of
        None \<Rightarrow> eval_arms fl v arms depth s
      | Some b \<Rightarrow>
          bindE (push_scope (\<lambda>x. map_option Some (b x))) (\<lambda>_.
          bindE (case guard of
                   None \<Rightarrow> returnE True
                 | Some gd \<Rightarrow> bindE (eval fl gd (depth + 1)) (\<lambda>w. returnE (w = V_Bool True))) (\<lambda>matched.
          if \<not> matched then bindE pop_scope (\<lambda>_. eval_arms fl v arms depth s)
          else bindE (eval fl e (depth + 1)) (\<lambda>r. bindE pop_scope (\<lambda>_. returnE r)))))"
  by pat_completeness auto
termination
  by (relation "measure (\<lambda>x. case x of
        Inl (Inl (_, e, _)) \<Rightarrow> 2 * size_spanned size e
      | Inl (Inr (Inl (_, nd, _))) \<Rightarrow> 2 * size nd + 1
      | Inl (Inr (Inr (_, l, _, r, _))) \<Rightarrow> 2 * (size_spanned size l + size_spanned size r) + 1
      | Inr (Inl (_, es, _)) \<Rightarrow> 2 * size_list (size_spanned size) es
      | Inr (Inr (Inl (_, fs, _))) \<Rightarrow> 2 * size_list (size_struct_field_value_of size) fs
      | Inr (Inr (Inr (_, _, arms, _))) \<Rightarrow> 2 * size_list (size_match_arm_of size) arms)") simp_all

end
