(* ===== verification/ConstFold.thy ===== *)
theory ConstFold
  imports ConstEval
begin

text \<open>
  The program level of \<^verbatim>\<open>src/compiler/src/const_eval.rs\<close>: the visitor that evaluates the \<^verbatim>\<open>const\<close> bindings of every
  function and method in lexical order, with the budget on the values it keeps, and the folder that replaces
  the uses of a constant by its value.
\<close>

section \<open>Charging values\<close>

definition add_measure :: "nat \<times> nat \<Rightarrow> nat \<times> nat \<Rightarrow> nat \<times> nat" where
  "add_measure a b = (usize_saturating_add (fst a) (fst b), usize_saturating_add (snd a) (snd b))"

function (sequential) measure_value :: "const_value \<Rightarrow> nat \<times> nat" where
  "measure_value (V_String t) = (1, length t)"
| "measure_value (V_Array vs) = foldl add_measure (1, 0) (map measure_value vs)"
| "measure_value (V_Struct n fs) = foldl add_measure (1, 0) (map (\<lambda>f. measure_value (snd f)) fs)"
| "measure_value _ = (1, 0)"
  by pat_completeness auto
termination
  by (relation "measure size") (auto dest: size_elem size_entry)

definition charge_value :: "const_value \<Rightarrow> span \<Rightarrow> unit eval" where
  "charge_value v s st =
     (let (nodes, bytes) = measure_value v;
          st1 = st\<lparr>ev_value_nodes := usize_saturating_add (ev_value_nodes st) nodes,
                   ev_string_bytes := usize_saturating_add (ev_string_bytes st) bytes\<rparr> in
      if ev_value_nodes st1 > lim_value_nodes (ev_limits st)
      then Err (limit_error (''compile-time values exceeded '' @ show_nat (lim_value_nodes (ev_limits st)) @ '' nodes'') s)
      else if ev_string_bytes st1 > lim_string_bytes (ev_limits st)
      then Err (limit_error (''compile-time strings exceeded '' @ show_nat (lim_string_bytes (ev_limits st)) @ '' bytes'') s)
      else Ok ((), st1))"

section \<open>The visitor\<close>

definition push_constant :: "string \<Rightarrow> span \<Rightarrow> const_value \<Rightarrow> unit eval" where
  "push_constant x s v st = Ok ((), st\<lparr>ev_constants := ev_constants st
     @ [\<lparr>const_function = ev_function st, const_name = x, const_span = s, const_val = v\<rparr>]\<rparr>)"

definition thenE :: "unit eval \<Rightarrow> 'a eval \<Rightarrow> 'a eval" where
  "thenE m n = bindE m (\<lambda>_. n)"

text \<open>The part of a binding that concerns the constant itself.\<close>

definition visit_const :: "float_ops \<Rightarrow> string \<Rightarrow> expr option \<Rightarrow> span \<Rightarrow> unit eval" where
  "visit_const fl x value s =
     (case value of
        None \<Rightarrow> (\<lambda>_. Panic)
      | Some e \<Rightarrow> bindE (eval fl e 0) (\<lambda>v.
          thenE (charge_value v s) (thenE (push_constant x s v) (bind_name x (Some v)))))"

function (sequential)
  visit_block :: "float_ops \<Rightarrow> block \<Rightarrow> unit eval" and
  visit_statements :: "float_ops \<Rightarrow> stmt list \<Rightarrow> unit eval" and
  visit_statement :: "float_ops \<Rightarrow> statement \<Rightarrow> span \<Rightarrow> unit eval" and
  visit_block_with_shadow :: "float_ops \<Rightarrow> block \<Rightarrow> string \<Rightarrow> unit eval" and
  visit_nested_closures :: "float_ops \<Rightarrow> expr \<Rightarrow> unit eval" and
  visit_nested_list :: "float_ops \<Rightarrow> expr list \<Rightarrow> unit eval" and
  visit_nested_option :: "float_ops \<Rightarrow> expr option \<Rightarrow> unit eval" and
  visit_nested_fields :: "float_ops \<Rightarrow> struct_field_value list \<Rightarrow> unit eval" and
  visit_nested_arms :: "float_ops \<Rightarrow> match_arm list \<Rightarrow> unit eval"
where
  "visit_block fl (Block ss s) = thenE (push_scope Map.empty) (thenE (visit_statements fl ss) pop_scope)"
| "visit_statements fl [] = returnE ()"
| "visit_statements fl (Spanned st s # ss) = thenE (visit_statement fl st s) (visit_statements fl ss)"
| "visit_statement fl (S_Binding kind x xs ann value) s =
     thenE (if kind = BK_Const then visit_const fl x value s else bind_name x None) (visit_nested_option fl value)"
| "visit_statement fl (S_Assignment x xs op value) s = visit_nested_closures fl value"
| "visit_statement fl (S_PlaceAssignment target op value) s =
     thenE (visit_nested_closures fl target) (visit_nested_closures fl value)"
| "visit_statement fl (S_Expression value) s = visit_nested_closures fl value"
| "visit_statement fl (S_Return value) s = visit_nested_option fl value"
| "visit_statement fl (S_If c t None) s = thenE (visit_nested_closures fl c) (visit_block fl t)"
| "visit_statement fl (S_If c t (Some e)) s =
     thenE (visit_nested_closures fl c) (thenE (visit_block fl t) (visit_block fl e))"
| "visit_statement fl (S_While c b) s = thenE (visit_nested_closures fl c) (visit_block fl b)"
| "visit_statement fl (S_For x xs a e incl b) s =
     thenE (visit_nested_closures fl a) (thenE (visit_nested_closures fl e) (visit_block_with_shadow fl b x))"
| "visit_statement fl (S_ForEach x xs it b) s = thenE (visit_nested_closures fl it) (visit_block_with_shadow fl b x)"
| "visit_statement fl (S_Loop b) s = visit_block fl b"
| "visit_statement fl (S_Unsafe caps b) s = visit_block fl b"
| "visit_statement fl S_Break s = returnE ()"
| "visit_statement fl S_Continue s = returnE ()"
| "visit_block_with_shadow fl b x = thenE (push_scope (no_values [x])) (thenE (visit_block fl b) pop_scope)"
| "visit_nested_closures fl (Spanned (E_Closure mv ps r (CB_Block b)) s) =
     thenE (push_scope (no_values (map param_name ps))) (thenE (visit_block fl b) pop_scope)"
| "visit_nested_closures fl (Spanned (E_Closure mv ps r (CB_Expression e)) s) =
     thenE (push_scope (no_values (map param_name ps))) (thenE (visit_nested_closures fl e) pop_scope)"
| "visit_nested_closures fl (Spanned (E_Array es) s) = visit_nested_list fl es"
| "visit_nested_closures fl (Spanned (E_StructConstruct n ns fs) s) = visit_nested_fields fl fs"
| "visit_nested_closures fl (Spanned (E_FieldAccess obj f fs) s) = visit_nested_closures fl obj"
| "visit_nested_closures fl (Spanned (E_Try e) s) = visit_nested_closures fl e"
| "visit_nested_closures fl (Spanned (E_Await e) s) = visit_nested_closures fl e"
| "visit_nested_closures fl (Spanned (E_Spawn e) s) = visit_nested_closures fl e"
| "visit_nested_closures fl (Spanned (E_Move e) s) = visit_nested_closures fl e"
| "visit_nested_closures fl (Spanned (E_Dereference e) s) = visit_nested_closures fl e"
| "visit_nested_closures fl (Spanned (E_Unary op e) s) = visit_nested_closures fl e"
| "visit_nested_closures fl (Spanned (E_Borrow m e) s) = visit_nested_closures fl e"
| "visit_nested_closures fl (Spanned (E_Index obj i) s) =
     thenE (visit_nested_closures fl obj) (visit_nested_closures fl i)"
| "visit_nested_closures fl (Spanned (E_Subslice obj a b) s) =
     thenE (visit_nested_closures fl obj) (thenE (visit_nested_closures fl a) (visit_nested_closures fl b))"
| "visit_nested_closures fl (Spanned (E_Match e arms) s) =
     thenE (visit_nested_closures fl e) (visit_nested_arms fl arms)"
| "visit_nested_closures fl (Spanned (E_Binary l op r) s) =
     thenE (visit_nested_closures fl l) (visit_nested_closures fl r)"
| "visit_nested_closures fl (Spanned (E_Call f as) s) =
     thenE (visit_nested_closures fl f) (visit_nested_list fl as)"
| "visit_nested_closures fl (Spanned (E_DataStore p) s) = visit_nested_option fl p"
| "visit_nested_closures fl (Spanned (E_DataWrite v st rep) s) =
     thenE (visit_nested_closures fl v) (visit_nested_closures fl st)"
| "visit_nested_closures fl (Spanned (E_DataQuery k n ns agg st pr None lim) s) =
     thenE (visit_nested_option fl agg) (thenE (visit_nested_closures fl st)
       (thenE (visit_nested_option fl pr) (visit_nested_option fl lim)))"
| "visit_nested_closures fl (Spanned (E_DataQuery k n ns agg st pr (Some (DataOrder key desc os)) lim) s) =
     thenE (visit_nested_option fl agg) (thenE (visit_nested_closures fl st)
       (thenE (visit_nested_option fl pr) (thenE (visit_nested_closures fl key) (visit_nested_option fl lim))))"
| "visit_nested_closures fl (Spanned (E_DataRemove n ns st pr) s) =
     thenE (visit_nested_closures fl st) (visit_nested_closures fl pr)"
| "visit_nested_closures fl (Spanned (E_Integer i) s) = returnE ()"
| "visit_nested_closures fl (Spanned (E_Float f) s) = returnE ()"
| "visit_nested_closures fl (Spanned (E_String t) s) = returnE ()"
| "visit_nested_closures fl (Spanned (E_Character c) s) = returnE ()"
| "visit_nested_closures fl (Spanned (E_Bool b) s) = returnE ()"
| "visit_nested_closures fl (Spanned (E_Identifier x) s) = returnE ()"
| "visit_nested_list fl [] = returnE ()"
| "visit_nested_list fl (e # es) = thenE (visit_nested_closures fl e) (visit_nested_list fl es)"
| "visit_nested_option fl None = returnE ()"
| "visit_nested_option fl (Some e) = visit_nested_closures fl e"
| "visit_nested_fields fl [] = returnE ()"
| "visit_nested_fields fl (StructFieldValue x xs e # fs) = thenE (visit_nested_closures fl e) (visit_nested_fields fl fs)"
| "visit_nested_arms fl [] = returnE ()"
| "visit_nested_arms fl (MatchArm p grp guard e s # arms) =
     thenE (visit_nested_option fl guard) (thenE (visit_nested_closures fl e) (visit_nested_arms fl arms))"
  by pat_completeness auto
termination
  by (relation "measure (\<lambda>x. case x of
        Inl (Inl (Inl (_, b))) \<Rightarrow> 2 * size_block_of (size_statement_of size) b
      | Inl (Inl (Inr (_, ss))) \<Rightarrow> 2 * size_list (size_spanned (size_statement_of size)) ss
      | Inl (Inr (Inl (_, st, _))) \<Rightarrow> 2 * size_statement_of size st
      | Inl (Inr (Inr (_, b, _))) \<Rightarrow> 2 * size_block_of (size_statement_of size) b + 1
      | Inr (Inl (Inl (_, e))) \<Rightarrow> 2 * size_spanned size e
      | Inr (Inl (Inr (_, es))) \<Rightarrow> 2 * size_list (size_spanned size) es
      | Inr (Inr (Inl (_, e))) \<Rightarrow> 2 * size_option (size_spanned size) e
      | Inr (Inr (Inr (Inl (_, fs)))) \<Rightarrow> 2 * size_list (size_struct_field_value_of size) fs
      | Inr (Inr (Inr (Inr (_, arms)))) \<Rightarrow> 2 * size_list (size_match_arm_of size) arms)") simp_all

definition evaluate_body :: "float_ops \<Rightarrow> string \<Rightarrow> function_decl \<Rightarrow> unit eval" where
  "evaluate_body fl name f st =
     visit_block fl (fn_body f)
       (st\<lparr>ev_function := name, ev_scopes := [no_values (map param_name (fn_parameters f))]\<rparr>)"

primrec evaluate_functions :: "float_ops \<Rightarrow> function_decl list \<Rightarrow> unit eval" where
  "evaluate_functions fl [] = returnE ()"
| "evaluate_functions fl (f # fs) =
     thenE (if fn_external f \<noteq> None then returnE () else evaluate_body fl (fn_name f) f) (evaluate_functions fl fs)"

definition method_name :: "nat \<Rightarrow> function_decl \<Rightarrow> string" where
  "method_name i f = ''impl'' @ show_nat i @ ''.'' @ fn_name f"

primrec evaluate_methods :: "float_ops \<Rightarrow> nat \<Rightarrow> function_decl list \<Rightarrow> unit eval" where
  "evaluate_methods fl i [] = returnE ()"
| "evaluate_methods fl i (f # fs) = thenE (evaluate_body fl (method_name i f) f) (evaluate_methods fl i fs)"

primrec evaluate_implementations :: "float_ops \<Rightarrow> (nat \<times> impl_declaration) list \<Rightarrow> unit eval" where
  "evaluate_implementations fl [] = returnE ()"
| "evaluate_implementations fl (d # ds) =
     thenE (evaluate_methods fl (fst d) (impl_methods (snd d))) (evaluate_implementations fl ds)"

definition evaluate_with_limits :: "float_ops \<Rightarrow> program \<Rightarrow> const_limits \<Rightarrow> (diagnostic, const_report) outcome" where
  "evaluate_with_limits fl p limits =
     bindO (thenE (evaluate_functions fl (prog_functions p)) (evaluate_implementations fl (enumerate 0 (implementations p)))
       \<lparr>ev_scopes = [], ev_constants = [], ev_function = [], ev_steps = 0, ev_value_nodes = 0, ev_string_bytes = 0,
         ev_limits = limits\<rparr>)
     (\<lambda>(_, st). Ok \<lparr>report_constants = ev_constants st, report_steps = ev_steps st\<rparr>)"

definition evaluate :: "float_ops \<Rightarrow> program \<Rightarrow> (diagnostic, const_report) outcome" where
  "evaluate fl p = evaluate_with_limits fl p Limits_default"

section \<open>The folder\<close>

text \<open>
  Outside a block the folder's scopes are only pushed and popped, so they are an argument; the innermost scope
  of a block grows with its bindings and is a separate argument of \<open>fold_statements\<close>.
\<close>

function (sequential) pattern_names :: "pattern \<Rightarrow> string list" where
  "pattern_names (P_Binding x) = [x]"
| "pattern_names (P_Or []) = []"
| "pattern_names (P_Or (p # ps)) = pattern_names (node p)"
| "pattern_names (P_Struct n fs rest) = concat (map (\<lambda>f. pattern_names (node (pf_pattern f))) fs)"
| "pattern_names (P_Variant t c ps) = concat (map (\<lambda>p. pattern_names (node p)) ps)"
| "pattern_names _ = []"
  by pat_completeness auto
termination
  by (relation "measure size")
     (auto simp: less_Suc_eq_le le_SucI trans_le_add1 size_node_le dest!: size_node [of _ _ size] size_pf_pattern [of _ _ size])

record folder =
  fold_constants :: "const_entry list"
  fold_function :: string

definition folded_constant :: "folder \<Rightarrow> binding_kind \<Rightarrow> string \<Rightarrow> span \<Rightarrow> const_value option" where
  "folded_constant fo kind x s =
     (if kind = BK_Const
      then map_option const_val (find (\<lambda>c. const_function c = fold_function fo \<and> const_name c = x \<and> const_span c = s)
        (fold_constants fo))
      else None)"

function (sequential)
  fold_block :: "folder \<Rightarrow> const_scope list \<Rightarrow> block \<Rightarrow> block" and
  fold_statements :: "folder \<Rightarrow> const_scope \<Rightarrow> const_scope list \<Rightarrow> stmt list \<Rightarrow> stmt list" and
  fold_statement :: "folder \<Rightarrow> const_scope list \<Rightarrow> statement \<Rightarrow> span \<Rightarrow> statement \<times> (string \<times> const_value option) list" and
  fold_block_with_shadow :: "folder \<Rightarrow> const_scope list \<Rightarrow> block \<Rightarrow> string \<Rightarrow> block" and
  fold_expr :: "folder \<Rightarrow> const_scope list \<Rightarrow> expr \<Rightarrow> expr" and
  fold_exprs :: "folder \<Rightarrow> const_scope list \<Rightarrow> expr list \<Rightarrow> expr list" and
  fold_option :: "folder \<Rightarrow> const_scope list \<Rightarrow> expr option \<Rightarrow> expr option" and
  fold_fields :: "folder \<Rightarrow> const_scope list \<Rightarrow> struct_field_value list \<Rightarrow> struct_field_value list" and
  fold_arms :: "folder \<Rightarrow> const_scope list \<Rightarrow> match_arm list \<Rightarrow> match_arm list"
where
  "fold_block fo scs (Block ss s) = Block (fold_statements fo Map.empty scs ss) s"
| "fold_statements fo sc scs [] = []"
| "fold_statements fo sc scs (Spanned st s # ss) =
     (let r = fold_statement fo (sc # scs) st s in
      Spanned (fst r) s # fold_statements fo (foldl (\<lambda>m (x, v). m(x \<mapsto> v)) sc (snd r)) scs ss)"
| "fold_statement fo scs (S_Binding kind x xs ann value) s =
     (let initializer = fold_option fo scs value; c = folded_constant fo kind x s in
      (S_Binding kind x xs ann
         (case (initializer, c) of (Some e, Some v) \<Rightarrow> Some (Value_expression v (sp e)) | _ \<Rightarrow> initializer),
       [(x, c)]))"
| "fold_statement fo scs (S_Assignment x xs op value) s = (S_Assignment x xs op (fold_expr fo scs value), [])"
| "fold_statement fo scs (S_PlaceAssignment target op value) s =
     (S_PlaceAssignment (fold_expr fo scs target) op (fold_expr fo scs value), [])"
| "fold_statement fo scs (S_Expression value) s = (S_Expression (fold_expr fo scs value), [])"
| "fold_statement fo scs (S_Return value) s = (S_Return (fold_option fo scs value), [])"
| "fold_statement fo scs (S_If c t None) s = (S_If (fold_expr fo scs c) (fold_block fo scs t) None, [])"
| "fold_statement fo scs (S_If c t (Some e)) s =
     (S_If (fold_expr fo scs c) (fold_block fo scs t) (Some (fold_block fo scs e)), [])"
| "fold_statement fo scs (S_While c b) s = (S_While (fold_expr fo scs c) (fold_block fo scs b), [])"
| "fold_statement fo scs (S_For x xs a e incl b) s =
     (S_For x xs (fold_expr fo scs a) (fold_expr fo scs e) incl (fold_block_with_shadow fo scs b x), [])"
| "fold_statement fo scs (S_ForEach x xs it b) s =
     (S_ForEach x xs (fold_expr fo scs it) (fold_block_with_shadow fo scs b x), [])"
| "fold_statement fo scs (S_Loop b) s = (S_Loop (fold_block fo scs b), [])"
| "fold_statement fo scs (S_Unsafe caps b) s = (S_Unsafe caps (fold_block fo scs b), [])"
| "fold_statement fo scs S_Break s = (S_Break, [])"
| "fold_statement fo scs S_Continue s = (S_Continue, [])"
| "fold_block_with_shadow fo scs b x = fold_block fo (no_values [x] # scs) b"
| "fold_expr fo scs (Spanned (E_Identifier x) s) =
     (case scopes_lookup scs x of Some v \<Rightarrow> Value_expression v s | None \<Rightarrow> Spanned (E_Identifier x) s)"
| "fold_expr fo scs (Spanned (E_Array es) s) = Spanned (E_Array (fold_exprs fo scs es)) s"
| "fold_expr fo scs (Spanned (E_StructConstruct n ns fs) s) = Spanned (E_StructConstruct n ns (fold_fields fo scs fs)) s"
| "fold_expr fo scs (Spanned (E_FieldAccess obj f fs) s) = Spanned (E_FieldAccess (fold_expr fo scs obj) f fs) s"
| "fold_expr fo scs (Spanned (E_Try e) s) = Spanned (E_Try (fold_expr fo scs e)) s"
| "fold_expr fo scs (Spanned (E_Await e) s) = Spanned (E_Await (fold_expr fo scs e)) s"
| "fold_expr fo scs (Spanned (E_Spawn e) s) = Spanned (E_Spawn (fold_expr fo scs e)) s"
| "fold_expr fo scs (Spanned (E_Move e) s) = Spanned (E_Move (fold_expr fo scs e)) s"
| "fold_expr fo scs (Spanned (E_Dereference e) s) = Spanned (E_Dereference (fold_expr fo scs e)) s"
| "fold_expr fo scs (Spanned (E_Unary op e) s) = Spanned (E_Unary op (fold_expr fo scs e)) s"
| "fold_expr fo scs (Spanned (E_Borrow m e) s) = Spanned (E_Borrow m (fold_expr fo scs e)) s"
| "fold_expr fo scs (Spanned (E_Index obj i) s) = Spanned (E_Index (fold_expr fo scs obj) (fold_expr fo scs i)) s"
| "fold_expr fo scs (Spanned (E_Subslice obj a b) s) =
     Spanned (E_Subslice (fold_expr fo scs obj) (fold_expr fo scs a) (fold_expr fo scs b)) s"
| "fold_expr fo scs (Spanned (E_Match e arms) s) = Spanned (E_Match (fold_expr fo scs e) (fold_arms fo scs arms)) s"
| "fold_expr fo scs (Spanned (E_Binary l op r) s) = Spanned (E_Binary (fold_expr fo scs l) op (fold_expr fo scs r)) s"
| "fold_expr fo scs (Spanned (E_Call f as) s) = Spanned (E_Call (fold_expr fo scs f) (fold_exprs fo scs as)) s"
| "fold_expr fo scs (Spanned (E_Closure mv ps r (CB_Expression e)) s) =
     Spanned (E_Closure mv ps r (CB_Expression (fold_expr fo (no_values (map param_name ps) # scs) e))) s"
| "fold_expr fo scs (Spanned (E_Closure mv ps r (CB_Block b)) s) =
     Spanned (E_Closure mv ps r (CB_Block (fold_block fo (no_values (map param_name ps) # scs) b))) s"
| "fold_expr fo scs (Spanned (E_DataStore p) s) = Spanned (E_DataStore (fold_option fo scs p)) s"
| "fold_expr fo scs (Spanned (E_DataWrite v st rep) s) =
     Spanned (E_DataWrite (fold_expr fo scs v) (fold_expr fo scs st) rep) s"
| "fold_expr fo scs (Spanned (E_DataQuery k n ns agg st pr None lim) s) =
     Spanned (E_DataQuery k n ns (fold_option fo scs agg) (fold_expr fo scs st) (fold_option fo scs pr) None
       (fold_option fo scs lim)) s"
| "fold_expr fo scs (Spanned (E_DataQuery k n ns agg st pr (Some (DataOrder key desc os)) lim) s) =
     Spanned (E_DataQuery k n ns (fold_option fo scs agg) (fold_expr fo scs st) (fold_option fo scs pr)
       (Some (DataOrder (fold_expr fo scs key) desc os)) (fold_option fo scs lim)) s"
| "fold_expr fo scs (Spanned (E_DataRemove n ns st pr) s) =
     Spanned (E_DataRemove n ns (fold_expr fo scs st) (fold_expr fo scs pr)) s"
| "fold_expr fo scs (Spanned (E_Integer i) s) = Spanned (E_Integer i) s"
| "fold_expr fo scs (Spanned (E_Float f) s) = Spanned (E_Float f) s"
| "fold_expr fo scs (Spanned (E_String t) s) = Spanned (E_String t) s"
| "fold_expr fo scs (Spanned (E_Character c) s) = Spanned (E_Character c) s"
| "fold_expr fo scs (Spanned (E_Bool b) s) = Spanned (E_Bool b) s"
| "fold_exprs fo scs [] = []"
| "fold_exprs fo scs (e # es) = fold_expr fo scs e # fold_exprs fo scs es"
| "fold_option fo scs None = None"
| "fold_option fo scs (Some e) = Some (fold_expr fo scs e)"
| "fold_fields fo scs [] = []"
| "fold_fields fo scs (StructFieldValue x xs e # fs) = StructFieldValue x xs (fold_expr fo scs e) # fold_fields fo scs fs"
| "fold_arms fo scs [] = []"
| "fold_arms fo scs (MatchArm p grp guard e s # arms) =
     MatchArm p grp (fold_option fo (no_values (pattern_names (node p)) # scs) guard)
       (fold_expr fo (no_values (pattern_names (node p)) # scs) e) s # fold_arms fo scs arms"
  by pat_completeness auto
termination
  by (relation "measure (\<lambda>x. case x of
        Inl (Inl (Inl (_, _, b))) \<Rightarrow> 2 * size_block_of (size_statement_of size) b
      | Inl (Inl (Inr (_, _, _, ss))) \<Rightarrow> 2 * size_list (size_spanned (size_statement_of size)) ss
      | Inl (Inr (Inl (_, _, st, _))) \<Rightarrow> 2 * size_statement_of size st
      | Inl (Inr (Inr (_, _, b, _))) \<Rightarrow> 2 * size_block_of (size_statement_of size) b + 1
      | Inr (Inl (Inl (_, _, e))) \<Rightarrow> 2 * size_spanned size e
      | Inr (Inl (Inr (_, _, es))) \<Rightarrow> 2 * size_list (size_spanned size) es
      | Inr (Inr (Inl (_, _, e))) \<Rightarrow> 2 * size_option (size_spanned size) e
      | Inr (Inr (Inr (Inl (_, _, fs)))) \<Rightarrow> 2 * size_list (size_struct_field_value_of size) fs
      | Inr (Inr (Inr (Inr (_, _, arms)))) \<Rightarrow> 2 * size_list (size_match_arm_of size) arms)") simp_all

definition fold_body :: "const_entry list \<Rightarrow> string \<Rightarrow> function_decl \<Rightarrow> function_decl" where
  "fold_body cs name f =
     f\<lparr>fn_body := fold_block \<lparr>fold_constants = cs, fold_function = name\<rparr>
         [no_values (map param_name (fn_parameters f))] (fn_body f)\<rparr>"

definition fold_program :: "program \<Rightarrow> const_report \<Rightarrow> program" where
  "fold_program p r =
     p\<lparr>prog_functions := map (\<lambda>f. if fn_external f \<noteq> None then f else fold_body (report_constants r) (fn_name f) f)
           (prog_functions p),
       implementations := map (\<lambda>(i, d). d\<lparr>impl_methods :=
           map (\<lambda>f. fold_body (report_constants r) (method_name i f) f) (impl_methods d)\<rparr>)
         (enumerate 0 (implementations p))\<rparr>"

end
