(* ===== verification/ConstScopes.thy ===== *)
theory ConstScopes
  imports ConstFold
begin

text \<open>
  The scoping of constants, independently of the evaluator's stack of scopes: every \<^verbatim>\<open>const\<close> binding of a program
  in the order of \<^verbatim>\<open>src/compiler/src/const_eval.rs\<close>, with the constants its initializer can name.
\<close>

section \<open>Constants and what they see\<close>

text \<open>
  A \<^verbatim>\<open>const\<close> binding of the program with the scope at its initializer: for every name that stands for a constant
  there, the position of that constant in program order. Parameters, other bindings and loop variables hide a
  constant of the same name.
\<close>

record const_site =
  site_function :: string
  site_name :: string
  site_span :: span
  site_init :: "expr option"
  site_scope :: "string \<rightharpoonup> nat"

type_synonym visible = "string \<rightharpoonup> nat"
type_synonym site_walk = "const_site list \<Rightarrow> const_site list"

definition hide :: "string list \<Rightarrow> visible \<Rightarrow> visible" where
  "hide xs \<Gamma> = (\<lambda>x. if x \<in> set xs then None else \<Gamma> x)"

fun declared :: "visible \<Rightarrow> nat \<Rightarrow> statement \<Rightarrow> visible" where
  "declared \<Gamma> k (S_Binding kind x xs ann value) = \<Gamma>(x := (if kind = BK_Const then Some k else None))"
| "declared \<Gamma> k _ = \<Gamma>"

function (sequential)
  block_sites :: "string \<Rightarrow> visible \<Rightarrow> block \<Rightarrow> site_walk" and
  statements_sites :: "string \<Rightarrow> visible \<Rightarrow> stmt list \<Rightarrow> site_walk" and
  statement_sites :: "string \<Rightarrow> visible \<Rightarrow> statement \<Rightarrow> span \<Rightarrow> site_walk" and
  expr_sites :: "string \<Rightarrow> visible \<Rightarrow> expr \<Rightarrow> site_walk" and
  exprs_sites :: "string \<Rightarrow> visible \<Rightarrow> expr list \<Rightarrow> site_walk" and
  option_sites :: "string \<Rightarrow> visible \<Rightarrow> expr option \<Rightarrow> site_walk" and
  fields_sites :: "string \<Rightarrow> visible \<Rightarrow> struct_field_value list \<Rightarrow> site_walk" and
  arms_sites :: "string \<Rightarrow> visible \<Rightarrow> match_arm list \<Rightarrow> site_walk"
where
  "block_sites f \<Gamma> (Block ss s) acc = statements_sites f \<Gamma> ss acc"
| "statements_sites f \<Gamma> [] acc = acc"
| "statements_sites f \<Gamma> (Spanned st s # ss) acc =
     statements_sites f (declared \<Gamma> (length acc) st) ss (statement_sites f \<Gamma> st s acc)"
| "statement_sites f \<Gamma> (S_Binding kind x xs ann value) s acc =
     option_sites f (declared \<Gamma> (length acc) (S_Binding kind x xs ann value)) value
       (if kind = BK_Const then acc @ [\<lparr>site_function = f, site_name = x, site_span = s, site_init = value, site_scope = \<Gamma>\<rparr>] else acc)"
| "statement_sites f \<Gamma> (S_Assignment x xs op value) s acc = expr_sites f \<Gamma> value acc"
| "statement_sites f \<Gamma> (S_PlaceAssignment target op value) s acc = expr_sites f \<Gamma> value (expr_sites f \<Gamma> target acc)"
| "statement_sites f \<Gamma> (S_Expression value) s acc = expr_sites f \<Gamma> value acc"
| "statement_sites f \<Gamma> (S_Return value) s acc = option_sites f \<Gamma> value acc"
| "statement_sites f \<Gamma> (S_If c t None) s acc = block_sites f \<Gamma> t (expr_sites f \<Gamma> c acc)"
| "statement_sites f \<Gamma> (S_If c t (Some e)) s acc = block_sites f \<Gamma> e (block_sites f \<Gamma> t (expr_sites f \<Gamma> c acc))"
| "statement_sites f \<Gamma> (S_While c b) s acc = block_sites f \<Gamma> b (expr_sites f \<Gamma> c acc)"
| "statement_sites f \<Gamma> (S_For x xs a e incl b) s acc =
     block_sites f (hide [x] \<Gamma>) b (expr_sites f \<Gamma> e (expr_sites f \<Gamma> a acc))"
| "statement_sites f \<Gamma> (S_ForEach x xs it b) s acc = block_sites f (hide [x] \<Gamma>) b (expr_sites f \<Gamma> it acc)"
| "statement_sites f \<Gamma> (S_Loop b) s acc = block_sites f \<Gamma> b acc"
| "statement_sites f \<Gamma> (S_Unsafe caps b) s acc = block_sites f \<Gamma> b acc"
| "statement_sites f \<Gamma> S_Break s acc = acc"
| "statement_sites f \<Gamma> S_Continue s acc = acc"
| "expr_sites f \<Gamma> (Spanned (E_Closure mv ps r (CB_Block b)) s) acc = block_sites f (hide (map param_name ps) \<Gamma>) b acc"
| "expr_sites f \<Gamma> (Spanned (E_Closure mv ps r (CB_Expression e)) s) acc = expr_sites f (hide (map param_name ps) \<Gamma>) e acc"
| "expr_sites f \<Gamma> (Spanned (E_Array es) s) acc = exprs_sites f \<Gamma> es acc"
| "expr_sites f \<Gamma> (Spanned (E_StructConstruct n ns fs) s) acc = fields_sites f \<Gamma> fs acc"
| "expr_sites f \<Gamma> (Spanned (E_FieldAccess ob x fs) s) acc = expr_sites f \<Gamma> ob acc"
| "expr_sites f \<Gamma> (Spanned (E_Try e) s) acc = expr_sites f \<Gamma> e acc"
| "expr_sites f \<Gamma> (Spanned (E_Await e) s) acc = expr_sites f \<Gamma> e acc"
| "expr_sites f \<Gamma> (Spanned (E_Spawn e) s) acc = expr_sites f \<Gamma> e acc"
| "expr_sites f \<Gamma> (Spanned (E_Move e) s) acc = expr_sites f \<Gamma> e acc"
| "expr_sites f \<Gamma> (Spanned (E_Dereference e) s) acc = expr_sites f \<Gamma> e acc"
| "expr_sites f \<Gamma> (Spanned (E_Unary op e) s) acc = expr_sites f \<Gamma> e acc"
| "expr_sites f \<Gamma> (Spanned (E_Borrow m e) s) acc = expr_sites f \<Gamma> e acc"
| "expr_sites f \<Gamma> (Spanned (E_Index ob i) s) acc = expr_sites f \<Gamma> i (expr_sites f \<Gamma> ob acc)"
| "expr_sites f \<Gamma> (Spanned (E_Subslice ob a b) s) acc = expr_sites f \<Gamma> b (expr_sites f \<Gamma> a (expr_sites f \<Gamma> ob acc))"
| "expr_sites f \<Gamma> (Spanned (E_Match e arms) s) acc = arms_sites f \<Gamma> arms (expr_sites f \<Gamma> e acc)"
| "expr_sites f \<Gamma> (Spanned (E_Binary l op r) s) acc = expr_sites f \<Gamma> r (expr_sites f \<Gamma> l acc)"
| "expr_sites f \<Gamma> (Spanned (E_Call g as) s) acc = exprs_sites f \<Gamma> as (expr_sites f \<Gamma> g acc)"
| "expr_sites f \<Gamma> (Spanned (E_DataStore p) s) acc = option_sites f \<Gamma> p acc"
| "expr_sites f \<Gamma> (Spanned (E_DataWrite v st rep) s) acc = expr_sites f \<Gamma> st (expr_sites f \<Gamma> v acc)"
| "expr_sites f \<Gamma> (Spanned (E_DataQuery k n ns agg st pr None lim) s) acc =
     option_sites f \<Gamma> lim (option_sites f \<Gamma> pr (expr_sites f \<Gamma> st (option_sites f \<Gamma> agg acc)))"
| "expr_sites f \<Gamma> (Spanned (E_DataQuery k n ns agg st pr (Some (DataOrder key desc os)) lim) s) acc =
     option_sites f \<Gamma> lim (expr_sites f \<Gamma> key (option_sites f \<Gamma> pr (expr_sites f \<Gamma> st (option_sites f \<Gamma> agg acc))))"
| "expr_sites f \<Gamma> (Spanned (E_DataRemove n ns st pr) s) acc = expr_sites f \<Gamma> pr (expr_sites f \<Gamma> st acc)"
| "expr_sites f \<Gamma> e acc = acc"
| "exprs_sites f \<Gamma> [] acc = acc"
| "exprs_sites f \<Gamma> (e # es) acc = exprs_sites f \<Gamma> es (expr_sites f \<Gamma> e acc)"
| "option_sites f \<Gamma> None acc = acc"
| "option_sites f \<Gamma> (Some e) acc = expr_sites f \<Gamma> e acc"
| "fields_sites f \<Gamma> [] acc = acc"
| "fields_sites f \<Gamma> (StructFieldValue x xs e # fs) acc = fields_sites f \<Gamma> fs (expr_sites f \<Gamma> e acc)"
| "arms_sites f \<Gamma> [] acc = acc"
| "arms_sites f \<Gamma> (MatchArm p grp guard e s # arms) acc =
     arms_sites f \<Gamma> arms (expr_sites f \<Gamma> e (option_sites f \<Gamma> guard acc))"
  by pat_completeness auto
termination
  by (relation "measure (\<lambda>x. case x of
        Inl (Inl (Inl (_, _, b, _))) \<Rightarrow> size_block_of (size_statement_of size) b
      | Inl (Inl (Inr (_, _, ss, _))) \<Rightarrow> size_list (size_spanned (size_statement_of size)) ss
      | Inl (Inr (Inl (_, _, st, _))) \<Rightarrow> size_statement_of size st
      | Inl (Inr (Inr (_, _, e, _))) \<Rightarrow> size_spanned size e
      | Inr (Inl (Inl (_, _, es, _))) \<Rightarrow> size_list (size_spanned size) es
      | Inr (Inl (Inr (_, _, e, _))) \<Rightarrow> size_option (size_spanned size) e
      | Inr (Inr (Inl (_, _, fs, _))) \<Rightarrow> size_list (size_struct_field_value_of size) fs
      | Inr (Inr (Inr (_, _, arms, _))) \<Rightarrow> size_list (size_match_arm_of size) arms)") simp_all

definition body_sites :: "string \<Rightarrow> function_decl \<Rightarrow> site_walk" where
  "body_sites name f = block_sites name Map.empty (fn_body f)"

definition program_sites :: "program \<Rightarrow> const_site list" where
  "program_sites p =
     fold (\<lambda>(i, d). fold (\<lambda>f. body_sites (method_name i f) f) (impl_methods d)) (enumerate 0 (implementations p))
       (fold (\<lambda>f. body_sites (fn_name f) f) (filter (\<lambda>f. fn_external f = None) (prog_functions p)) [])"

end
