(* ===== verification/ConstEval_Correct.thy ===== *)
theory ConstEval_Correct
  imports ConstEval "HOL-Library.Signed_Division"
begin

text \<open>
  Compile-time evaluation against a declarative semantics. Sign-and-magnitude arithmetic is shown to be integer
  arithmetic with a range check; a big-step relation says what value a constant expression has, in how many
  steps and at what depth; and the evaluator of \<^verbatim>\<open>src/compiler/src/const_eval.rs\<close>, with its stack of scopes and its
  budgets, returns exactly the values of the relation that the budgets allow.
\<close>

section \<open>Integers\<close>

definition int_of :: "Integer \<Rightarrow> int" where
  "int_of i = (if negative i then - int (magnitude i) else int (magnitude i))"

definition to_integer :: "int \<Rightarrow> Integer" where
  "to_integer z = \<lparr>negative = (z < 0), magnitude = nat \<bar>z\<bar>\<rparr>"

text \<open>There is one zero.\<close>

definition normal :: "Integer \<Rightarrow> bool" where
  "normal i \<longleftrightarrow> (negative i \<longrightarrow> magnitude i \<noteq> 0)"

definition in_range :: "int \<Rightarrow> bool" where
  "in_range z \<longleftrightarrow> \<bar>z\<bar> \<le> int U128_MAX"

lemma normal_to_integer [simp]: "normal (to_integer z)"
  by (simp add: normal_def to_integer_def)

lemma int_of_to_integer [simp]: "int_of (to_integer z) = z"
  by (simp add: int_of_def to_integer_def)

lemma to_integer_int_of: "normal i \<Longrightarrow> to_integer (int_of i) = i"
  by (cases i) (auto simp: int_of_def to_integer_def normal_def)

lemma int_of_eq_iff: "normal i \<Longrightarrow> normal j \<Longrightarrow> int_of i = int_of j \<longleftrightarrow> i = j"
  by (metis to_integer_int_of)

lemma positive_to_integer: "Integer_positive m = to_integer (int m)"
  by (simp add: Integer_positive_def to_integer_def)

lemma normalized_to_integer: "Integer_normalized n m = to_integer (if n then - int m else int m)"
  by (auto simp: Integer_normalized_def to_integer_def)

lemma negate_to_integer: "Integer_negate i = to_integer (- int_of i)"
  by (auto simp: Integer_negate_def normalized_to_integer int_of_def)

definition checked :: "int \<Rightarrow> Integer option" where
  "checked z = (if in_range z then Some (to_integer z) else None)"

lemma checked_add_exact:
  assumes "magnitude i \<le> U128_MAX" "magnitude j \<le> U128_MAX"
  shows "Integer_checked_add i j = checked (int_of i + int_of j)"
  using assms
  by (auto simp: Integer_checked_add_def u128_checked_add_def checked_def in_range_def int_of_def normalized_to_integer of_nat_diff)

lemma checked_mul_exact:
  "map_option (Integer_normalized (negative i = (\<not> negative j))) (u128_checked_mul (magnitude i) (magnitude j))
     = checked (int_of i * int_of j)"
  by (auto simp: u128_checked_mul_def checked_def in_range_def int_of_def normalized_to_integer abs_mult simp flip: of_nat_mult)

lemma divide_exact:
  "Integer_normalized (negative i = (\<not> negative j)) (magnitude i div magnitude j) = to_integer (int_of i sdiv int_of j)"
  by (auto simp: normalized_to_integer int_of_def signed_divide_int_def zdiv_int sgn_if)

lemma remainder_exact:
  "Integer_normalized (negative i) (magnitude i mod magnitude j) = to_integer (int_of i smod int_of j)"
  by (auto simp: normalized_to_integer int_of_def smod_int_alt_def zmod_int sgn_if)

lemma compare_exact: "normal i \<Longrightarrow> normal j \<Longrightarrow> Integer_compare i j = cmp (int_of i) (int_of j)"
  by (auto simp: Integer_compare_def cmp_def int_of_def normal_def split: bool.split)

section \<open>Values\<close>

definition int_ok :: "Integer \<Rightarrow> bool" where
  "int_ok i \<longleftrightarrow> normal i \<and> magnitude i \<le> U128_MAX"

inductive value_ok :: "const_value \<Rightarrow> bool" where
  "int_ok i \<Longrightarrow> value_ok (V_Integer i)"
| "value_ok (V_Float f)"
| "value_ok (V_String t)"
| "value_ok (V_Character c)"
| "value_ok (V_Bool b)"
| "(\<And>v. v \<in> set vs \<Longrightarrow> value_ok v) \<Longrightarrow> value_ok (V_Array vs)"
| "btree_wf fs \<Longrightarrow> (\<And>x v. (x, v) \<in> set fs \<Longrightarrow> value_ok v) \<Longrightarrow> value_ok (V_Struct n fs)"

inductive_simps value_ok_simps [simp]:
  "value_ok (V_Integer i)" "value_ok (V_Float f)" "value_ok (V_String t)" "value_ok (V_Character c)"
  "value_ok (V_Bool b)" "value_ok (V_Array vs)" "value_ok (V_Struct n fs)"

definition env_ok :: "(string \<rightharpoonup> const_value) \<Rightarrow> bool" where
  "env_ok \<rho> \<longleftrightarrow> (\<forall>x v. \<rho> x = Some v \<longrightarrow> value_ok v)"

lemma env_okD: "env_ok \<rho> \<Longrightarrow> \<rho> x = Some v \<Longrightarrow> value_ok v"
  by (auto simp: env_ok_def)

lemma env_ok_empty [simp]: "env_ok Map.empty"
  by (simp add: env_ok_def)

lemma env_ok_upd: "env_ok \<rho> \<Longrightarrow> value_ok v \<Longrightarrow> env_ok (\<rho>(x \<mapsto> v))"
  by (auto simp: env_ok_def)

lemma env_ok_add: "env_ok \<rho> \<Longrightarrow> env_ok b \<Longrightarrow> env_ok (\<rho> ++ b)"
  by (auto simp: env_ok_def map_add_def split: option.splits)

lemma int_ok_checked: "checked z = Some i \<Longrightarrow> int_ok i"
  by (auto simp: checked_def int_ok_def in_range_def to_integer_def normal_def split: if_splits)

lemma pattern_matches_ok:
  shows "pattern_matches p v b = Some c \<Longrightarrow> value_ok v \<Longrightarrow> env_ok b \<Longrightarrow> env_ok c"
    and "pattern_matches_any ps v b = Some c \<Longrightarrow> value_ok v \<Longrightarrow> env_ok b \<Longrightarrow> env_ok c"
    and "pattern_matches_fields fs vs b = Some c \<Longrightarrow> value_ok (V_Struct [] vs) \<Longrightarrow> env_ok b \<Longrightarrow> env_ok c"
  by (induction p v b and ps v b and fs vs b arbitrary: c and c and c
      rule: pattern_matches_pattern_matches_any_pattern_matches_fields.induct)
     (auto split: if_splits option.splits intro: env_ok_upd dest: map_of_SomeD)

section \<open>The value of a constant expression\<close>

definition ref_integers :: "int \<Rightarrow> binary_operator \<Rightarrow> int \<Rightarrow> const_value option" where
  "ref_integers a op b =
     (case op of
        B_Add \<Rightarrow> map_option V_Integer (checked (a + b))
      | B_Subtract \<Rightarrow> map_option V_Integer (checked (a - b))
      | B_Multiply \<Rightarrow> map_option V_Integer (checked (a * b))
      | B_Divide \<Rightarrow> if b = 0 then None else Some (V_Integer (to_integer (a sdiv b)))
      | B_Remainder \<Rightarrow> if b = 0 then None else Some (V_Integer (to_integer (a smod b)))
      | B_Equal \<Rightarrow> Some (V_Bool (a = b))
      | B_NotEqual \<Rightarrow> Some (V_Bool (a \<noteq> b))
      | B_Less \<Rightarrow> Some (V_Bool (a < b))
      | B_LessEqual \<Rightarrow> Some (V_Bool (a \<le> b))
      | B_Greater \<Rightarrow> Some (V_Bool (a > b))
      | B_GreaterEqual \<Rightarrow> Some (V_Bool (a \<ge> b))
      | _ \<Rightarrow> None)"

definition ref_order :: "'a::linorder \<Rightarrow> binary_operator \<Rightarrow> 'a \<Rightarrow> const_value option" where
  "ref_order a op b =
     (case op of
        B_Equal \<Rightarrow> Some (V_Bool (a = b))
      | B_NotEqual \<Rightarrow> Some (V_Bool (a \<noteq> b))
      | B_Less \<Rightarrow> Some (V_Bool (a < b))
      | B_LessEqual \<Rightarrow> Some (V_Bool (a \<le> b))
      | B_Greater \<Rightarrow> Some (V_Bool (a > b))
      | B_GreaterEqual \<Rightarrow> Some (V_Bool (a \<ge> b))
      | _ \<Rightarrow> None)"

definition ref_floats :: "float_ops \<Rightarrow> f64 \<Rightarrow> binary_operator \<Rightarrow> f64 \<Rightarrow> const_value option" where
  "ref_floats fl x op y =
     (case op of
        B_Add \<Rightarrow> Some (V_Float (f_add fl x y))
      | B_Subtract \<Rightarrow> Some (V_Float (f_sub fl x y))
      | B_Multiply \<Rightarrow> Some (V_Float (f_mul fl x y))
      | B_Divide \<Rightarrow> Some (V_Float (f_div fl x y))
      | B_Remainder \<Rightarrow> Some (V_Float (f_rem fl x y))
      | B_And \<Rightarrow> None
      | B_Or \<Rightarrow> None
      | _ \<Rightarrow> Some (V_Bool (compare_floats x y op)))"

definition ref_bools :: "bool \<Rightarrow> binary_operator \<Rightarrow> bool \<Rightarrow> const_value option" where
  "ref_bools x op y =
     (case op of
        B_And \<Rightarrow> Some (V_Bool (x \<and> y))
      | B_Or \<Rightarrow> Some (V_Bool (x \<or> y))
      | B_Equal \<Rightarrow> Some (V_Bool (x = y))
      | B_NotEqual \<Rightarrow> Some (V_Bool (x \<noteq> y))
      | _ \<Rightarrow> None)"

definition ref_binary :: "float_ops \<Rightarrow> const_value \<Rightarrow> binary_operator \<Rightarrow> const_value \<Rightarrow> const_value option" where
  "ref_binary fl v op w =
     (case (v, w) of
        (V_Integer i, V_Integer j) \<Rightarrow> ref_integers (int_of i) op (int_of j)
      | (V_Float x, V_Float y) \<Rightarrow> ref_floats fl x op y
      | (V_String x, V_String y) \<Rightarrow> if op = B_Add then Some (V_String (x @ y)) else ref_order x op y
      | (V_Character x, V_Character y) \<Rightarrow> ref_order x op y
      | (V_Bool x, V_Bool y) \<Rightarrow> ref_bools x op y
      | _ \<Rightarrow> None)"

definition ref_unary :: "unary_operator \<Rightarrow> const_value \<Rightarrow> const_value option" where
  "ref_unary op v =
     (case (op, v) of
        (U_Negate, V_Integer i) \<Rightarrow> Some (V_Integer (to_integer (- int_of i)))
      | (U_Negate, V_Float f) \<Rightarrow> Some (V_Float (f64_negate f))
      | (U_Not, V_Bool b) \<Rightarrow> Some (V_Bool (\<not> b))
      | _ \<Rightarrow> None)"

definition decided :: "binary_operator \<Rightarrow> const_value \<Rightarrow> bool" where
  "decided op v \<longleftrightarrow> op = B_And \<and> v = V_Bool False \<or> op = B_Or \<and> v = V_Bool True"

definition answers :: "'a option \<Rightarrow> 'a eval \<Rightarrow> bool" where
  "answers r m \<longleftrightarrow> (\<forall>st. case r of Some v \<Rightarrow> m st = Ok (v, st) | None \<Rightarrow> \<exists>e. m st = Err e)"

lemma answers_intros:
  "answers (Some v) (returnE v)" "answers None (failE e)"
  "(b \<Longrightarrow> answers r m) \<Longrightarrow> (\<not> b \<Longrightarrow> answers r n) \<Longrightarrow> answers r (if b then m else n)"
  by (auto simp: answers_def returnE_def failE_def)

lemma answers_integer: "answers (map_option V_Integer r) (integer_result r s)"
  by (cases r) (simp_all add: integer_result_def answers_intros)

lemma cmp_iff:
  "cmp x y = OLess \<longleftrightarrow> x < y" "cmp x y = OEqual \<longleftrightarrow> x = y" "cmp x y = OGreater \<longleftrightarrow> y < x"
  by (auto simp: cmp_def)

lemma eval_integers_exact:
  assumes "int_ok i" "int_ok j"
  shows "answers (ref_integers (int_of i) op (int_of j)) (eval_integers i op j s)"
proof -
  have n: "int_ok (Integer_negate j)" "int_of (Integer_negate j) = - int_of j"
    using assms by (auto simp: negate_to_integer int_ok_def int_of_def to_integer_def normal_def)
  have z: "magnitude j = 0 \<longleftrightarrow> int_of j = 0" by (simp add: int_of_def)
  have ok: "normal i" "normal j" "magnitude i \<le> U128_MAX" "magnitude j \<le> U128_MAX"
    using assms by (auto simp: int_ok_def)
  have arith: "answers (map_option V_Integer (checked (int_of i + int_of j))) (integer_result (Integer_checked_add i j) s)"
    "answers (map_option V_Integer (checked (int_of i - int_of j))) (integer_result (Integer_checked_add i (Integer_negate j)) s)"
    using ok n answers_integer [of _ s] by (simp_all add: checked_add_exact int_ok_def)
  show ?thesis
    using arith answers_integer [of "checked (int_of i * int_of j)" s]
    by (cases op)
       (simp_all add: ref_integers_def eval_integers_def ok checked_mul_exact divide_exact remainder_exact compare_exact z
          cmp_iff not_less not_le answers_intros)
qed

lemma eval_operands_exact:
  assumes "value_ok v" "value_ok w"
  shows "answers (ref_binary fl v op w) (eval_operands fl v op w s)"
  using assms eval_integers_exact
  by (cases v; cases w)
     (auto simp: ref_binary_def eval_operands_def eval_floats_def ref_floats_def ref_bools_def ref_order_def cmp_iff not_less intro!: answers_intros
       split: binary_operator.splits)

lemma eval_unary_exact: "answers (ref_unary op v) (eval_unary op v s)"
  by (cases op; cases v) (auto simp: ref_unary_def negate_to_integer intro!: answers_intros)

inductive
  const_value_of :: "float_ops \<Rightarrow> (string \<rightharpoonup> const_value) \<Rightarrow> expr \<Rightarrow> const_value \<Rightarrow> nat \<Rightarrow> nat \<Rightarrow> bool" and
  const_node :: "float_ops \<Rightarrow> (string \<rightharpoonup> const_value) \<Rightarrow> expression \<Rightarrow> const_value \<Rightarrow> nat \<Rightarrow> nat \<Rightarrow> bool" and
  const_values :: "float_ops \<Rightarrow> (string \<rightharpoonup> const_value) \<Rightarrow> expr list \<Rightarrow> const_value list \<Rightarrow> nat \<Rightarrow> nat \<Rightarrow> bool" and
  const_fields :: "float_ops \<Rightarrow> (string \<rightharpoonup> const_value) \<Rightarrow> struct_field_value list \<Rightarrow> (string, const_value) btree
    \<Rightarrow> (string, const_value) btree \<Rightarrow> nat \<Rightarrow> nat \<Rightarrow> bool" and
  const_arms :: "float_ops \<Rightarrow> (string \<rightharpoonup> const_value) \<Rightarrow> const_value \<Rightarrow> match_arm list \<Rightarrow> const_value \<Rightarrow> nat \<Rightarrow> nat \<Rightarrow> bool"
  for fl
where
  Node: "const_node fl \<rho> nd v n h \<Longrightarrow> const_value_of fl \<rho> (Spanned nd s) v (Suc n) h"
| Int: "i \<le> U128_MAX \<Longrightarrow> const_node fl \<rho> (E_Integer i) (V_Integer (to_integer (int i))) 0 0"
| Float: "const_node fl \<rho> (E_Float f) (V_Float f) 0 0"
| String: "const_node fl \<rho> (E_String t) (V_String t) 0 0"
| Char: "const_node fl \<rho> (E_Character c) (V_Character c) 0 0"
| Bool: "const_node fl \<rho> (E_Bool b) (V_Bool b) 0 0"
| Name: "\<rho> x = Some v \<Longrightarrow> const_node fl \<rho> (E_Identifier x) v 0 0"
| Array: "const_values fl \<rho> es vs n h \<Longrightarrow> const_node fl \<rho> (E_Array es) (V_Array vs) n h"
| Struct: "const_fields fl \<rho> fs [] vs n h \<Longrightarrow> const_node fl \<rho> (E_StructConstruct t ts fs) (V_Struct t vs) n h"
| Field: "const_value_of fl \<rho> ob (V_Struct t vs) n h \<Longrightarrow> map_of vs f = Some w
    \<Longrightarrow> const_node fl \<rho> (E_FieldAccess ob f fs) w n (Suc h)"
| Unary: "const_value_of fl \<rho> e v n h \<Longrightarrow> ref_unary op v = Some w \<Longrightarrow> const_node fl \<rho> (E_Unary op e) w n (Suc h)"
| Short: "const_value_of fl \<rho> l v n h \<Longrightarrow> decided op v \<Longrightarrow> const_node fl \<rho> (E_Binary l op r) v n (Suc h)"
| Binary: "const_value_of fl \<rho> l v n h \<Longrightarrow> \<not> decided op v \<Longrightarrow> const_value_of fl \<rho> r w m k
    \<Longrightarrow> ref_binary fl v op w = Some u \<Longrightarrow> const_node fl \<rho> (E_Binary l op r) u (n + m) (Suc (max h k))"
| Match: "const_value_of fl \<rho> e v n h \<Longrightarrow> const_arms fl \<rho> v arms w m k
    \<Longrightarrow> const_node fl \<rho> (E_Match e arms) w (n + m) (max (Suc h) k)"
| Nil: "const_values fl \<rho> [] [] 0 0"
| Cons: "const_value_of fl \<rho> e v n h \<Longrightarrow> const_values fl \<rho> es vs m k
    \<Longrightarrow> const_values fl \<rho> (e # es) (v # vs) (n + m) (max (Suc h) k)"
| NoField: "const_fields fl \<rho> [] vs vs 0 0"
| OneField: "const_value_of fl \<rho> e v n h \<Longrightarrow> const_fields fl \<rho> fs (btree_insert x v vs) ws m k
    \<Longrightarrow> const_fields fl \<rho> (StructFieldValue x xs e # fs) vs ws (n + m) (max (Suc h) k)"
| Skip: "pattern_matches (node p) v Map.empty = None \<Longrightarrow> const_arms fl \<rho> v arms w m k
    \<Longrightarrow> const_arms fl \<rho> v (MatchArm p grp guard e t # arms) w m k"
| Refuse: "pattern_matches (node p) v Map.empty = Some b \<Longrightarrow> const_value_of fl (\<rho> ++ b) g u n h \<Longrightarrow> u \<noteq> V_Bool True
    \<Longrightarrow> const_arms fl \<rho> v arms w m k \<Longrightarrow> const_arms fl \<rho> v (MatchArm p grp (Some g) e t # arms) w (n + m) (max (Suc h) k)"
| Take: "pattern_matches (node p) v Map.empty = Some b \<Longrightarrow> const_value_of fl (\<rho> ++ b) e w n h
    \<Longrightarrow> const_arms fl \<rho> v (MatchArm p grp None e t # arms) w n (Suc h)"
| Guarded: "pattern_matches (node p) v Map.empty = Some b \<Longrightarrow> const_value_of fl (\<rho> ++ b) g (V_Bool True) n h
    \<Longrightarrow> const_value_of fl (\<rho> ++ b) e w m k
    \<Longrightarrow> const_arms fl \<rho> v (MatchArm p grp (Some g) e t # arms) w (n + m) (Suc (max h k))"

inductive_simps const_value_simps: "const_value_of fl \<rho> (Spanned nd s) v n h"
inductive_simps const_node_simps:
  "const_node fl \<rho> (E_Integer i) v n h" "const_node fl \<rho> (E_Float i) v n h" "const_node fl \<rho> (E_String i) v n h"
  "const_node fl \<rho> (E_Character i) v n h" "const_node fl \<rho> (E_Bool i) v n h" "const_node fl \<rho> (E_Identifier i) v n h"
  "const_node fl \<rho> (E_Array i) v n h" "const_node fl \<rho> (E_StructConstruct a b c) v n h"
  "const_node fl \<rho> (E_FieldAccess a b c) v n h" "const_node fl \<rho> (E_Unary a b) v n h" "const_node fl \<rho> (E_Binary a b c) v n h"
  "const_node fl \<rho> (E_Match a b) v n h" "const_node fl \<rho> (E_DataStore a) v n h" "const_node fl \<rho> (E_DataWrite a b c) v n h"
  "const_node fl \<rho> (E_DataQuery a b c d e f g i) v n h" "const_node fl \<rho> (E_DataRemove a b c d) v n h"
  "const_node fl \<rho> (E_Closure a b c d) v n h" "const_node fl \<rho> (E_Index a b) v n h" "const_node fl \<rho> (E_Subslice a b c) v n h"
  "const_node fl \<rho> (E_Try a) v n h" "const_node fl \<rho> (E_Await a) v n h" "const_node fl \<rho> (E_Spawn a) v n h"
  "const_node fl \<rho> (E_Move a) v n h" "const_node fl \<rho> (E_Borrow a b) v n h" "const_node fl \<rho> (E_Dereference a) v n h"
  "const_node fl \<rho> (E_Call a b) v n h"
inductive_simps const_list_simps:
  "const_values fl \<rho> [] vs n h" "const_values fl \<rho> (e # es) vs n h"
  "const_fields fl \<rho> [] vs ws n h" "const_fields fl \<rho> (StructFieldValue x xs e # fs) vs ws n h"
  "const_arms fl \<rho> v [] w n h" "const_arms fl \<rho> v (MatchArm p grp guard e t # arms) w n h"

lemma entries_btree_insert: "set (btree_insert x v m) \<subseteq> insert (x, v) (set m)"
  by (induction x v m rule: btree_insert.induct) auto

lemma int_ok_quotient:
  assumes "int_ok i"
  shows "int_ok (to_integer (int_of i sdiv int_of j))" "int_ok (to_integer (int_of i smod int_of j))"
  using assms order.trans [OF div_le_dividend [of "magnitude i" "magnitude j"]] order.trans [OF mod_less_eq_dividend [of "magnitude i" "magnitude j"]]
  by (simp_all add: int_ok_def normal_def Integer_normalized_def flip: divide_exact remainder_exact)

lemma ref_binary_ok:
  assumes "ref_binary fl v op w = Some u" "value_ok v" "value_ok w"
  shows "value_ok u"
  using assms
  by (auto simp: ref_binary_def ref_integers_def ref_floats_def ref_order_def ref_bools_def int_ok_quotient dest: int_ok_checked
      split: const_value.splits binary_operator.splits if_splits)

lemma match_env_ok:
  "pattern_matches p v Map.empty = Some b \<Longrightarrow> value_ok v \<Longrightarrow> env_ok \<rho> \<Longrightarrow> env_ok (\<rho> ++ b)"
  using pattern_matches_ok(1) [of p v Map.empty b] by (simp add: env_ok_add)

lemma const_ok:
  shows "const_value_of fl \<rho> e v n h \<Longrightarrow> env_ok \<rho> \<Longrightarrow> value_ok v"
    and "const_node fl \<rho> nd v n h \<Longrightarrow> env_ok \<rho> \<Longrightarrow> value_ok v"
    and "const_values fl \<rho> es vs n h \<Longrightarrow> env_ok \<rho> \<Longrightarrow> list_all value_ok vs"
    and "const_fields fl \<rho> fs xvs xws n h \<Longrightarrow> env_ok \<rho> \<Longrightarrow> value_ok (V_Struct t xvs) \<Longrightarrow> value_ok (V_Struct t xws)"
    and "const_arms fl \<rho> v arms w n h \<Longrightarrow> env_ok \<rho> \<Longrightarrow> value_ok v \<Longrightarrow> value_ok w"
proof (induction rule: const_value_of_const_node_const_values_const_fields_const_arms.inducts)
  case (Unary \<rho> e v n h op w)
  then show ?case by (cases op; cases v) (auto simp: ref_unary_def int_ok_def to_integer_def int_of_def normal_def)
next
  case (Binary \<rho> l v n h op r w m k u)
  then show ?case using ref_binary_ok by blast
next
  case (OneField \<rho> e v n h fs x vs ws m k xs)
  then show ?case using entries_btree_insert [of x v vs] by (auto simp: btree_wf_insert)
qed (auto simp: int_ok_def to_integer_def normal_def list_all_iff dest: env_okD map_of_SomeD intro: match_env_ok)

section \<open>The evaluator computes it\<close>

definition spend :: "nat \<Rightarrow> evaluator \<Rightarrow> evaluator" where
  "spend n st = st\<lparr>ev_steps := ev_steps st + n\<rparr>"

definition affords :: "evaluator \<Rightarrow> nat \<Rightarrow> nat \<Rightarrow> nat \<Rightarrow> bool" where
  "affords st depth n h \<longleftrightarrow> ev_steps st + n \<le> lim_steps (ev_limits st) \<and> depth + h \<le> lim_depth (ev_limits st)"

definition eval_pre :: "evaluator \<Rightarrow> bool" where
  "eval_pre st \<longleftrightarrow> lim_steps (ev_limits st) \<le> USIZE_MAX \<and> env_ok (scopes_lookup (ev_scopes st))"

lemma spend_simps [simp]:
  "spend 0 st = st" "spend n (spend m st) = spend (m + n) st" "ev_scopes (spend n st) = ev_scopes st"
  "ev_limits (spend n st) = ev_limits st" "ev_steps (spend n st) = ev_steps st + n" "eval_pre (spend n st) = eval_pre st"
  by (simp_all add: spend_def eval_pre_def)

lemma affords_simps:
  "affords st d (n + m) (max h k) \<longleftrightarrow> affords st d n h \<and> affords (spend n st) d m k"
  "affords st d n (Suc h) \<longleftrightarrow> affords st (Suc d) n h"
  by (auto simp: affords_def)

lemma bindE_Ok: "m st = Ok (x, st') \<Longrightarrow> bindE m f st = f x st'"
  by (simp add: bindE_def)

lemma bindE_iff: "bindE m f st = Ok (y, st'') \<longleftrightarrow> (\<exists>x st'. m st = Ok (x, st') \<and> f x st' = Ok (y, st''))"
  by (auto simp: bindE_def outcome_simps)

lemma returnE_iff: "returnE x st = Ok (y, st') \<longleftrightarrow> y = x \<and> st' = st"
  by (auto simp: returnE_def)

lemma eval_enter_iff:
  "eval_pre st \<Longrightarrow> eval_enter depth s st = Ok (u, st') \<longleftrightarrow> affords st depth 1 0 \<and> st' = spend 1 st"
  by (auto simp: eval_enter_def usize_checked_add_def affords_def eval_pre_def spend_def)

lemma lookup_pushed: "scopes_lookup ((\<lambda>x. map_option Some (b x)) # scs) = scopes_lookup scs ++ b"
  by (auto simp: map_add_def split: option.splits)

definition pushed :: "(string \<rightharpoonup> const_value) \<Rightarrow> evaluator \<Rightarrow> evaluator" where
  "pushed b st = st\<lparr>ev_scopes := (\<lambda>x. map_option Some (b x)) # ev_scopes st\<rparr>"

lemma pushed_simps [simp]:
  "push_scope (\<lambda>x. map_option Some (b x)) st = Ok ((), pushed b st)"
  "pop_scope (pushed b st) = Ok ((), st)" "pop_scope (spend n (pushed b st)) = Ok ((), spend n st)"
  "scopes_lookup (ev_scopes (pushed b st)) = scopes_lookup (ev_scopes st) ++ b"
  "affords (pushed b st) d n h = affords st d n h" "affords (spend m (pushed b st)) d n h = affords (spend m st) d n h"
  by (simp_all add: push_scope_def pop_scope_def pushed_def spend_def affords_def lookup_pushed)

lemma eval_pre_pushed:
  "eval_pre st \<Longrightarrow> pattern_matches p v Map.empty = Some b \<Longrightarrow> value_ok v \<Longrightarrow> eval_pre (pushed b st)"
  using match_env_ok [of p v b "scopes_lookup (ev_scopes st)"] by (simp add: eval_pre_def) (simp add: pushed_def)

lemma answers_iff: "answers r m \<Longrightarrow> m st = Ok (v, st') \<longleftrightarrow> r = Some v \<and> st' = st"
  unfolding answers_def by (cases r) (auto dest: spec [of _ st])

lemma eval_complete:
  shows "const_value_of fl \<rho> e v n h \<Longrightarrow> eval_pre st \<Longrightarrow> scopes_lookup (ev_scopes st) = \<rho> \<Longrightarrow> affords st d n h
      \<Longrightarrow> eval fl e d st = Ok (v, spend n st)"
    and "const_node fl \<rho> nd v n h \<Longrightarrow> eval_pre st \<Longrightarrow> scopes_lookup (ev_scopes st) = \<rho> \<Longrightarrow> affords st d n h
      \<Longrightarrow> eval_node fl nd s d st = Ok (v, spend n st)"
    and "const_values fl \<rho> es vs n h \<Longrightarrow> eval_pre st \<Longrightarrow> scopes_lookup (ev_scopes st) = \<rho> \<Longrightarrow> affords st d n h
      \<Longrightarrow> eval_values fl es d st = Ok (vs, spend n st)"
    and "const_fields fl \<rho> fs xvs xws n h \<Longrightarrow> eval_pre st \<Longrightarrow> scopes_lookup (ev_scopes st) = \<rho> \<Longrightarrow> affords st d n h
      \<Longrightarrow> eval_fields fl fs d xvs st = Ok (xws, spend n st)"
    and "const_arms fl \<rho> v arms w n h \<Longrightarrow> eval_pre st \<Longrightarrow> scopes_lookup (ev_scopes st) = \<rho> \<Longrightarrow> affords st d n h \<Longrightarrow> value_ok v
      \<Longrightarrow> eval_arms fl v arms d s st = Ok (w, spend n st)"
proof (induction arbitrary: st d and st d s and st d and st d and st d s
    rule: const_value_of_const_node_const_values_const_fields_const_arms.inducts)
  case (Node \<rho> nd v n h t)
  have "eval_enter d t st = Ok ((), spend 1 st)" using Node.prems by (auto simp: eval_enter_iff affords_def)
  moreover have "eval_node fl nd t d (spend 1 st) = Ok (v, spend n (spend 1 st))"
    using Node.prems by (intro Node.IH) (auto simp: affords_def)
  ultimately show ?case by (simp add: bindE_Ok)
next
  case (Field \<rho> ob t vs n h f w fs)
  then show ?case by (simp add: affords_simps bindE_def returnE_def)
next
  case (Unary \<rho> e v n h op w)
  have "eval_unary op v s (spend n st) = Ok (w, spend n st)"
    using eval_unary_exact [of op v s] Unary(3) by (simp add: answers_def)
  with Unary show ?case by (simp add: affords_simps bindE_def)
next
  case (Short \<rho> l v n h op r)
  then show ?case by (auto simp: affords_simps bindE_def returnE_def decided_def)
next
  case (Binary \<rho> l v n h op r w m k u)
  have ok: "value_ok v" "value_ok w" using Binary.IH Binary.prems const_ok(1) by (auto simp: eval_pre_def)
  have "eval_operands fl v op w s (spend (n + m) st) = Ok (u, spend (n + m) st)"
    using eval_operands_exact [OF ok, of fl op s] Binary.IH by (simp add: answers_def)
  moreover have "\<not> (op = B_And \<and> v = V_Bool False)" "\<not> (op = B_Or \<and> v = V_Bool True)"
    using Binary.hyps by (auto simp: decided_def)
  ultimately show ?case using Binary.IH Binary.prems by (auto simp: affords_simps bindE_def)
next
  case (Match \<rho> e v n h arms w m k)
  have "value_ok v" using Match(1) Match.prems const_ok(1) by (auto simp: eval_pre_def)
  with Match show ?case by (simp add: affords_simps bindE_def)
qed (simp_all add: affords_simps bindE_def returnE_def positive_to_integer eval_pre_pushed)

text \<open>The integer literals the evaluator reads fit their type, as the lexer guarantees.\<close>

primrec u128_literals :: "expression \<Rightarrow> bool" where
  "u128_literals (E_Integer i) \<longleftrightarrow> i \<le> U128_MAX"
| "u128_literals (E_Array es) \<longleftrightarrow> list_all node (map (map_spanned u128_literals) es)"
| "u128_literals (E_StructConstruct n ns fs) \<longleftrightarrow>
     list_all (\<lambda>f. node (fv_value f)) (map (map_struct_field_value_of u128_literals) fs)"
| "u128_literals (E_FieldAccess ob f fs) \<longleftrightarrow> node (map_spanned u128_literals ob)"
| "u128_literals (E_Unary op e) \<longleftrightarrow> node (map_spanned u128_literals e)"
| "u128_literals (E_Binary l op r) \<longleftrightarrow> node (map_spanned u128_literals l) \<and> node (map_spanned u128_literals r)"
| "u128_literals (E_Match e arms) \<longleftrightarrow> node (map_spanned u128_literals e) \<and>
     list_all (\<lambda>a. pred_option node (arm_guard a) \<and> node (arm_value a)) (map (map_match_arm_of u128_literals) arms)"
| "u128_literals (E_Float x) \<longleftrightarrow> True"
| "u128_literals (E_String x) \<longleftrightarrow> True"
| "u128_literals (E_Character x) \<longleftrightarrow> True"
| "u128_literals (E_Bool x) \<longleftrightarrow> True"
| "u128_literals (E_Identifier x) \<longleftrightarrow> True"
| "u128_literals (E_DataStore a) \<longleftrightarrow> True"
| "u128_literals (E_DataWrite a b c) \<longleftrightarrow> True"
| "u128_literals (E_DataQuery a b c d e f g h) \<longleftrightarrow> True"
| "u128_literals (E_DataRemove a b c d) \<longleftrightarrow> True"
| "u128_literals (E_Closure a b c d) \<longleftrightarrow> True"
| "u128_literals (E_Index a b) \<longleftrightarrow> True"
| "u128_literals (E_Subslice a b c) \<longleftrightarrow> True"
| "u128_literals (E_Try a) \<longleftrightarrow> True"
| "u128_literals (E_Await a) \<longleftrightarrow> True"
| "u128_literals (E_Spawn a) \<longleftrightarrow> True"
| "u128_literals (E_Move a) \<longleftrightarrow> True"
| "u128_literals (E_Borrow a b) \<longleftrightarrow> True"
| "u128_literals (E_Dereference a) \<longleftrightarrow> True"
| "u128_literals (E_Call a b) \<longleftrightarrow> True"

abbreviation env_of :: "evaluator \<Rightarrow> string \<rightharpoonup> const_value" where
  "env_of st \<equiv> scopes_lookup (ev_scopes st)"

lemmas const_intros = const_value_of_const_node_const_values_const_fields_const_arms.intros

lemma outcomeI: "R n h \<Longrightarrow> affords st d n h \<Longrightarrow> st' = spend n st \<Longrightarrow> \<exists>n h. R n h \<and> affords st d n h \<and> st' = spend n st"
  by blast

lemma eval_sound:
  shows "eval fl e d st = Ok (v, st') \<Longrightarrow> eval_pre st \<Longrightarrow> u128_literals (node e)
      \<Longrightarrow> \<exists>n h. const_value_of fl (env_of st) e v n h \<and> affords st d n h \<and> st' = spend n st"
    and "eval_node fl nd s d st = Ok (v, st') \<Longrightarrow> eval_pre st \<Longrightarrow> affords st d 0 0 \<Longrightarrow> u128_literals nd
      \<Longrightarrow> \<exists>n h. const_node fl (env_of st) nd v n h \<and> affords st d n h \<and> st' = spend n st"
    and "eval_binary fl l op r d s st = Ok (v, st') \<Longrightarrow> eval_pre st \<Longrightarrow> u128_literals (node l) \<Longrightarrow> u128_literals (node r)
      \<Longrightarrow> \<exists>n h. const_node fl (env_of st) (E_Binary l op r) v n h \<and> affords st d n h \<and> st' = spend n st"
    and "eval_values fl es d st = Ok (vs, st') \<Longrightarrow> eval_pre st \<Longrightarrow> affords st d 0 0 \<Longrightarrow> list_all (\<lambda>e. u128_literals (node e)) es
      \<Longrightarrow> \<exists>n h. const_values fl (env_of st) es vs n h \<and> affords st d n h \<and> st' = spend n st"
    and "eval_fields fl fs d xvs st = Ok (xws, st') \<Longrightarrow> eval_pre st \<Longrightarrow> affords st d 0 0
      \<Longrightarrow> list_all (\<lambda>f. u128_literals (node (fv_value f))) fs
      \<Longrightarrow> \<exists>n h. const_fields fl (env_of st) fs xvs xws n h \<and> affords st d n h \<and> st' = spend n st"
    and "eval_arms fl u arms d s st = Ok (v, st') \<Longrightarrow> eval_pre st \<Longrightarrow> affords st d 0 0 \<Longrightarrow> value_ok u
      \<Longrightarrow> list_all (\<lambda>a. pred_option (\<lambda>e. u128_literals (node e)) (arm_guard a) \<and> u128_literals (node (arm_value a))) arms
      \<Longrightarrow> \<exists>n h. const_arms fl (env_of st) u arms v n h \<and> affords st d n h \<and> st' = spend n st"
proof (induction fl e d and fl nd s d and fl l op r d s and fl es d and fl fs d xvs and fl u arms d s
    arbitrary: st st' v and st st' v and st st' v and st st' vs and st st' xws and st st' v
    rule: eval_eval_node_eval_binary_eval_values_eval_fields_eval_arms.induct)
  case (1 fl nd s depth)
  then have "eval_node fl nd s depth (spend 1 st) = Ok (v, st')" "affords st depth 1 0"
    by (auto simp: bindE_iff eval_enter_iff)
  with 1 obtain n h where "const_node fl (env_of st) nd v n h" "affords (spend 1 st) depth n h" "st' = spend n (spend 1 st)"
    by (force simp: affords_def)
  then show ?case by (intro exI [of _ "Suc n"] exI [of _ h]) (auto simp: affords_def const_value_simps)
next
  case (7 fl x s depth)
  then show ?case by (auto simp: const_node_simps split: option.splits intro!: exI [of _ 0])
next
  case (9 fl n ns fs s depth)
  then show ?case by (force simp: bindE_iff returnE_iff const_node_simps list.pred_map comp_def struct_field_value_of.map_sel)
next
  case (10 fl obj f fs s depth)
  then obtain u st1 where u: "eval fl obj (depth + 1) st = Ok (u, st1)"
    and w: "(case u of V_Struct t vs \<Rightarrow> (case map_of vs f of Some w \<Rightarrow> returnE w
        | None \<Rightarrow> failE (eval_error (''unknown compile-time field `'' @ f @ ''`'') s))
      | _ \<Rightarrow> failE (eval_error ''compile-time field access requires a struct value'' s)) st1 = Ok (v, st')"
    by (auto simp: bindE_iff)
  from 10(1) [OF u] "10.prems" obtain n h where "const_value_of fl (env_of st) obj u n h" "affords st (Suc depth) n h" "st1 = spend n st"
    by auto
  moreover from w obtain t vs where "u = V_Struct t vs" "map_of vs f = Some v" "st1 = st'"
    by (auto simp: failE_def returnE_iff split: const_value.splits option.splits)
  ultimately show ?case by (intro outcomeI [where n = n and h = "Suc h"]) (auto simp: affords_simps const_node_simps)
next
  case (11 fl op e s depth)
  then obtain u st1 where u: "eval fl e (depth + 1) st = Ok (u, st1)" and w: "eval_unary op u s st1 = Ok (v, st')"
    by (auto simp: bindE_iff)
  from 11(1) [OF u] "11.prems" obtain n h where "const_value_of fl (env_of st) e u n h" "affords st (Suc depth) n h" "st1 = spend n st"
    by auto
  moreover from w have "ref_unary op u = Some v" "st1 = st'" using answers_iff [OF eval_unary_exact] by auto
  ultimately show ?case by (intro outcomeI [where n = n and h = "Suc h"]) (auto simp: affords_simps const_node_simps)
next
  case (13 fl e arms s depth)
  then obtain u st1 where u: "eval fl e (depth + 1) st = Ok (u, st1)" and w: "eval_arms fl u arms depth s st1 = Ok (v, st')"
    by (auto simp: bindE_iff)
  from 13(1) [OF u] "13.prems" obtain n h where e: "const_value_of fl (env_of st) e u n h" "affords st (Suc depth) n h" "st1 = spend n st"
    by auto
  moreover have "value_ok u" using const_ok(1) [OF e(1)] "13.prems" by (simp add: eval_pre_def)
  with 13(2) [OF w] e "13.prems" obtain m k where "const_arms fl (env_of st) u arms v m k" "affords st1 depth m k" "st' = spend m st1"
    by (auto simp: list.pred_map comp_def match_arm_of.map_sel option.pred_map affords_def)
  ultimately show ?case
    by (intro outcomeI [where n = "n + m" and h = "max (Suc h) k"]) (auto simp: affords_simps intro: const_intros)
next
  case (15 fl l op r depth s)
  then obtain u st1 where u: "eval fl l (depth + 1) st = Ok (u, st1)"
    and w: "(if op = B_And \<and> u = V_Bool False then returnE (V_Bool False)
       else if op = B_Or \<and> u = V_Bool True then returnE (V_Bool True)
       else bindE (eval fl r (depth + 1)) (\<lambda>w. eval_operands fl u op w s)) st1 = Ok (v, st')"
    by (auto simp: bindE_iff)
  from 15(1) [OF u] "15.prems" obtain n h where e: "const_value_of fl (env_of st) l u n h" "affords st (Suc depth) n h" "st1 = spend n st"
    by auto
  show ?case
  proof (cases "decided op u")
    case True
    with w have "v = u" "st' = st1" by (auto simp: decided_def returnE_iff)
    with e True show ?thesis by (intro outcomeI [where n = n and h = "Suc h"]) (auto simp: affords_simps intro: const_intros)
  next
    case False
    then have nd: "\<not> (op = B_And \<and> u = V_Bool False)" "\<not> (op = B_Or \<and> u = V_Bool True)" by (auto simp: decided_def)
    with w obtain w' st2 where r: "eval fl r (depth + 1) st1 = Ok (w', st2)" "eval_operands fl u op w' s st2 = Ok (v, st')"
      by (auto simp: bindE_iff)
    from 15(2) [OF nd r(1)] e(3) "15.prems" obtain m k where
      f: "const_value_of fl (env_of st) r w' m k" "affords st1 (Suc depth) m k" "st2 = spend m st1" by auto
    have "value_ok u" "value_ok w'" using const_ok(1) e(1) f(1) "15.prems" by (auto simp: eval_pre_def)
    then have "ref_binary fl u op w' = Some v" "st2 = st'" using answers_iff [OF eval_operands_exact] r(2) by auto
    with e f False show ?thesis
      by (intro outcomeI [where n = "n + m" and h = "Suc (max h k)"]) (auto simp: affords_simps intro: const_intros)
  qed
next
  case (17 fl e es depth)
  then obtain u st1 us where u: "eval fl e (depth + 1) st = Ok (u, st1)" "eval_values fl es depth st1 = Ok (us, st')" "vs = u # us"
    by (auto simp: bindE_iff returnE_iff)
  from 17(1) [OF u(1)] "17.prems" obtain n h where
    e: "const_value_of fl (env_of st) e u n h" "affords st (Suc depth) n h" "st1 = spend n st" by auto
  with 17(2) [OF u(2)] "17.prems" obtain m k where
    "const_values fl (env_of st) es us m k" "affords st1 depth m k" "st' = spend m st1" by (auto simp: affords_def)
  with e u(3) show ?case
    by (intro outcomeI [where n = "n + m" and h = "max (Suc h) k"]) (auto simp: affords_simps intro: const_intros)
next
  case (19 fl x xs e fs depth vs)
  then obtain u st1 where u: "eval fl e (depth + 1) st = Ok (u, st1)" "eval_fields fl fs depth (btree_insert x u vs) st1 = Ok (xws, st')"
    by (auto simp: bindE_iff)
  from 19(1) [OF u(1)] "19.prems" obtain n h where
    e: "const_value_of fl (env_of st) e u n h" "affords st (Suc depth) n h" "st1 = spend n st" by auto
  with 19(2) [OF u(2)] "19.prems" obtain m k where
    "const_fields fl (env_of st) fs (btree_insert x u vs) xws m k" "affords st1 depth m k" "st' = spend m st1" by (auto simp: affords_def)
  with e show ?case
    by (intro outcomeI [where n = "n + m" and h = "max (Suc h) k"]) (auto simp: affords_simps intro: const_intros)
next
  case (21 fl u p grp guard e t arms depth s)
  note run = "21.prems"(1) and lits = "21.prems"(5)
  show ?case
  proof (cases "pattern_matches (node p) u Map.empty")
    case None
    with 21(1) [OF None, of st v st'] "21.prems" show ?thesis by (auto intro: const_intros)
  next
    case (Some b)
    have pre: "eval_pre (pushed b st)" by (rule eval_pre_pushed [OF "21.prems"(2) Some "21.prems"(4)])
    show ?thesis
    proof (cases guard)
      case None
      with run Some obtain st1 where r: "eval fl e (depth + 1) (pushed b st) = Ok (v, st1)" "pop_scope st1 = Ok ((), st')"
        by (auto simp: bindE_iff returnE_iff)
      from 21(4) [OF Some, of True, OF _ r(1) pre] lits obtain n h where
        "const_value_of fl (env_of st ++ b) e v n h" "affords st (Suc depth) n h" "st1 = spend n (pushed b st)" by auto
      with r(2) Some None show ?thesis
        by (intro outcomeI [where n = n and h = "Suc h"]) (auto simp: affords_simps intro: const_intros)
    next
      case (Some g)
      note matched = \<open>pattern_matches (node p) u Map.empty = Some b\<close>
      from run Some matched obtain w st1 where g: "eval fl g (depth + 1) (pushed b st) = Ok (w, st1)"
        and rest: "(if w \<noteq> V_Bool True then bindE pop_scope (\<lambda>_. eval_arms fl u arms depth s)
          else bindE (eval fl e (depth + 1)) (\<lambda>r. bindE pop_scope (\<lambda>_. returnE r))) st1 = Ok (v, st')"
        by (auto simp: bindE_iff returnE_iff)
      from 21(2) [OF matched Some g pre] lits Some obtain n h where
        gv: "const_value_of fl (env_of st ++ b) g w n h" "affords st (Suc depth) n h" "st1 = spend n (pushed b st)" by auto
      show ?thesis
      proof (cases "w = V_Bool True")
        case True
        with rest obtain st2 where r: "eval fl e (depth + 1) st1 = Ok (v, st2)" "pop_scope st2 = Ok ((), st')"
          by (auto simp: bindE_iff returnE_iff)
        from 21(4) [OF matched, of True, OF _ r(1)] pre gv(3) lits obtain m k where
          "const_value_of fl (env_of st ++ b) e v m k" "affords (spend n st) (Suc depth) m k" "st2 = spend m st1" by auto
        with r(2) gv True Some matched show ?thesis
          by (intro outcomeI [where n = "n + m" and h = "Suc (max h k)"]) (auto simp: affords_simps intro: const_intros)
      next
        case False
        with rest gv(3) have r: "eval_arms fl u arms depth s (spend n st) = Ok (v, st')" by (auto simp: bindE_iff)
        with 21(3) [OF matched, of False, OF _ r] "21.prems" gv(2) obtain m k where
          "const_arms fl (env_of st) u arms v m k" "affords (spend n st) depth m k" "st' = spend m (spend n st)" by (auto simp: affords_def)
        with gv False Some matched show ?thesis
          by (intro outcomeI [where n = "n + m" and h = "max (Suc h) k"]) (auto simp: affords_simps intro: const_intros)
      qed
    qed
  qed
qed (auto simp: bindE_iff returnE_iff failE_def const_node_simps const_list_simps positive_to_integer affords_simps list.pred_map comp_def)

lemma eval_iff:
  assumes "eval_pre st" "u128_literals (node e)"
  shows "eval fl e d st = Ok (v, st') \<longleftrightarrow>
    (\<exists>n h. const_value_of fl (env_of st) e v n h \<and> affords st d n h \<and> st' = spend n st)"
  using eval_sound(1) [OF _ assms] eval_complete(1) [OF _ assms(1) refl] by blast

text \<open>
  C9: the evaluator returns a value exactly when the big-step semantics gives the expression that value at a cost
  the step and depth budgets allow, and it charges precisely that many steps and changes nothing else.
\<close>

theorem eval_exact:
  assumes "lim_steps (ev_limits st) \<le> USIZE_MAX" "env_ok (scopes_lookup (ev_scopes st))" "u128_literals (node e)"
  shows "eval fl e depth st = Ok (v, st') \<longleftrightarrow>
    (\<exists>n h. const_value_of fl (scopes_lookup (ev_scopes st)) e v n h
      \<and> ev_steps st + n \<le> lim_steps (ev_limits st) \<and> depth + h \<le> lim_depth (ev_limits st)
      \<and> st' = st\<lparr>ev_steps := ev_steps st + n\<rparr>)"
  using assms by (simp add: eval_iff eval_pre_def affords_def spend_def)

definition sample_floats :: float_ops where
  "sample_floats = \<lparr>f_add = \<lambda>x y. 0, f_sub = \<lambda>x y. 0, f_mul = \<lambda>x y. 0, f_div = \<lambda>x y. 0, f_rem = \<lambda>x y. 0\<rparr>"

definition sample_state :: evaluator where
  "sample_state = \<lparr>ev_scopes = [[''n'' \<mapsto> Some (V_Integer (Integer_positive 7))]], ev_constants = [], ev_function = ''main'',
     ev_steps = 0, ev_value_nodes = 0, ev_string_bytes = 0, ev_limits = Limits_default\<rparr>"

abbreviation sample_span :: span where
  "sample_span \<equiv> Span_point 1 1"

definition sample_expr :: expr where
  "sample_expr = Spanned (E_Binary (Spanned (E_Unary U_Negate (Spanned (E_Identifier ''n'') sample_span)) sample_span) B_Divide
     (Spanned (E_Integer 2) sample_span)) sample_span"

lemma sample_env_ok: "env_ok (scopes_lookup (ev_scopes sample_state))"
  by (auto simp: env_ok_def sample_state_def int_ok_def normal_def Integer_positive_def U128_MAX_def split: if_splits)

lemma sample_value_of:
  "const_value_of sample_floats (scopes_lookup (ev_scopes sample_state)) sample_expr (V_Integer (Integer_normalized True 3)) 4 2"
  by (auto simp: sample_expr_def sample_state_def const_value_simps const_node_simps decided_def ref_unary_def ref_binary_def
      ref_integers_def U128_MAX_def int_of_def Integer_positive_def to_integer_def Integer_normalized_def signed_divide_int_def)

theorem eval_exact_witness:
  "eval sample_floats sample_expr 0 sample_state
     = Ok (V_Integer (Integer_normalized True 3), sample_state\<lparr>ev_steps := 4\<rparr>)"
proof -
  have "lim_steps (ev_limits sample_state) \<le> USIZE_MAX" "u128_literals (node sample_expr)"
    by (simp_all add: sample_state_def sample_expr_def Limits_default_def MAX_CONST_STEPS_def USIZE_MAX_def U128_MAX_def)
  then show ?thesis
    using sample_value_of eval_exact [of sample_state sample_expr sample_floats 0 "V_Integer (Integer_normalized True 3)" "sample_state\<lparr>ev_steps := 4\<rparr>"]
      sample_env_ok
    by (auto simp: sample_state_def Limits_default_def MAX_CONST_STEPS_def MAX_CONST_DEPTH_def intro!: exI [of _ 4] exI [of _ 2])
qed

text \<open>
  C10: evaluation keeps values well formed. Whatever operators, literals, structs and patterns produced it, every
  integer in the value has one zero and a magnitude of at most 128 bits, and the fields of every struct are in
  strictly ascending order, provided the values in scope are so.
\<close>

theorem eval_well_formed:
  assumes "lim_steps (ev_limits st) \<le> USIZE_MAX" "env_ok (scopes_lookup (ev_scopes st))" "u128_literals (node e)"
    and "eval fl e depth st = Ok (v, st')"
  shows "value_ok v \<and> env_ok (scopes_lookup (ev_scopes st'))"
  using assms const_ok(1) by (auto simp: eval_iff eval_pre_def)

theorem eval_well_formed_witness:
  "value_ok (V_Integer (Integer_normalized True 3)) \<and> env_ok (scopes_lookup (ev_scopes (sample_state\<lparr>ev_steps := 4\<rparr>)))"
proof -
  have "eval sample_floats sample_expr 0 sample_state
     = Ok (V_Integer (Integer_normalized True 3), sample_state\<lparr>ev_steps := 4\<rparr>)"
    by (simp add: sample_expr_def sample_state_def bindE_def returnE_def eval_enter_def usize_checked_add_def USIZE_MAX_def Limits_default_def MAX_CONST_STEPS_def MAX_CONST_DEPTH_def eval_operands_def eval_integers_def Integer_negate_def Integer_positive_def Integer_normalized_def)
  moreover have "lim_steps (ev_limits sample_state) \<le> USIZE_MAX" "u128_literals (node sample_expr)"
    by (simp_all add: sample_state_def sample_expr_def Limits_default_def MAX_CONST_STEPS_def USIZE_MAX_def U128_MAX_def)
  ultimately show ?thesis using eval_well_formed sample_env_ok by blast
qed

end
