(* ===== verification/ConstVisit_Correct.thy ===== *)
theory ConstVisit_Correct
  imports ConstScopes ConstEval_Correct
begin

text \<open>
  The visitor of compile-time evaluation: it reports every \<^verbatim>\<open>const\<close> binding once, in lexical order, with the value
  its initializer has where it stands, within the budgets, and never panics.
\<close>

section \<open>No panics\<close>

definition calm :: "'a eval \<Rightarrow> bool" where
  "calm m \<longleftrightarrow> (\<forall>st. m st \<noteq> Panic)"

lemma calm_basic [intro!]:
  "calm (returnE x)" "calm (failE e)" "calm (eval_enter d s)" "calm (push_scope sc)" "calm pop_scope"
  by (auto simp: calm_def returnE_def failE_def eval_enter_def push_scope_def pop_scope_def split: option.split)

lemma calm_bind [intro!]: "calm m \<Longrightarrow> (\<And>x. calm (f x)) \<Longrightarrow> calm (bindE m f)"
  unfolding calm_def bindE_def by (metis (no_types, lifting) bindO_Panic_iff case_prod_conv surj_pair)

lemma calm_if [intro!]: "calm m \<Longrightarrow> calm n \<Longrightarrow> calm (if b then m else n)"
  by simp

lemma calm_unary: "calm (eval_unary op v s)"
  by (cases op; cases v) auto

lemma calm_operands: "calm (eval_operands fl v op w s)"
  by (cases v; cases w)
     (auto simp: eval_operands_def eval_integers_def eval_floats_def integer_result_def split: binary_operator.split option.split)

lemma calm_lookup: "calm (eval_node fl (E_Identifier x) s d)"
  by (auto simp: calm_def split: option.split)

lemma eval_calm:
  shows "calm (eval fl e d)" "calm (eval_node fl nd s d)" "calm (eval_binary fl l op r d s)"
    "calm (eval_values fl es d)" "calm (eval_fields fl fs d xvs)" "calm (eval_arms fl u arms d s)"
proof (induction fl e d and fl nd s d and fl l op r d s and fl es d and fl fs d xvs and fl u arms d s
    rule: eval_eval_node_eval_binary_eval_values_eval_fields_eval_arms.induct)
  case (7 fl x s depth)
  show ?case by (rule calm_lookup)
next
  case (10 fl obj f fs s depth)
  then show ?case by (auto split: const_value.split option.split)
next
  case (15 fl l op r depth s)
  have "calm (eval fl r (depth + 1))" if "\<not> (op = B_And \<and> v = V_Bool False)" "\<not> (op = B_Or \<and> v = V_Bool True)" for v
    using 15(2) that by blast
  then show ?case unfolding eval_binary.simps
    by (intro calm_bind) (use 15(1) calm_operands in auto)
next
  case (21 fl v p grp guard e t arms depth s)
  show ?case
  proof (cases "pattern_matches (node p) v Map.empty")
    case None
    with 21(1) show ?thesis by simp
  next
    case (Some b)
    have "calm (case guard of None \<Rightarrow> returnE True | Some gd \<Rightarrow> bindE (eval fl gd (depth + 1)) (\<lambda>w. returnE (w = V_Bool True)))"
      using 21(2) [OF Some] by (cases guard) auto
    with 21(3,4) [OF Some] Some show ?thesis by auto
  qed
qed (simp_all only: eval.simps eval_node.simps eval_values.simps eval_fields.simps eval_arms.simps, (intro calm_bind calm_basic calm_unary; blast)+)

section \<open>What the visitor keeps\<close>

text \<open>The nodes and the string bytes of a value, counted without saturation.\<close>

function (sequential) value_nodes :: "const_value \<Rightarrow> nat" where
  "value_nodes (V_Array vs) = Suc (sum_list (map value_nodes vs))"
| "value_nodes (V_Struct n fs) = Suc (sum_list (map (\<lambda>f. value_nodes (snd f)) fs))"
| "value_nodes _ = 1"
  by pat_completeness auto
termination
  by (relation "measure size") (auto dest: size_elem size_entry)

function (sequential) value_bytes :: "const_value \<Rightarrow> nat" where
  "value_bytes (V_String t) = length t"
| "value_bytes (V_Array vs) = sum_list (map value_bytes vs)"
| "value_bytes (V_Struct n fs) = sum_list (map (\<lambda>f. value_bytes (snd f)) fs)"
| "value_bytes _ = 0"
  by pat_completeness auto
termination
  by (relation "measure size") (auto dest: size_elem size_entry)

definition clipped :: "nat \<times> nat \<Rightarrow> nat \<times> nat" where
  "clipped m = (min (fst m) USIZE_MAX, min (snd m) USIZE_MAX)"

lemma add_clipped: "add_measure (clipped (a, b)) (clipped (c, d)) = clipped (a + c, b + d)"
  by (auto simp: add_measure_def clipped_def usize_saturating_add_def min_def)

lemma fold_clipped:
  assumes "\<And>v k l. v \<in> set vs \<Longrightarrow> add_measure (clipped (k, l)) (g v) = clipped (k + n v, l + b v)"
  shows "foldl add_measure (clipped (k, l)) (map g vs) = clipped (k + sum_list (map n vs), l + sum_list (map b vs))"
  using assms by (induction vs arbitrary: k l) (auto simp: add.assoc)

lemma fold_clipped_one:
  assumes "\<And>v k l. v \<in> set vs \<Longrightarrow> add_measure (clipped (k, l)) (g v) = clipped (k + n v, l + b v)"
  shows "foldl add_measure (1, 0) (map g vs) = clipped (1 + sum_list (map n vs), sum_list (map b vs))"
  using fold_clipped [where k = 1 and l = 0, OF assms] by (simp add: clipped_def [of "(Suc 0, 0)"] USIZE_MAX_def)

lemma measure_value_exact: "add_measure (clipped (k, l)) (measure_value v) = clipped (k + value_nodes v, l + value_bytes v)"
proof (induction v arbitrary: k l)
  case (V_Array vs)
  have "measure_value (V_Array vs) = clipped (1 + sum_list (map value_nodes vs), sum_list (map value_bytes vs))"
    unfolding measure_value.simps by (rule fold_clipped_one [OF V_Array])
  then show ?case by (simp add: add_clipped)
next
  case (V_Struct n fs)
  have "measure_value (V_Struct n fs) =
      clipped (1 + sum_list (map (\<lambda>f. value_nodes (snd f)) fs), sum_list (map (\<lambda>f. value_bytes (snd f)) fs))"
    unfolding measure_value.simps by (rule fold_clipped_one) (metis V_Struct prod.collapse snds.intros)
  then show ?case by (simp add: add_clipped)
qed (auto simp: add_measure_def clipped_def usize_saturating_add_def min_def USIZE_MAX_def)

text \<open>The constants a scope stands for, given the values of the constants before.\<close>

definition denoted :: "visible \<Rightarrow> const_entry list \<Rightarrow> string \<rightharpoonup> const_value" where
  "denoted \<Gamma> cs = (\<lambda>x. map_option (\<lambda>j. const_val (cs ! j)) (\<Gamma> x))"

definition within :: "visible \<Rightarrow> nat \<Rightarrow> bool" where
  "within \<Gamma> n \<longleftrightarrow> (\<forall>x j. \<Gamma> x = Some j \<longrightarrow> j < n)"

definition declares :: "float_ops \<Rightarrow> const_entry list \<Rightarrow> const_entry \<Rightarrow> const_site \<Rightarrow> bool" where
  "declares fl cs c t \<longleftrightarrow>
     const_function c = site_function t \<and> const_name c = site_name t \<and> const_span c = site_span t \<and>
     (\<exists>e n h. site_init t = Some e \<and> const_value_of fl (denoted (site_scope t) cs) e (const_val c) n h)"

definition meets :: "float_ops \<Rightarrow> const_entry list \<Rightarrow> const_site list \<Rightarrow> bool" where
  "meets fl cs ts \<longleftrightarrow> length cs = length ts \<and>
     (\<forall>i < length ts. within (site_scope (ts ! i)) i \<and> declares fl (take i cs) (cs ! i) (ts ! i))"

definition site_ok :: "const_site \<Rightarrow> bool" where
  "site_ok t \<longleftrightarrow> (case site_init t of None \<Rightarrow> False | Some e \<Rightarrow> u128_literals (node e))"

definition charged :: "evaluator \<Rightarrow> bool" where
  "charged st \<longleftrightarrow>
     lim_steps (ev_limits st) \<le> USIZE_MAX \<and> lim_value_nodes (ev_limits st) < USIZE_MAX \<and> lim_string_bytes (ev_limits st) < USIZE_MAX \<and>
     ev_steps st \<le> lim_steps (ev_limits st) \<and>
     ev_value_nodes st = (\<Sum>c\<leftarrow>ev_constants st. value_nodes (const_val c)) \<and> ev_value_nodes st \<le> lim_value_nodes (ev_limits st) \<and>
     ev_string_bytes st = (\<Sum>c\<leftarrow>ev_constants st. value_bytes (const_val c)) \<and> ev_string_bytes st \<le> lim_string_bytes (ev_limits st) \<and>
     list_all (\<lambda>c. value_ok (const_val c)) (ev_constants st)"

definition keeps :: "float_ops \<Rightarrow> string \<Rightarrow> visible \<Rightarrow> const_site list \<Rightarrow> evaluator \<Rightarrow> bool" where
  "keeps fl f \<Gamma> ts st \<longleftrightarrow>
     charged st \<and> ev_function st = f \<and> ev_scopes st \<noteq> [] \<and> meets fl (ev_constants st) ts \<and> within \<Gamma> (length ts) \<and>
     env_of st = denoted \<Gamma> (ev_constants st)"

definition visits :: "float_ops \<Rightarrow> string \<Rightarrow> visible \<Rightarrow> (visible \<Rightarrow> bool) \<Rightarrow> unit eval \<Rightarrow> const_site list \<Rightarrow> const_site list \<Rightarrow> bool" where
  "visits fl f \<Gamma> P m ts ts' \<longleftrightarrow>
     (\<exists>more. ts' = ts @ more) \<and>
     (\<forall>st. keeps fl f \<Gamma> ts st \<longrightarrow> list_all site_ok ts' \<longrightarrow>
       (case m st of
          Ok (_, st') \<Rightarrow> (\<exists>\<Gamma>'. P \<Gamma>' \<and> keeps fl f \<Gamma>' ts' st') \<and> tl (ev_scopes st') = tl (ev_scopes st) \<and>
            ev_limits st' = ev_limits st \<and> (\<exists>new. ev_constants st' = ev_constants st @ new)
        | Err _ \<Rightarrow> True
        | Panic \<Rightarrow> False))"

lemma visits_skip: "P \<Gamma> \<Longrightarrow> visits fl f \<Gamma> P (returnE ()) ts ts"
  by (auto simp: visits_def returnE_def)

lemma visits_extends: "visits fl f \<Gamma> P m ts ts' \<Longrightarrow> \<exists>more. ts' = ts @ more"
  by (simp add: visits_def)

lemma visitsD:
  assumes "visits fl f \<Gamma> P m ts ts'" "keeps fl f \<Gamma> ts st" "list_all site_ok ts'"
  shows "m st \<noteq> Panic"
    "m st = Ok (u, st') \<Longrightarrow> (\<exists>\<Gamma>'. P \<Gamma>' \<and> keeps fl f \<Gamma>' ts' st') \<and> tl (ev_scopes st') = tl (ev_scopes st) \<and>
            ev_limits st' = ev_limits st \<and> (\<exists>new. ev_constants st' = ev_constants st @ new)"
  using assms unfolding visits_def by (auto dest!: spec [of _ st])

lemma visitsI:
  assumes "\<exists>more. ts' = ts @ more"
    and "\<And>st. keeps fl f \<Gamma> ts st \<Longrightarrow> list_all site_ok ts' \<Longrightarrow> m st \<noteq> Panic"
    and "\<And>st st'. keeps fl f \<Gamma> ts st \<Longrightarrow> list_all site_ok ts' \<Longrightarrow> m st = Ok ((), st') \<Longrightarrow>
      (\<exists>\<Gamma>'. P \<Gamma>' \<and> keeps fl f \<Gamma>' ts' st') \<and> tl (ev_scopes st') = tl (ev_scopes st) \<and>
            ev_limits st' = ev_limits st \<and> (\<exists>new. ev_constants st' = ev_constants st @ new)"
  shows "visits fl f \<Gamma> P m ts ts'"
  unfolding visits_def using assms by (auto split: outcome.split)

lemma thenE_Panic: "thenE m n st = Panic \<longleftrightarrow> m st = Panic \<or> (\<exists>st'. m st = Ok ((), st') \<and> n st' = Panic)"
  by (cases "m st") (auto simp: thenE_def bindE_def)

lemma thenE_Ok: "thenE m n st = Ok (x, st'') \<longleftrightarrow> (\<exists>st'. m st = Ok ((), st') \<and> n st' = Ok (x, st''))"
  by (cases "m st") (auto simp: thenE_def bindE_def)

lemma visits_then:
  assumes m: "visits fl f \<Gamma> P m ts ts1" and n: "\<And>\<Gamma>1. P \<Gamma>1 \<Longrightarrow> visits fl f \<Gamma>1 Q n ts1 ts2" and "\<exists>more. ts2 = ts1 @ more"
  shows "visits fl f \<Gamma> Q (thenE m n) ts ts2"
proof (rule visitsI)
  show "\<exists>more. ts2 = ts @ more" using visits_extends [OF m] assms(3) by auto
  fix st assume k: "keeps fl f \<Gamma> ts st" and ok: "list_all site_ok ts2"
  have ok1: "list_all site_ok ts1" using ok assms(3) by auto
  show "thenE m n st \<noteq> Panic"
    using visitsD [OF m k ok1] visitsD(1) [OF n _ ok] by (fastforce simp: thenE_Panic)
  fix st' assume "thenE m n st = Ok ((), st')"
  then obtain st1 where st1: "m st = Ok ((), st1)" "n st1 = Ok ((), st')" by (auto simp: thenE_Ok)
  from visitsD(2) [OF m k ok1 st1(1)] obtain \<Gamma>1 where p: "P \<Gamma>1" "keeps fl f \<Gamma>1 ts1 st1" by auto
  from visitsD(2) [OF m k ok1 st1(1)] visitsD(2) [OF n [OF p(1)] p(2) ok st1(2)]
  show "(\<exists>\<Gamma>'. Q \<Gamma>' \<and> keeps fl f \<Gamma>' ts2 st') \<and> tl (ev_scopes st') = tl (ev_scopes st) \<and>
            ev_limits st' = ev_limits st \<and> (\<exists>new. ev_constants st' = ev_constants st @ new)"
    by auto
qed

lemma visits_seq:
  "visits fl f \<Gamma> (\<lambda>\<Gamma>'. \<Gamma>' = \<Gamma>) m ts ts1 \<Longrightarrow> visits fl f \<Gamma> P n ts1 ts2 \<Longrightarrow> visits fl f \<Gamma> P (thenE m n) ts ts2"
  by (rule visits_then [where P = "\<lambda>\<Gamma>'. \<Gamma>' = \<Gamma>" and ?ts1.0 = ts1]) (auto dest: visits_extends)

lemma denoted_append: "within \<Gamma> (length cs) \<Longrightarrow> denoted \<Gamma> (cs @ new) = denoted \<Gamma> cs"
  by (auto simp: denoted_def within_def fun_eq_iff nth_append map_option_case split: option.split)

lemma within_mono: "within \<Gamma> n \<Longrightarrow> n \<le> m \<Longrightarrow> within \<Gamma> m"
  by (force simp: within_def)

lemma meets_length: "meets fl cs ts \<Longrightarrow> length cs = length ts"
  by (simp add: meets_def)

lemma charged_scopes [simp]: "charged (st\<lparr>ev_scopes := scs\<rparr>) = charged st"
  by (simp add: charged_def)

lemma keeps_popped:
  assumes "keeps fl f \<Gamma> ts st" "keeps fl f \<Gamma>1 ts' st1" "ts' = ts @ us" "ev_constants st1 = ev_constants st @ new"
  shows "keeps fl f \<Gamma> ts' (st1\<lparr>ev_scopes := ev_scopes st\<rparr>)"
proof -
  have "length (ev_constants st) = length ts" using assms(1) by (auto simp: keeps_def dest: meets_length)
  then have "denoted \<Gamma> (ev_constants st1) = denoted \<Gamma> (ev_constants st)"
    using assms(1,4) by (simp add: keeps_def denoted_append)
  moreover have "within \<Gamma> (length ts')" using assms(1,3) within_mono [of \<Gamma> "length ts"] by (simp add: keeps_def)
  ultimately show ?thesis using assms(1,2) by (simp add: keeps_def)
qed

lemma lookup_hide: "scopes_lookup (no_values xs # scs) = (\<lambda>x. if x \<in> set xs then None else scopes_lookup scs x)"
  by (auto simp: no_values_def)

lemma visits_scoped:
  assumes m: "visits fl f (hide xs \<Gamma>) P m ts ts'"
  shows "visits fl f \<Gamma> (\<lambda>\<Gamma>'. \<Gamma>' = \<Gamma>) (thenE (push_scope (no_values xs)) (thenE m pop_scope)) ts ts'"
proof (rule visitsI)
  show "\<exists>more. ts' = ts @ more" by (rule visits_extends [OF m])
  fix st assume k: "keeps fl f \<Gamma> ts st" and ok: "list_all site_ok ts'"
  let ?st = "st\<lparr>ev_scopes := no_values xs # ev_scopes st\<rparr>"
  have k': "keeps fl f (hide xs \<Gamma>) ts ?st"
    using k by (auto simp: keeps_def charged_def lookup_hide hide_def within_def denoted_def fun_eq_iff simp del: scopes_lookup.simps)
  show "thenE (push_scope (no_values xs)) (thenE m pop_scope) st \<noteq> Panic"
    using visitsD(1) [OF m k' ok] by (auto simp: thenE_Panic thenE_Ok push_scope_def pop_scope_def)
  fix st' assume "thenE (push_scope (no_values xs)) (thenE m pop_scope) st = Ok ((), st')"
  then obtain st1 where st1: "m ?st = Ok ((), st1)" "st' = st1\<lparr>ev_scopes := tl (ev_scopes st1)\<rparr>"
    by (auto simp: thenE_Ok push_scope_def pop_scope_def)
  from visitsD(2) [OF m k' ok st1(1)] obtain \<Gamma>1 new where p: "keeps fl f \<Gamma>1 ts' st1" "tl (ev_scopes st1) = ev_scopes st"
      "ev_limits st1 = ev_limits st" "ev_constants st1 = ev_constants st @ new" by auto
  with st1(2) visits_extends [OF m] show "(\<exists>\<Gamma>'. \<Gamma>' = \<Gamma> \<and> keeps fl f \<Gamma>' ts' st') \<and> tl (ev_scopes st') = tl (ev_scopes st) \<and>
            ev_limits st' = ev_limits st \<and> (\<exists>new. ev_constants st' = ev_constants st @ new)"
    using keeps_popped [OF k p(1)] by auto
qed

lemma meets_snoc:
  assumes "meets fl cs ts" "within (site_scope t) (length ts)" "declares fl cs c t"
  shows "meets fl (cs @ [c]) (ts @ [t])"
  using assms by (auto simp: meets_def nth_append less_Suc_eq)

lemma lookup_bound: "scopes_lookup (sc(x \<mapsto> v) # scs) = (scopes_lookup (sc # scs))(x := v)"
  by (auto simp: fun_eq_iff)

lemma denoted_upd:
  "denoted (\<Gamma>(x := None)) cs = (denoted \<Gamma> cs)(x := None)"
  "denoted (\<Gamma>(x \<mapsto> k)) cs = (denoted \<Gamma> cs)(x \<mapsto> const_val (cs ! k))"
  by (auto simp: denoted_def fun_eq_iff)

lemma within_upd: "within \<Gamma> n \<Longrightarrow> within (\<Gamma>(x := None)) n" "within \<Gamma> n \<Longrightarrow> within (\<Gamma>(x \<mapsto> n)) (Suc n)"
  by (auto simp: within_def less_Suc_eq)

lemma visits_bind: "visits fl f \<Gamma> (\<lambda>\<Gamma>'. \<Gamma>' = \<Gamma>(x := None)) (bind_name x None) ts ts"
proof (rule visitsI)
  fix st assume k: "keeps fl f \<Gamma> ts st"
  then obtain sc scs where scs: "ev_scopes st = sc # scs" by (cases "ev_scopes st") (auto simp: keeps_def)
  then show "bind_name x None st \<noteq> Panic" by (simp add: bind_name_def)
  fix st' assume "bind_name x None st = Ok ((), st')"
  with k scs show "(\<exists>\<Gamma>'. \<Gamma>' = \<Gamma>(x := None) \<and> keeps fl f \<Gamma>' ts st') \<and> tl (ev_scopes st') = tl (ev_scopes st) \<and>
            ev_limits st' = ev_limits st \<and> (\<exists>new. ev_constants st' = ev_constants st @ new)"
    by (auto simp: bind_name_def keeps_def lookup_bound denoted_upd within_upd simp del: scopes_lookup.simps)
qed simp

lemma keeps_pre:
  assumes "keeps fl f \<Gamma> ts st"
  shows "eval_pre st"
proof -
  have "value_ok v" if "env_of st x = Some v" for x v
    using assms that by (auto simp: keeps_def charged_def denoted_def within_def meets_def list_all_length)
  with assms show ?thesis by (simp add: eval_pre_def env_ok_def keeps_def charged_def)
qed

lemma charge_value_Ok:
  assumes "charged st" "value_ok v" "charge_value v s st = Ok (u, st')"
  shows "st' = st\<lparr>ev_value_nodes := ev_value_nodes st + value_nodes v, ev_string_bytes := ev_string_bytes st + value_bytes v\<rparr>"
    "ev_value_nodes st' \<le> lim_value_nodes (ev_limits st)" "ev_string_bytes st' \<le> lim_string_bytes (ev_limits st)"
proof -
  have "clipped (ev_value_nodes st, ev_string_bytes st) = (ev_value_nodes st, ev_string_bytes st)"
    using assms(1) by (simp add: charged_def clipped_def)
  then have "add_measure (ev_value_nodes st, ev_string_bytes st) (measure_value v)
      = clipped (ev_value_nodes st + value_nodes v, ev_string_bytes st + value_bytes v)"
    using measure_value_exact [of "ev_value_nodes st" "ev_string_bytes st" v] by simp
  with assms show "st' = st\<lparr>ev_value_nodes := ev_value_nodes st + value_nodes v, ev_string_bytes := ev_string_bytes st + value_bytes v\<rparr>"
    "ev_value_nodes st' \<le> lim_value_nodes (ev_limits st)" "ev_string_bytes st' \<le> lim_string_bytes (ev_limits st)"
    by (auto simp: charge_value_def add_measure_def clipped_def charged_def Let_def split: prod.splits if_splits)
qed

lemma visits_const:
  "visits fl f \<Gamma> (\<lambda>\<Gamma>'. \<Gamma>' = \<Gamma>(x \<mapsto> length ts)) (visit_const fl x value s) ts
     (ts @ [\<lparr>site_function = f, site_name = x, site_span = s, site_init = value, site_scope = \<Gamma>\<rparr>])"
  (is "visits _ _ _ _ _ _ (ts @ [?site])")
proof (rule visitsI)
  fix st assume k: "keeps fl f \<Gamma> ts st" and "list_all site_ok (ts @ [?site])"
  then obtain e where e: "value = Some e" "u128_literals (node e)" by (auto simp: site_ok_def split: option.splits)
  note exact = eval_iff [OF keeps_pre [OF k] e(2), of fl 0]
  have "eval fl e 0 st \<noteq> Panic" using eval_calm(1) [of fl e 0] by (simp add: calm_def)
  with k exact show "visit_const fl x value s st \<noteq> Panic"
    by (cases "eval fl e 0 st")
       (auto simp: visit_const_def e bindE_def thenE_Panic push_constant_def bind_name_def keeps_def charge_value_def Let_def
         split: list.split prod.splits if_splits)
  fix st' assume "visit_const fl x value s st = Ok ((), st')"
  then obtain v st1 st2 where v: "eval fl e 0 st = Ok (v, st1)" "charge_value v s st1 = Ok ((), st2)"
      "thenE (push_constant x s v) (bind_name x (Some v)) st2 = Ok ((), st')"
    by (auto simp: visit_const_def e bindE_iff thenE_Ok)
  from v(1) obtain n h where c: "const_value_of fl (env_of st) e v n h" "affords st 0 n h" "st1 = spend n st"
    by (auto simp: exact)
  have ok: "value_ok v" using const_ok(1) [OF c(1)] keeps_pre [OF k] by (simp add: eval_pre_def)
  have "charged st1" using k c(2,3) by (simp add: keeps_def charged_def affords_def spend_def)
  note st2 = charge_value_Ok [OF this ok v(2)]
  obtain sc scs where scs: "ev_scopes st = sc # scs" using k by (cases "ev_scopes st") (auto simp: keeps_def)
  let ?c = "\<lparr>const_function = f, const_name = x, const_span = s, const_val = v\<rparr>"
  have st': "ev_scopes st' = sc(x \<mapsto> Some v) # scs" "ev_constants st' = ev_constants st @ [?c]" "ev_limits st' = ev_limits st"
      "ev_function st' = f" "charged st'"
    using v(3) st2 c(2,3) scs k ok
    by (auto simp: thenE_Ok push_constant_def bind_name_def spend_def keeps_def charged_def affords_def)
  have cs: "length (ev_constants st) = length ts" "within \<Gamma> (length ts)" "env_of st = denoted \<Gamma> (ev_constants st)"
      "meets fl (ev_constants st) ts" using k by (auto simp: keeps_def dest: meets_length)
  have "declares fl (ev_constants st) ?c ?site" using c(1) e(1) cs(3) by (auto simp: declares_def)
  then have "meets fl (ev_constants st') (ts @ [?site])" using meets_snoc [OF cs(4)] cs(2) st'(2) by simp
  moreover have "env_of st' = denoted (\<Gamma>(x \<mapsto> length ts)) (ev_constants st')"
    using cs scs st'(1,2) by (simp add: lookup_bound denoted_upd denoted_append flip: cs(1) del: scopes_lookup.simps)
  ultimately have "keeps fl f (\<Gamma>(x \<mapsto> length ts)) (ts @ [?site]) st'"
    using st' within_upd(2) [OF cs(2)] by (simp add: keeps_def)
  with st' scs show "(\<exists>\<Gamma>'. \<Gamma>' = \<Gamma>(x \<mapsto> length ts) \<and> keeps fl f \<Gamma>' (ts @ [?site]) st') \<and> tl (ev_scopes st') = tl (ev_scopes st) \<and>
            ev_limits st' = ev_limits st \<and> (\<exists>new. ev_constants st' = ev_constants st @ new)"
    by simp
qed simp

section \<open>The visitor\<close>

text \<open>A statement leaves the scope its declaration makes; everything else leaves it as it was.\<close>

lemma visits_block:
  "visits fl f \<Gamma> P m ts ts' \<Longrightarrow> visits fl f \<Gamma> (\<lambda>\<Gamma>'. \<Gamma>' = \<Gamma>) (thenE (push_scope Map.empty) (thenE m pop_scope)) ts ts'"
  using visits_scoped [of fl f "[]" \<Gamma> P m ts ts'] by (simp add: hide_def no_values_def)

lemma visits_none:
  "visits fl f \<Gamma> (\<lambda>\<Gamma>'. \<Gamma>' = \<Gamma>) (returnE ()) ts ts" "visits fl f \<Gamma> (\<lambda>_. True) (returnE ()) ts ts"
  by (simp_all add: visits_skip)

lemma visit_visits:
  shows "visits fl f \<Gamma> (\<lambda>\<Gamma>'. \<Gamma>' = \<Gamma>) (visit_block fl b) ts (block_sites f \<Gamma> b ts)"
    and "visits fl f \<Gamma> (\<lambda>_. True) (visit_statements fl ss) ts (statements_sites f \<Gamma> ss ts)"
    and "visits fl f \<Gamma> (\<lambda>\<Gamma>'. \<Gamma>' = declared \<Gamma> (length ts) st) (visit_statement fl st s) ts (statement_sites f \<Gamma> st s ts)"
    and "visits fl f \<Gamma> (\<lambda>\<Gamma>'. \<Gamma>' = \<Gamma>) (visit_block_with_shadow fl b x) ts (block_sites f (hide [x] \<Gamma>) b ts)"
    and "visits fl f \<Gamma> (\<lambda>\<Gamma>'. \<Gamma>' = \<Gamma>) (visit_nested_closures fl e) ts (expr_sites f \<Gamma> e ts)"
    and "visits fl f \<Gamma> (\<lambda>\<Gamma>'. \<Gamma>' = \<Gamma>) (visit_nested_list fl es) ts (exprs_sites f \<Gamma> es ts)"
    and "visits fl f \<Gamma> (\<lambda>\<Gamma>'. \<Gamma>' = \<Gamma>) (visit_nested_option fl oe) ts (option_sites f \<Gamma> oe ts)"
    and "visits fl f \<Gamma> (\<lambda>\<Gamma>'. \<Gamma>' = \<Gamma>) (visit_nested_fields fl fs) ts (fields_sites f \<Gamma> fs ts)"
    and "visits fl f \<Gamma> (\<lambda>\<Gamma>'. \<Gamma>' = \<Gamma>) (visit_nested_arms fl arms) ts (arms_sites f \<Gamma> arms ts)"
proof (induction fl b and fl ss and fl st s and fl b x and fl e and fl es and fl oe and fl fs and fl arms
    arbitrary: \<Gamma> ts and \<Gamma> ts and \<Gamma> ts and \<Gamma> ts and \<Gamma> ts and \<Gamma> ts and \<Gamma> ts and \<Gamma> ts and \<Gamma> ts
    rule: visit_block_visit_statements_visit_statement_visit_block_with_shadow_visit_nested_closures_visit_nested_list_visit_nested_option_visit_nested_fields_visit_nested_arms.induct)
  case (1 fl ss s)
  show ?case unfolding visit_block.simps block_sites.simps by (rule visits_block [OF 1])
next
  case (3 fl st s ss)
  note first = 3(1) and rest = 3(2)
  show ?case unfolding visit_statements.simps statements_sites.simps
    by (rule visits_then [OF first]) (simp_all add: rest visits_extends [OF rest])
next
  case (4 fl kind x xs ann init s)
  have "visits fl f \<Gamma> (\<lambda>\<Gamma>'. \<Gamma>' = declared \<Gamma> (length ts) (S_Binding kind x xs ann init))
     (if kind = BK_Const then visit_const fl x init s else bind_name x None) ts
     (if kind = BK_Const then ts @ [\<lparr>site_function = f, site_name = x, site_span = s, site_init = init, site_scope = \<Gamma>\<rparr>] else ts)"
    using visits_const visits_bind by simp
  then show ?case unfolding visit_statement.simps statement_sites.simps
    by (rule visits_then) (erule ssubst, rule 4, rule visits_extends [OF 4])
next
  case (18 fl b x)
  show ?case unfolding visit_block_with_shadow.simps by (rule visits_scoped [OF 18])
qed (simp_all only: visit_statements.simps visit_statement.simps visit_nested_closures.simps
    visit_nested_list.simps visit_nested_option.simps visit_nested_fields.simps visit_nested_arms.simps
    statements_sites.simps statement_sites.simps expr_sites.simps exprs_sites.simps option_sites.simps
    fields_sites.simps arms_sites.simps declared.simps,
  ((erule meta_allE, erule meta_allE, assumption) | rule visits_none visits_scoped visits_seq)+)

section \<open>Programs\<close>

definition reports :: "float_ops \<Rightarrow> unit eval \<Rightarrow> const_site list \<Rightarrow> const_site list \<Rightarrow> bool" where
  "reports fl m ts ts' \<longleftrightarrow>
     (\<exists>more. ts' = ts @ more) \<and>
     (\<forall>st. charged st \<longrightarrow> meets fl (ev_constants st) ts \<longrightarrow> list_all site_ok ts' \<longrightarrow>
       (case m st of
          Ok (_, st') \<Rightarrow> charged st' \<and> meets fl (ev_constants st') ts' \<and> ev_limits st' = ev_limits st
        | Err _ \<Rightarrow> True
        | Panic \<Rightarrow> False))"

lemma reports_none: "reports fl (returnE ()) ts ts"
  by (simp add: reports_def returnE_def)

lemma reportsD:
  "reports fl m ts ts' \<Longrightarrow> charged st \<Longrightarrow> meets fl (ev_constants st) ts \<Longrightarrow> list_all site_ok ts' \<Longrightarrow>
     case m st of Ok (_, st') \<Rightarrow> charged st' \<and> meets fl (ev_constants st') ts' \<and> ev_limits st' = ev_limits st
     | Err _ \<Rightarrow> True | Panic \<Rightarrow> False"
  by (simp add: reports_def)

lemma reports_seq:
  assumes m: "reports fl m ts ts1" and n: "reports fl n ts1 ts2"
  shows "reports fl (thenE m n) ts ts2"
proof -
  have "case thenE m n st of Ok (_, st') \<Rightarrow> charged st' \<and> meets fl (ev_constants st') ts2 \<and> ev_limits st' = ev_limits st
        | Err _ \<Rightarrow> True | Panic \<Rightarrow> False"
    if st: "charged st" "meets fl (ev_constants st) ts" "list_all site_ok ts2" for st
  proof -
    have ok: "list_all site_ok ts1" using n st(3) by (auto simp: reports_def)
    show ?thesis
    proof (cases "m st")
      case (Ok r)
      obtain st1 where st1: "m st = Ok ((), st1)" using Ok by (cases r) auto
      have "charged st1" "meets fl (ev_constants st1) ts1" "ev_limits st1 = ev_limits st"
        using reportsD [OF m st(1,2) ok] st1 by auto
      with reportsD [OF n _ _ st(3), of st1] show ?thesis by (auto simp: thenE_def bindE_def st1 split: outcome.splits)
    qed (use reportsD [OF m st(1,2) ok] in \<open>auto simp: thenE_def bindE_def\<close>)
  qed
  with m n show ?thesis by (auto simp: reports_def)
qed

lemma reports_body: "reports fl (evaluate_body fl name f) ts (body_sites name f ts)"
proof -
  let ?enter = "\<lambda>st. st\<lparr>ev_function := name, ev_scopes := [no_values (map param_name (fn_parameters f))]\<rparr>"
  note v = visit_visits(1) [of fl name Map.empty "fn_body f" ts]
  have "case visit_block fl (fn_body f) (?enter st) of
        Ok (_, st') \<Rightarrow> charged st' \<and> meets fl (ev_constants st') (body_sites name f ts) \<and> ev_limits st' = ev_limits st
      | Err _ \<Rightarrow> True | Panic \<Rightarrow> False"
    if st: "charged st" "meets fl (ev_constants st) ts" "list_all site_ok (body_sites name f ts)" for st
  proof -
    have "keeps fl name Map.empty ts (?enter st)"
      using st by (auto simp: keeps_def charged_def within_def denoted_def no_values_def fun_eq_iff)
    from visitsD [OF v this st(3) [unfolded body_sites_def]] show ?thesis
      by (auto simp: body_sites_def keeps_def split: outcome.split)
  qed
  with visits_extends [OF v] show ?thesis by (simp add: reports_def evaluate_body_def flip: body_sites_def)
qed

lemma reports_functions:
  "reports fl (evaluate_functions fl fs) ts (fold (\<lambda>f. body_sites (fn_name f) f) (filter (\<lambda>f. fn_external f = None) fs) ts)"
proof (induction fs arbitrary: ts)
  case (Cons f fs)
  have "reports fl (if fn_external f \<noteq> None then returnE () else evaluate_body fl (fn_name f) f) ts
      (if fn_external f \<noteq> None then ts else body_sites (fn_name f) f ts)"
    by (simp add: reports_none reports_body)
  from reports_seq [OF this Cons.IH] show ?case by (cases "fn_external f") simp_all
qed (simp add: reports_none)

lemma reports_methods: "reports fl (evaluate_methods fl i fs) ts (fold (\<lambda>f. body_sites (method_name i f) f) fs ts)"
  by (induction fs arbitrary: ts) (auto simp: reports_none intro: reports_seq reports_body)

lemma reports_implementations:
  "reports fl (evaluate_implementations fl ds) ts
     (fold (\<lambda>(i, d). fold (\<lambda>f. body_sites (method_name i f) f) (impl_methods d)) ds ts)"
  by (induction ds arbitrary: ts) (auto simp: reports_none split: prod.split intro: reports_seq reports_methods)

definition sane_limits :: "const_limits \<Rightarrow> bool" where
  "sane_limits l \<longleftrightarrow> lim_steps l \<le> USIZE_MAX \<and> lim_value_nodes l < USIZE_MAX \<and> lim_string_bytes l < USIZE_MAX"

lemma evaluate_outcome:
  assumes "sane_limits limits" "list_all site_ok (program_sites p)"
  shows "case evaluate_with_limits fl p limits of
     Ok r \<Rightarrow> meets fl (report_constants r) (program_sites p) \<and> report_steps r \<le> lim_steps limits \<and>
       (\<Sum>c\<leftarrow>report_constants r. value_nodes (const_val c)) \<le> lim_value_nodes limits \<and>
       (\<Sum>c\<leftarrow>report_constants r. value_bytes (const_val c)) \<le> lim_string_bytes limits \<and>
       list_all (\<lambda>c. value_ok (const_val c)) (report_constants r)
   | Err _ \<Rightarrow> True
   | Panic \<Rightarrow> False"
proof -
  let ?st = "\<lparr>ev_scopes = [], ev_constants = [], ev_function = [], ev_steps = 0, ev_value_nodes = 0, ev_string_bytes = 0,
         ev_limits = limits\<rparr>"
  let ?m = "thenE (evaluate_functions fl (prog_functions p)) (evaluate_implementations fl (enumerate 0 (implementations p)))"
  have "reports fl ?m [] (program_sites p)"
    unfolding program_sites_def by (rule reports_seq [OF reports_functions reports_implementations])
  moreover have "charged ?st" "meets fl (ev_constants ?st) []" using assms(1) by (simp_all add: charged_def sane_limits_def meets_def)
  ultimately have "case ?m ?st of
      Ok (_, st') \<Rightarrow> charged st' \<and> meets fl (ev_constants st') (program_sites p) \<and> ev_limits st' = ev_limits ?st | Err _ \<Rightarrow> True | Panic \<Rightarrow> False"
    using reportsD [of fl ?m "[]" "program_sites p" ?st] assms(2) by blast
  then show ?thesis
    by (cases "?m ?st") (auto simp: evaluate_with_limits_def charged_def)
qed

text \<open>
  C11: what compile-time evaluation reports. It has one entry for every \<^verbatim>\<open>const\<close> binding of the program, in lexical
  order, with its function, name and span; the value of the entry is the one its initializer has when every name
  stands for the constant that is visible there, which is always an earlier entry.
\<close>

theorem evaluate_lexical:
  assumes "sane_limits limits" "list_all site_ok (program_sites p)" "evaluate_with_limits fl p limits = Ok r"
  shows "length (report_constants r) = length (program_sites p) \<and>
    (\<forall>i < length (program_sites p).
       within (site_scope (program_sites p ! i)) i \<and>
       declares fl (take i (report_constants r)) (report_constants r ! i) (program_sites p ! i))"
  using evaluate_outcome [OF assms(1,2), of fl] assms(3) by (simp add: meets_def)

text \<open>
  C12: compile-time evaluation stays within its budgets: a report never took more steps than allowed, and the nodes
  and the string bytes of all its values together, counted exactly, do not exceed theirs.
\<close>

theorem evaluate_within_budgets:
  assumes "sane_limits limits" "list_all site_ok (program_sites p)" "evaluate_with_limits fl p limits = Ok r"
  shows "report_steps r \<le> lim_steps limits \<and>
    (\<Sum>c\<leftarrow>report_constants r. value_nodes (const_val c)) \<le> lim_value_nodes limits \<and>
    (\<Sum>c\<leftarrow>report_constants r. value_bytes (const_val c)) \<le> lim_string_bytes limits"
  using evaluate_outcome [OF assms(1,2), of fl] assms(3) by simp

text \<open>
  C13: compile-time evaluation of a program whose \<^verbatim>\<open>const\<close> bindings all have an initializer returns a report or a
  diagnostic; neither the lookup of the innermost scope nor an initializer is ever missing.
\<close>

theorem evaluate_no_panic:
  assumes "list_all site_ok (program_sites p)"
  shows "no_panic (evaluate fl p)"
proof -
  have "sane_limits Limits_default"
    by (simp add: sane_limits_def Limits_default_def MAX_CONST_STEPS_def MAX_CONST_VALUE_NODES_def MAX_CONST_STRING_BYTES_def USIZE_MAX_def)
  from evaluate_outcome [OF this assms, of fl] show ?thesis by (auto simp: evaluate_def no_panic_def)
qed

text \<open>\<^verbatim>\<open>fn main() { const n = 7  const m = -n / 2 }\<close>\<close>

definition sample_program :: program where
  "sample_program = \<lparr>source_files = [], prog_module = None, prog_imports = [], public_items = [], prog_structs = [], prog_enums = [],
     prog_traits = [], implementations = [], prog_functions = [
       \<lparr>fn_asynchronous = False, fn_name = ''main'', fn_name_span = sample_span, fn_generics = [], fn_parameters = [],
        fn_return_type = None, fn_capabilities = None,
        fn_body = Block [
          Spanned (S_Binding BK_Const ''n'' sample_span None (Some (Spanned (E_Integer 7) sample_span))) sample_span,
          Spanned (S_Binding BK_Const ''m'' sample_span None (Some sample_expr)) sample_span] sample_span,
        fn_external = None, fn_exported = False, fn_span = sample_span\<rparr>]\<rparr>"

definition sample_report :: const_report where
  "sample_report = \<lparr>report_constants = [
      \<lparr>const_function = ''main'', const_name = ''n'', const_span = sample_span, const_val = V_Integer (Integer_positive 7)\<rparr>,
      \<lparr>const_function = ''main'', const_name = ''m'', const_span = sample_span, const_val = V_Integer (Integer_normalized True 3)\<rparr>],
    report_steps = 5\<rparr>"

lemma sample_sites: "list_all site_ok (program_sites sample_program)" "length (program_sites sample_program) = 2"
  by (simp_all add: program_sites_def sample_program_def sample_expr_def body_sites_def site_ok_def U128_MAX_def)

lemma sample_limits: "sane_limits Limits_default"
  by (simp add: sane_limits_def Limits_default_def MAX_CONST_STEPS_def MAX_CONST_VALUE_NODES_def MAX_CONST_STRING_BYTES_def USIZE_MAX_def)

lemma sample_evaluates: "evaluate_with_limits sample_floats sample_program Limits_default = Ok sample_report"
  by (simp add: evaluate_with_limits_def sample_program_def sample_report_def sample_expr_def thenE_def bindE_def returnE_def evaluate_body_def
      visit_const_def push_scope_def pop_scope_def push_constant_def bind_name_def charge_value_def usize_saturating_add_def
      eval_enter_def usize_checked_add_def USIZE_MAX_def Limits_default_def MAX_CONST_STEPS_def MAX_CONST_DEPTH_def
      MAX_CONST_VALUE_NODES_def MAX_CONST_STRING_BYTES_def eval_operands_def eval_integers_def Integer_negate_def Integer_positive_def Integer_normalized_def)

theorem evaluate_lexical_witness:
  "declares sample_floats (take 1 (report_constants sample_report)) (report_constants sample_report ! 1) (program_sites sample_program ! 1)"
  using evaluate_lexical [OF sample_limits sample_sites(1) sample_evaluates] sample_sites(2) by simp

theorem evaluate_within_budgets_witness:
  "report_steps sample_report \<le> MAX_CONST_STEPS"
  using evaluate_within_budgets [OF sample_limits sample_sites(1) sample_evaluates] by (simp add: Limits_default_def)

theorem evaluate_no_panic_witness: "no_panic (evaluate sample_floats sample_program)"
  using evaluate_no_panic [OF sample_sites(1)] .

end
