(* ===== verification/ConstFold_Correct.thy ===== *)
theory ConstFold_Correct
  imports ConstFold ConstEval_Correct
begin

text \<open>
  The folder of \<^verbatim>\<open>src/compiler/src/const_eval.rs\<close>: the expression a value is written back as has that value, and
  folding the constants of a scope into an expression does not change the value it has there.
\<close>

section \<open>Values as expressions\<close>

lemma btree_insert_last: "btree_wf (m @ [(x, v)]) \<Longrightarrow> btree_insert x v m = m @ [(x, v)]"
  by (induction m) (auto simp: btree_wf_def sorted_wrt_append dest: less_not_sym)

lemma btree_wf_prefix: "btree_wf (m @ n) \<Longrightarrow> btree_wf m"
  by (simp add: btree_wf_def sorted_wrt_append)

definition has_value :: "float_ops \<Rightarrow> (string \<rightharpoonup> const_value) \<Rightarrow> expr \<Rightarrow> const_value \<Rightarrow> bool" where
  "has_value fl \<rho> e v \<longleftrightarrow> (\<exists>n h. const_value_of fl \<rho> e v n h)"

definition have_values :: "float_ops \<Rightarrow> (string \<rightharpoonup> const_value) \<Rightarrow> expr list \<Rightarrow> const_value list \<Rightarrow> bool" where
  "have_values fl \<rho> es vs \<longleftrightarrow> (\<exists>n h. const_values fl \<rho> es vs n h)"

definition have_fields :: "float_ops \<Rightarrow> (string \<rightharpoonup> const_value) \<Rightarrow> struct_field_value list \<Rightarrow> (string, const_value) btree
    \<Rightarrow> (string, const_value) btree \<Rightarrow> bool" where
  "have_fields fl \<rho> fs vs ws \<longleftrightarrow> (\<exists>n h. const_fields fl \<rho> fs vs ws n h)"

definition arms_give :: "float_ops \<Rightarrow> (string \<rightharpoonup> const_value) \<Rightarrow> const_value \<Rightarrow> match_arm list \<Rightarrow> const_value \<Rightarrow> bool" where
  "arms_give fl \<rho> v arms w \<longleftrightarrow> (\<exists>n h. const_arms fl \<rho> v arms w n h)"

lemma value_rules:
  "i \<le> U128_MAX \<Longrightarrow> has_value fl \<rho> (Spanned (E_Integer i) s) (V_Integer (to_integer (int i)))"
  "has_value fl \<rho> (Spanned (E_Float f) s) (V_Float f)"
  "has_value fl \<rho> (Spanned (E_String t) s) (V_String t)"
  "has_value fl \<rho> (Spanned (E_Character c) s) (V_Character c)"
  "has_value fl \<rho> (Spanned (E_Bool b) s) (V_Bool b)"
  "\<rho> x = Some v \<Longrightarrow> has_value fl \<rho> (Spanned (E_Identifier x) s) v"
  "have_values fl \<rho> es vs \<Longrightarrow> has_value fl \<rho> (Spanned (E_Array es) s) (V_Array vs)"
  "have_fields fl \<rho> fs [] xvs \<Longrightarrow> has_value fl \<rho> (Spanned (E_StructConstruct t ts fs) s) (V_Struct t xvs)"
  "has_value fl \<rho> ob (V_Struct t xvs) \<Longrightarrow> map_of xvs x = Some w \<Longrightarrow> has_value fl \<rho> (Spanned (E_FieldAccess ob x xs) s) w"
  "has_value fl \<rho> e v \<Longrightarrow> ref_unary uop v = Some w \<Longrightarrow> has_value fl \<rho> (Spanned (E_Unary uop e) s) w"
  "has_value fl \<rho> l v \<Longrightarrow> decided op v \<Longrightarrow> has_value fl \<rho> (Spanned (E_Binary l op r) s) v"
  "has_value fl \<rho> l v \<Longrightarrow> \<not> decided op v \<Longrightarrow> has_value fl \<rho> r w \<Longrightarrow> ref_binary fl v op w = Some u
    \<Longrightarrow> has_value fl \<rho> (Spanned (E_Binary l op r) s) u"
  "has_value fl \<rho> e v \<Longrightarrow> arms_give fl \<rho> v arms w \<Longrightarrow> has_value fl \<rho> (Spanned (E_Match e arms) s) w"
  unfolding has_value_def have_values_def have_fields_def arms_give_def by (blast intro: const_intros)+

lemma list_rules:
  "have_values fl \<rho> [] []"
  "has_value fl \<rho> e v \<Longrightarrow> have_values fl \<rho> es vs \<Longrightarrow> have_values fl \<rho> (e # es) (v # vs)"
  "have_fields fl \<rho> [] xvs xvs"
  "has_value fl \<rho> e v \<Longrightarrow> have_fields fl \<rho> fs (btree_insert x v xvs) xws \<Longrightarrow> have_fields fl \<rho> (StructFieldValue x xs e # fs) xvs xws"
  unfolding has_value_def have_values_def have_fields_def by (blast intro: const_intros)+

lemma arm_rules:
  "pattern_matches (node p) v Map.empty = None \<Longrightarrow> arms_give fl \<rho> v arms w \<Longrightarrow> arms_give fl \<rho> v (MatchArm p grp guard e t # arms) w"
  "pattern_matches (node p) v Map.empty = Some b \<Longrightarrow> has_value fl (\<rho> ++ b) g u \<Longrightarrow> u \<noteq> V_Bool True
    \<Longrightarrow> arms_give fl \<rho> v arms w \<Longrightarrow> arms_give fl \<rho> v (MatchArm p grp (Some g) e t # arms) w"
  "pattern_matches (node p) v Map.empty = Some b \<Longrightarrow> has_value fl (\<rho> ++ b) e w
    \<Longrightarrow> arms_give fl \<rho> v (MatchArm p grp None e t # arms) w"
  "pattern_matches (node p) v Map.empty = Some b \<Longrightarrow> has_value fl (\<rho> ++ b) g (V_Bool True) \<Longrightarrow> has_value fl (\<rho> ++ b) e w
    \<Longrightarrow> arms_give fl \<rho> v (MatchArm p grp (Some g) e t # arms) w"
  unfolding has_value_def arms_give_def by (blast intro: const_intros)+

text \<open>What evaluating the expression of a value costs.\<close>

function (sequential) literal_steps :: "const_value \<Rightarrow> nat" where
  "literal_steps (V_Integer i) = (if negative i then 2 else 1)"
| "literal_steps (V_Array vs) = Suc (sum_list (map literal_steps vs))"
| "literal_steps (V_Struct n fs) = Suc (sum_list (map (\<lambda>f. literal_steps (snd f)) fs))"
| "literal_steps _ = 1"
  by pat_completeness auto
termination
  by (relation "measure size") (auto dest: size_elem size_entry)

function (sequential) literal_depth :: "const_value \<Rightarrow> nat" where
  "literal_depth (V_Integer i) = (if negative i then 1 else 0)"
| "literal_depth (V_Array vs) = foldr (\<lambda>d. max (Suc d)) (map literal_depth vs) 0"
| "literal_depth (V_Struct n fs) = foldr (\<lambda>d. max (Suc d)) (map (\<lambda>f. literal_depth (snd f)) fs) 0"
| "literal_depth _ = 0"
  by pat_completeness auto
termination
  by (relation "measure size") (auto dest: size_elem size_entry)

abbreviation literal :: "float_ops \<Rightarrow> (string \<rightharpoonup> const_value) \<Rightarrow> span \<Rightarrow> const_value \<Rightarrow> bool" where
  "literal fl \<rho> s v \<equiv> const_value_of fl \<rho> (Value_expression v s) v (literal_steps v) (literal_depth v)"

lemma literal_values:
  "(\<And>v. v \<in> set vs \<Longrightarrow> literal fl \<rho> s v) \<Longrightarrow>
     const_values fl \<rho> (map (\<lambda>v. Value_expression v s) vs) vs (sum_list (map literal_steps vs))
       (foldr (\<lambda>d. max (Suc d)) (map literal_depth vs) 0)"
  by (induction vs) (auto intro: const_intros)

lemma literal_fields:
  assumes "\<And>x v. (x, v) \<in> set fs \<Longrightarrow> literal fl \<rho> s v" "btree_wf (acc @ fs)"
  shows "const_fields fl \<rho> (map (\<lambda>f. StructFieldValue (fst f) s (Value_expression (snd f) s)) fs) acc (acc @ fs)
      (sum_list (map (\<lambda>f. literal_steps (snd f)) fs)) (foldr (\<lambda>d. max (Suc d)) (map (\<lambda>f. literal_depth (snd f)) fs) 0)"
  using assms
proof (induction fs arbitrary: acc)
  case (Cons f fs)
  have "btree_wf (acc @ [f])" using Cons.prems(2) btree_wf_prefix [of "acc @ [f]" fs] by simp
  then have "btree_insert (fst f) (snd f) acc = acc @ [f]" using btree_insert_last [of acc "fst f" "snd f"] by simp
  moreover have "const_fields fl \<rho> (map (\<lambda>f. StructFieldValue (fst f) s (Value_expression (snd f) s)) fs) (acc @ [f]) ((acc @ [f]) @ fs)
      (sum_list (map (\<lambda>f. literal_steps (snd f)) fs)) (foldr (\<lambda>d. max (Suc d)) (map (\<lambda>f. literal_depth (snd f)) fs) 0)"
    using Cons.prems by (intro Cons.IH) auto
  moreover have "literal fl \<rho> s (snd f)" using Cons.prems(1) [of "fst f" "snd f"] by simp
  ultimately show ?case using OneField [of fl \<rho> "Value_expression (snd f) s" "snd f"] by fastforce
qed (simp add: NoField)

lemma literal_integer: "int_ok i \<Longrightarrow> literal fl \<rho> s (V_Integer i)"
  by (cases i) (auto simp: const_value_simps const_node_simps ref_unary_def int_ok_def normal_def to_integer_def int_of_def)

lemma value_literal: "value_ok v \<Longrightarrow> literal fl \<rho> s v"
proof (induction rule: value_ok.induct)
  case (1 i)
  then show ?case by (rule literal_integer)
next
  case (6 vs)
  then show ?case using literal_values [of vs fl \<rho> s] by (simp add: const_value_simps const_node_simps)
next
  case (7 fs n)
  then show ?case using literal_fields [of fs fl \<rho> s "[]"] by (simp add: const_value_simps const_node_simps)
qed (simp_all add: const_value_simps const_node_simps)

lemma expression_has_value: "value_ok v \<Longrightarrow> has_value fl \<rho> (Value_expression v s) v"
  unfolding has_value_def by (blast dest: value_literal)

section \<open>Names of patterns\<close>

text \<open>The alternatives of an or-pattern bind no name that the first does not.\<close>

function (sequential) bound_alike :: "pattern \<Rightarrow> bool" where
  "bound_alike (P_Or ps) \<longleftrightarrow>
     list_all (\<lambda>p. set (pattern_names (node p)) \<subseteq> set (pattern_names (P_Or ps))) ps \<and> (\<forall>p \<in> set ps. bound_alike (node p))"
| "bound_alike (P_Struct n fs rest) \<longleftrightarrow> (\<forall>f \<in> set fs. bound_alike (node (pf_pattern f)))"
| "bound_alike _ \<longleftrightarrow> True"
  by pat_completeness auto
termination
  by (relation "measure size")
     (auto dest!: size_node [of _ _ size] size_pf_pattern [of _ _ size])

lemma pattern_binds:
  shows "pattern_matches p v b = Some c \<Longrightarrow> bound_alike p \<Longrightarrow> dom c \<subseteq> dom b \<union> set (pattern_names p)"
    and "pattern_matches_any ps v b = Some c \<Longrightarrow> \<forall>p \<in> set ps. bound_alike (node p) \<Longrightarrow>
      dom c \<subseteq> dom b \<union> (\<Union>p \<in> set ps. set (pattern_names (node p)))"
    and "pattern_matches_fields fs vs b = Some c \<Longrightarrow> \<forall>f \<in> set fs. bound_alike (node (pf_pattern f)) \<Longrightarrow>
      dom c \<subseteq> dom b \<union> (\<Union>f \<in> set fs. set (pattern_names (node (pf_pattern f))))"
proof (induction p v b and ps v b and fs vs b arbitrary: c and c and c
    rule: pattern_matches_pattern_matches_any_pattern_matches_fields.induct)
  case (8 ps v b)
  then have "dom c \<subseteq> dom b \<union> (\<Union>p \<in> set ps. set (pattern_names (node p)))" by simp
  moreover have "(\<Union>p \<in> set ps. set (pattern_names (node p))) \<subseteq> set (pattern_names (P_Or ps))"
    using "8.prems"(2) by (simp add: list_all_iff UN_subset_iff del: pattern_names.simps)
  ultimately show ?case by blast
next
  case (13 p s ps v b)
  then show ?case by (auto split: option.splits)
next
  case (15 x s p t fs vs b)
  then obtain v d where d: "map_of vs x = Some v" "pattern_matches p v b = Some d" "pattern_matches_fields fs vs d = Some c"
    by (auto split: option.splits)
  have "dom d \<subseteq> dom b \<union> set (pattern_names p)" using 15(1) [OF d(1,2)] "15.prems"(2) by simp
  from Un_mono [OF this subset_refl] 15(2) [OF d] "15.prems"(2)
  have "dom c \<subseteq> dom b \<union> set (pattern_names p) \<union> (\<Union>f \<in> set fs. set (pattern_names (node (pf_pattern f))))"
    by (simp add: order_trans)
  then show ?case by (simp add: Un_assoc)
qed (auto split: if_splits)

primrec names_alike :: "expression \<Rightarrow> bool" where
  "names_alike (E_Array es) \<longleftrightarrow> list_all node (map (map_spanned names_alike) es)"
| "names_alike (E_StructConstruct n ns fs) \<longleftrightarrow>
     list_all (\<lambda>f. node (fv_value f)) (map (map_struct_field_value_of names_alike) fs)"
| "names_alike (E_FieldAccess ob f fs) \<longleftrightarrow> node (map_spanned names_alike ob)"
| "names_alike (E_Unary op e) \<longleftrightarrow> node (map_spanned names_alike e)"
| "names_alike (E_Binary l op r) \<longleftrightarrow> node (map_spanned names_alike l) \<and> node (map_spanned names_alike r)"
| "names_alike (E_Match e arms) \<longleftrightarrow> node (map_spanned names_alike e) \<and>
     list_all (\<lambda>a. bound_alike (node (arm_pattern a)) \<and> pred_option node (arm_guard a) \<and> node (arm_value a))
       (map (map_match_arm_of names_alike) arms)"
| "names_alike (E_Integer i) \<longleftrightarrow> True"
| "names_alike (E_Float x) \<longleftrightarrow> True"
| "names_alike (E_String x) \<longleftrightarrow> True"
| "names_alike (E_Character x) \<longleftrightarrow> True"
| "names_alike (E_Bool x) \<longleftrightarrow> True"
| "names_alike (E_Identifier x) \<longleftrightarrow> True"
| "names_alike (E_DataStore a) \<longleftrightarrow> True"
| "names_alike (E_DataWrite a b c) \<longleftrightarrow> True"
| "names_alike (E_DataQuery a b c d e f g h) \<longleftrightarrow> True"
| "names_alike (E_DataRemove a b c d) \<longleftrightarrow> True"
| "names_alike (E_Closure a b c d) \<longleftrightarrow> True"
| "names_alike (E_Index a b) \<longleftrightarrow> True"
| "names_alike (E_Subslice a b c) \<longleftrightarrow> True"
| "names_alike (E_Try a) \<longleftrightarrow> True"
| "names_alike (E_Await a) \<longleftrightarrow> True"
| "names_alike (E_Spawn a) \<longleftrightarrow> True"
| "names_alike (E_Move a) \<longleftrightarrow> True"
| "names_alike (E_Borrow a b) \<longleftrightarrow> True"
| "names_alike (E_Dereference a) \<longleftrightarrow> True"
| "names_alike (E_Call a b) \<longleftrightarrow> True"

abbreviation arms_alike :: "match_arm list \<Rightarrow> bool" where
  "arms_alike \<equiv> list_all (\<lambda>a. bound_alike (node (arm_pattern a)) \<and> pred_option (\<lambda>e. names_alike (node e)) (arm_guard a)
     \<and> names_alike (node (arm_value a)))"

section \<open>Folding\<close>

definition agrees_with :: "(string \<rightharpoonup> const_value) \<Rightarrow> const_scope list \<Rightarrow> bool" where
  "agrees_with \<rho> scs \<longleftrightarrow> (\<forall>x w. scopes_lookup scs x = Some w \<longrightarrow> \<rho> x = Some w)"

lemma agrees_match:
  assumes "agrees_with \<rho> scs" "pattern_matches p v Map.empty = Some b" "bound_alike p"
  shows "agrees_with (\<rho> ++ b) (no_values (pattern_names p) # scs)"
proof -
  have "b x = None" if "x \<notin> set (pattern_names p)" for x
    using pattern_binds(1) [OF assms(2,3)] that by auto
  with assms(1) show ?thesis by (auto simp: agrees_with_def no_values_def map_add_def split: if_splits)
qed

lemma fold_preserves:
  shows "const_value_of fl \<rho> e v n h \<Longrightarrow> env_ok \<rho> \<Longrightarrow> agrees_with \<rho> scs \<Longrightarrow> names_alike (node e)
      \<Longrightarrow> has_value fl \<rho> (fold_expr fo scs e) v"
    and "const_node fl \<rho> nd v n h \<Longrightarrow> env_ok \<rho> \<Longrightarrow> agrees_with \<rho> scs \<Longrightarrow> names_alike nd
      \<Longrightarrow> has_value fl \<rho> (fold_expr fo scs (Spanned nd s)) v"
    and "const_values fl \<rho> es vs n h \<Longrightarrow> env_ok \<rho> \<Longrightarrow> agrees_with \<rho> scs \<Longrightarrow> list_all (\<lambda>e. names_alike (node e)) es
      \<Longrightarrow> have_values fl \<rho> (fold_exprs fo scs es) vs"
    and "const_fields fl \<rho> fs xvs xws n h \<Longrightarrow> env_ok \<rho> \<Longrightarrow> agrees_with \<rho> scs \<Longrightarrow> list_all (\<lambda>f. names_alike (node (fv_value f))) fs
      \<Longrightarrow> have_fields fl \<rho> (fold_fields fo scs fs) xvs xws"
    and "const_arms fl \<rho> v arms w n h \<Longrightarrow> env_ok \<rho> \<Longrightarrow> value_ok v \<Longrightarrow> agrees_with \<rho> scs \<Longrightarrow> arms_alike arms
      \<Longrightarrow> arms_give fl \<rho> v (fold_arms fo scs arms) w"
proof (induction arbitrary: scs and scs s and scs and scs and scs
    rule: const_value_of_const_node_const_values_const_fields_const_arms.inducts)
  case (Name \<rho> x v)
  show ?case
  proof (cases "scopes_lookup scs x")
    case None
    with Name show ?thesis by (simp add: value_rules)
  next
    case (Some w)
    with Name have "w = v" "value_ok v" by (auto simp: agrees_with_def dest: env_okD)
    with Some show ?thesis by (simp add: expression_has_value)
  qed
next
  case (Match \<rho> e v n h arms w m k)
  have "value_ok v" using Match(1) Match.prems const_ok(1) by blast
  with Match show ?case
    by (auto simp: list.pred_map comp_def match_arm_of.map_sel option.pred_map intro: value_rules(13))
next
  case (Struct \<rho> fs vs n h t ts)
  then show ?case by (simp add: list.pred_map comp_def struct_field_value_of.map_sel value_rules(8))
next
  case (Refuse p v b \<rho> g u n h arms w m k grp e t)
  then show ?case by (auto intro: arm_rules(2) agrees_match match_env_ok)
next
  case (Take p v b \<rho> e w n h grp t arms)
  then show ?case by (auto intro: arm_rules(3) agrees_match match_env_ok)
next
  case (Guarded p v b \<rho> g n h e w m k grp t arms)
  then show ?case by (auto intro: arm_rules(4) agrees_match match_env_ok)
qed (auto simp: list.pred_map comp_def intro: value_rules list_rules arm_rules)

text \<open>
  C15: a value is written back into the program as an expression that evaluates to it. The evaluator returns the
  same value for \<^verbatim>\<open>value.expression(span)\<close> in every scope, in exactly \<open>literal_steps\<close> steps, when the budgets allow
  them.
\<close>

theorem value_expression_roundtrip:
  assumes "value_ok v" "lim_steps (ev_limits st) \<le> USIZE_MAX" "env_ok (scopes_lookup (ev_scopes st))"
    and "ev_steps st + literal_steps v \<le> lim_steps (ev_limits st)" "depth + literal_depth v \<le> lim_depth (ev_limits st)"
  shows "eval fl (Value_expression v s) depth st = Ok (v, st\<lparr>ev_steps := ev_steps st + literal_steps v\<rparr>)"
  using eval_complete(1) [OF value_literal [OF assms(1), of fl "env_of st" s], of st depth] assms
  by (simp add: eval_pre_def affords_def spend_def)

definition sample_value :: const_value where
  "sample_value = V_Struct ''Point'' [(''x'', V_Integer (Integer_normalized True 3)), (''y'', V_Array [V_Bool True])]"

theorem value_expression_roundtrip_witness:
  "eval sample_floats (Value_expression sample_value sample_span) 0 sample_state
     = Ok (sample_value, sample_state\<lparr>ev_steps := 5\<rparr>)"
  using value_expression_roundtrip [of sample_value sample_state 0 sample_floats sample_span] sample_env_ok
  by (simp add: sample_value_def sample_state_def Limits_default_def MAX_CONST_STEPS_def MAX_CONST_DEPTH_def USIZE_MAX_def
      Integer_normalized_def int_ok_def normal_def U128_MAX_def btree_wf_def)

text \<open>
  C14: folding does not change the value of a constant expression. When the folder knows only names that have the
  same value in the environment, the folded expression has every value the original has.
\<close>

theorem fold_expr_preserves_value:
  assumes "const_value_of fl \<rho> e v n h" "env_ok \<rho>" "names_alike (node e)"
    and "\<forall>x w. scopes_lookup scopes x = Some w \<longrightarrow> \<rho> x = Some w"
  shows "\<exists>m k. const_value_of fl \<rho> (fold_expr fo scopes e) v m k"
  using fold_preserves(1) [OF assms(1,2), of scopes fo] assms(3,4) by (simp add: agrees_with_def has_value_def)

theorem fold_expr_preserves_value_witness:
  "fold_expr \<lparr>fold_constants = [], fold_function = ''main''\<rparr> (ev_scopes sample_state) sample_expr
     = Spanned (E_Binary (Spanned (E_Unary U_Negate (Spanned (E_Integer 7) sample_span)) sample_span) B_Divide
         (Spanned (E_Integer 2) sample_span)) sample_span \<and>
   (\<exists>m k. const_value_of sample_floats (scopes_lookup (ev_scopes sample_state))
     (fold_expr \<lparr>fold_constants = [], fold_function = ''main''\<rparr> (ev_scopes sample_state) sample_expr)
     (V_Integer (Integer_normalized True 3)) m k)"
proof
  show "fold_expr \<lparr>fold_constants = [], fold_function = ''main''\<rparr> (ev_scopes sample_state) sample_expr
     = Spanned (E_Binary (Spanned (E_Unary U_Negate (Spanned (E_Integer 7) sample_span)) sample_span) B_Divide
         (Spanned (E_Integer 2) sample_span)) sample_span"
    by (simp add: sample_expr_def sample_state_def Integer_positive_def)
  have "names_alike (node sample_expr)" by (simp add: sample_expr_def)
  with fold_expr_preserves_value [OF sample_value_of sample_env_ok] show
   "\<exists>m k. const_value_of sample_floats (scopes_lookup (ev_scopes sample_state))
     (fold_expr \<lparr>fold_constants = [], fold_function = ''main''\<rparr> (ev_scopes sample_state) sample_expr)
     (V_Integer (Integer_normalized True 3)) m k" by blast
qed

end
