(* ===== verification/Spec2Isabelle.thy ===== *)
theory Spec2Isabelle
  imports Lexer_Correct DataStore Parser_Correct Captures_Correct ConstVisit_Correct ConstFold_Correct
begin

text \<open>
  A verification library for the DISP compiler (src/compiler).

  The compiler turns a source text into tokens (\<^verbatim>\<open>lexer.rs\<close>), reports problems as diagnostics with
  source spans (\<^verbatim>\<open>diagnostics.rs\<close>), and goes on from the tokens to an AST. \<open>Prelude\<close> has the outcome
  type that models \<^verbatim>\<open>Result\<close> together with panics; \<open>Diagnostics\<close> and \<open>Lexer\<close> model the two files
  function by function; \<open>Lexer_Correct\<close> proves that the lexer never panics, that the tokens tile the
  source, and that literals are read back as the values they denote.
\<close>

end
